(* ===== verification/Prelude.thy ===== *)
theory Prelude
  imports Main "HOL-Library.Word" "HOL-Library.Sublist" "HOL-Library.Monad_Syntax"
begin

text \<open>
  Shared vocabulary of the development: C strings as character lists, the functions of the C
  library that the proxy's sources call (\<^verbatim>\<open>strchr\<close>, \<^verbatim>\<open>strstr\<close>, \<^verbatim>\<open>strtok_r\<close>, \<^verbatim>\<open>strncpy\<close>,
  \<^verbatim>\<open>fgets\<close>, \<^verbatim>\<open>atoi\<close>, \<^verbatim>\<open>tolower\<close>, \<^verbatim>\<open>isspace\<close>, \<^verbatim>\<open>inet_pton(AF_INET)\<close>, \<^verbatim>\<open>snprintf\<close>), the
  integer types of the x86-64 ABI the makefile builds for, the files the process can read, and
  the generic lemmas the component theories rewrite with.

  A C string is the list of its characters without the terminating NUL; a pointer into a string
  is the offset from its start or the suffix it points to. \<^verbatim>\<open>int\<close> and \<^verbatim>\<open>time_t\<close> values that
  are only stored and compared are \<^typ>\<open>int\<close>; \<^verbatim>\<open>size_t\<close>, \<^verbatim>\<open>uint64_t\<close>, \<^verbatim>\<open>unsigned long\<close> and
  the counters that may wrap are words.
\<close>

unbundle bit_operations_syntax

section \<open>Automation\<close>

named_theorems clib \<open>definitions of the C library functions\<close>
named_theorems frame \<open>what an operation leaves unchanged\<close>

section \<open>Types and characters\<close>

type_synonym u8 = "8 word"
type_synonym i32 = "32 word"
type_synonym u32 = "32 word"
type_synonym u64 = "64 word"
type_synonym size_t = "64 word"

type_synonym file_system = "string \<Rightarrow> string option"

abbreviation NUL :: char where "NUL \<equiv> CHR 0x00"
abbreviation TAB :: char where "TAB \<equiv> CHR 0x09"
abbreviation LF :: char where "LF \<equiv> CHR 0x0A"
abbreviation CR :: char where "CR \<equiv> CHR 0x0D"
abbreviation QUOTE :: char where "QUOTE \<equiv> CHR 0x22"
abbreviation CRLF :: string where "CRLF \<equiv> [CR, LF]"

definition code :: "char \<Rightarrow> nat" where
  "code c = of_char c"

definition char_int :: "char \<Rightarrow> int" where
  "char_int c = (let n = int (code c) in if n < 128 then n else n - 256)"

definition isspace :: "char \<Rightarrow> bool" where
  "isspace c \<longleftrightarrow> c = CHR 0x20 \<or> c = CHR 0x09 \<or> c = CHR 0x0A \<or> c = CHR 0x0B \<or> c = CHR 0x0C \<or> c = CHR 0x0D"

definition isdigit :: "char \<Rightarrow> bool" where
  "isdigit c \<longleftrightarrow> 48 \<le> code c \<and> code c \<le> 57"

definition tolower :: "char \<Rightarrow> char" where
  "tolower c = (if 65 \<le> code c \<and> code c \<le> 90 then char_of (code c + 32) else c)"

section \<open>String functions\<close>

definition c_str :: "char list \<Rightarrow> string" where
  "c_str = takeWhile (\<lambda>c. c \<noteq> NUL)"

definition is_cstr :: "char list \<Rightarrow> bool" where
  "is_cstr s \<longleftrightarrow> NUL \<notin> set s"

fun find_pos :: "('a \<Rightarrow> bool) \<Rightarrow> 'a list \<Rightarrow> nat option" where
  "find_pos P [] = None"
| "find_pos P (x # xs) = (if P x then Some 0 else map_option Suc (find_pos P xs))"

definition strchr :: "string \<Rightarrow> char \<Rightarrow> nat option" where
  "strchr s c = find_pos (\<lambda>x. x = c) s"

fun strstr :: "'a list \<Rightarrow> 'a list \<Rightarrow> nat option" where
  "strstr [] pat = (if pat = [] then Some 0 else None)"
| "strstr (x # xs) pat = (if prefix pat (x # xs) then Some 0 else map_option Suc (strstr xs pat))"

abbreviation (input) memmem :: "'a list \<Rightarrow> 'a list \<Rightarrow> nat option" where
  "memmem \<equiv> strstr"

definition strcasestr :: "string \<Rightarrow> string \<Rightarrow> nat option" where
  "strcasestr hay pat = strstr (map tolower hay) (map tolower pat)"

definition strcaseeq :: "string \<Rightarrow> string \<Rightarrow> bool" where
  "strcaseeq s t \<longleftrightarrow> map tolower s = map tolower t"

definition strncpy_term :: "nat \<Rightarrow> string \<Rightarrow> string" where
  "strncpy_term sz s = take (sz - 1) s"

definition snprintf :: "nat \<Rightarrow> string \<Rightarrow> string" where
  "snprintf sz s = take (sz - 1) s"

definition strtok :: "char list \<Rightarrow> string \<Rightarrow> (string \<times> string) option" where
  \<comment> \<open>token and what follows it, the delimiter included; \<^verbatim>\<open>None\<close> where C returns NULL\<close>
  "strtok delims s =
     (let t = dropWhile (\<lambda>c. c \<in> set delims) s
      in if t = [] then None
         else Some (takeWhile (\<lambda>c. c \<notin> set delims) t, dropWhile (\<lambda>c. c \<notin> set delims) t))"

definition rtrim :: "string \<Rightarrow> string" where
  "rtrim s = rev (dropWhile isspace (rev s))"

section \<open>Numbers in text\<close>

definition digits_value :: "string \<Rightarrow> nat" where
  "digits_value ds = foldl (\<lambda>a c. a * 10 + (code c - 48)) 0 ds"

definition clamp :: "int \<Rightarrow> int \<Rightarrow> int \<Rightarrow> int" where
  "clamp lo hi x = (if x < lo then lo else if x > hi then hi else x)"

definition strtol :: "string \<Rightarrow> int" where
  "strtol s =
     (let t = dropWhile isspace s;
          neg = (case t of c # _ \<Rightarrow> c = CHR ''-'' | [] \<Rightarrow> False);
          u = (case t of c # r \<Rightarrow> if c = CHR ''-'' \<or> c = CHR ''+'' then r else t | [] \<Rightarrow> []);
          v = int (digits_value (takeWhile isdigit u))
      in clamp (- (2 ^ 63)) (2 ^ 63 - 1) (if neg then - v else v))"

definition atoi :: "string \<Rightarrow> int" where
  "atoi s = sint (word_of_int (strtol s) :: i32)"

definition atoll :: "string \<Rightarrow> int" where
  "atoll s = strtol s"

fun show_nat :: "nat \<Rightarrow> string" where
  "show_nat n = (if n < 10 then [char_of (48 + n)] else show_nat (n div 10) @ [char_of (48 + n mod 10)])"

declare show_nat.simps [simp del]

definition show_int :: "int \<Rightarrow> string" where
  "show_int i = (if i < 0 then CHR ''-'' # show_nat (nat (- i)) else show_nat (nat i))"

section \<open>Reading text files\<close>

definition fgets_line :: "nat \<Rightarrow> string \<Rightarrow> string" where
  \<comment> \<open>one \<^verbatim>\<open>fgets(line, sz, f)\<close>: up to \<^verbatim>\<open>sz - 1\<close> characters, through the newline\<close>
  "fgets_line sz s =
     take (sz - 1) (takeWhile (\<lambda>c. c \<noteq> LF) s @ (if LF \<in> set s then [LF] else []))"

function fgets_lines :: "nat \<Rightarrow> string \<Rightarrow> string list" where
  "fgets_lines sz s =
     (if s = [] \<or> sz < 2 then []
      else c_str (fgets_line sz s) # fgets_lines sz (drop (length (fgets_line sz s)) s))"
  by pat_completeness auto
termination
proof (relation "measure (\<lambda>(sz, s). length s)", goal_cases)
  case (2 sz s)
  then have "0 < length (fgets_line sz s)"
    by (cases s) (auto simp: fgets_line_def)
  with 2 show ?case by auto
qed simp

declare fgets_lines.simps [simp del]

definition strip_line :: "string \<Rightarrow> string option" where
  \<comment> \<open>the loop body the list loaders share: skip blank and comment lines, trim both ends\<close>
  "strip_line line =
     (let p = dropWhile isspace line
      in case p of [] \<Rightarrow> None | c # _ \<Rightarrow> if c = CHR ''#'' then None else Some (rtrim p))"

section \<open>IPv4 addresses in text\<close>

definition dec_octet :: "string \<Rightarrow> nat option" where
  "dec_octet s =
     (if s = [] \<or> \<not> list_all isdigit s \<or> (hd s = CHR ''0'' \<and> length s > 1)
         \<or> length s > 3 \<or> digits_value s > 255
      then None else Some (digits_value s))"

fun split_on :: "'a \<Rightarrow> 'a list \<Rightarrow> 'a list list" where
  "split_on d [] = [[]]"
| "split_on d (c # s) =
     (if c = d then [] # split_on d s
      else (case split_on d s of [] \<Rightarrow> [[c]] | w # ws \<Rightarrow> (c # w) # ws))"

definition inet_pton4 :: "string \<Rightarrow> u32 option" where
  \<comment> \<open>the host-order value of a dotted quad, \<^verbatim>\<open>None\<close> where \<^verbatim>\<open>inet_pton\<close> does not return 1\<close>
  "inet_pton4 s =
     (case map dec_octet (split_on (CHR ''.'') s) of
        [Some a, Some b, Some c, Some d] \<Rightarrow>
          Some (of_nat (a * 16777216 + b * 65536 + c * 256 + d))
      | _ \<Rightarrow> None)"

lemmas clib_defs [clib] =
  strchr_def strcasestr_def strcaseeq_def strncpy_term_def snprintf_def c_str_def

section \<open>Lemmas\<close>

subsection \<open>Searching\<close>

lemma find_pos_None_iff: "find_pos P xs = None \<longleftrightarrow> (\<forall>x \<in> set xs. \<not> P x)"
  by (induction xs) auto

lemma find_pos_SomeD:
  "find_pos P xs = Some i \<Longrightarrow> i < length xs \<and> P (xs ! i) \<and> (\<forall>x \<in> set (take i xs). \<not> P x)"
proof (induction xs arbitrary: i)
  case (Cons a xs)
  then show ?case by (cases i) (auto split: if_splits)
qed simp

lemma find_pos_append:
  "(\<forall>x \<in> set us. \<not> P x) \<Longrightarrow> P c \<Longrightarrow> find_pos P (us @ c # vs) = Some (length us)"
  by (induction us) auto

lemma strchr_append:
  "c \<notin> set us \<Longrightarrow> strchr (us @ c # vs) c = Some (length us)"
  by (auto simp: strchr_def intro!: find_pos_append)

lemma strchr_None_iff [simp]: "strchr s c = None \<longleftrightarrow> c \<notin> set s"
  by (auto simp: strchr_def find_pos_None_iff)

lemma strchr_SomeD:
  "strchr s c = Some i \<Longrightarrow> i < length s \<and> s ! i = c \<and> c \<notin> set (take i s)"
  by (auto simp: strchr_def dest: find_pos_SomeD)

lemma strstr_SomeD:
  "strstr xs pat = Some i \<Longrightarrow> i \<le> length xs \<and> prefix pat (drop i xs)"
proof (induction xs arbitrary: i)
  case (Cons a xs)
  then show ?case by (cases i) (auto split: if_splits)
qed (simp split: if_splits)

lemma strstr_bound: "strstr xs pat = Some i \<Longrightarrow> i + length pat \<le> length xs"
  using strstr_SomeD [of xs pat i] prefix_length_le [of pat "drop i xs"] by auto

lemma strstr_least:
  "strstr xs pat = Some i \<Longrightarrow> j < i \<Longrightarrow> \<not> prefix pat (drop j xs)"
proof (induction xs arbitrary: i j)
  case (Cons a xs)
  then show ?case by (cases j; cases i) (auto split: if_splits)
qed (simp split: if_splits)

lemma strstr_None_iff: "strstr xs pat = None \<longleftrightarrow> \<not> sublist pat xs"
  by (induction xs) (auto simp: sublist_Cons_right)

lemma strstr_Some_iff: "(\<exists>i. strstr xs pat = Some i) \<longleftrightarrow> sublist pat xs"
  using strstr_None_iff [of xs pat] by auto

lemma strstr_exact:
  "i \<le> length xs \<Longrightarrow> prefix pat (drop i xs) \<Longrightarrow> (\<forall>j<i. \<not> prefix pat (drop j xs)) \<Longrightarrow> strstr xs pat = Some i"
proof (induction xs arbitrary: i)
  case Nil
  then show ?case by simp
next
  case (Cons a xs)
  show ?case
  proof (cases i)
    case 0
    with Cons.prems show ?thesis by simp
  next
    case (Suc k)
    have "\<forall>j<k. \<not> prefix pat (drop j xs)" using Cons.prems(3) Suc by fastforce
    with Cons Suc have "strstr xs pat = Some k" by simp
    moreover have "\<not> prefix pat (a # xs)" using Cons.prems(3) Suc by fastforce
    ultimately show ?thesis using Suc by simp
  qed
qed

lemma strstr_CRLF_append:
  assumes "CR \<notin> set us"
  shows "strstr (us @ CR # LF # vs) CRLF = Some (length us)"
  using assms by (induction us) auto

subsection \<open>Strings and trimming\<close>

lemma is_cstr_simps [simp]:
  "is_cstr []" "is_cstr (c # s) \<longleftrightarrow> c \<noteq> NUL \<and> is_cstr s" "is_cstr (s @ t) \<longleftrightarrow> is_cstr s \<and> is_cstr t"
  by (auto simp: is_cstr_def)

lemma c_str_id: "is_cstr s \<Longrightarrow> c_str s = s"
  by (auto simp: c_str_def is_cstr_def takeWhile_eq_all_conv)

lemma c_str_append_NUL: "is_cstr s \<Longrightarrow> c_str (s @ NUL # t) = s"
  by (induction s) (auto simp: c_str_def)

lemma is_cstr_c_str [simp]: "is_cstr (c_str s)"
  using set_takeWhileD by (force simp: c_str_def is_cstr_def)

lemma length_strncpy_term: "0 < n \<Longrightarrow> length (strncpy_term n s) < n"
  by (auto simp: strncpy_term_def)

lemma strncpy_term_id: "length s < n \<Longrightarrow> strncpy_term n s = s"
  by (auto simp: strncpy_term_def)

lemma snprintf_id: "length s < n \<Longrightarrow> snprintf n s = s"
  by (auto simp: snprintf_def)

lemma rtrim_prefix: "prefix (rtrim s) s"
proof -
  have "s = rtrim s @ rev (takeWhile isspace (rev s))"
    unfolding rtrim_def by (metis rev_append rev_rev_ident takeWhile_dropWhile_id)
  then show ?thesis by (metis prefixI)
qed

lemma rtrim_last: "rtrim s \<noteq> [] \<Longrightarrow> \<not> isspace (last (rtrim s))"
  unfolding rtrim_def by (metis hd_dropWhile last_rev rev_is_Nil_conv)

lemma rtrim_id: "s = [] \<or> \<not> isspace (last s) \<Longrightarrow> rtrim s = s"
  by (cases s rule: rev_cases) (auto simp: rtrim_def)

lemma rtrim_idem [simp]: "rtrim (rtrim s) = rtrim s"
  using rtrim_last rtrim_id by blast

lemma strip_line_Some:
  "strip_line l = Some e \<Longrightarrow>
     e \<noteq> [] \<and> \<not> isspace (hd e) \<and> \<not> isspace (last e) \<and> hd e \<noteq> CHR ''#'' \<and> length e \<le> length l"
proof -
  assume a: "strip_line l = Some e"
  define p where "p = dropWhile isspace l"
  from a have ne: "p \<noteq> []" and h: "hd p \<noteq> CHR ''#''" and e: "e = rtrim p"
    by (auto simp: strip_line_def p_def [symmetric] Let_def split: list.splits if_splits)
  have hs: "\<not> isspace (hd p)" using ne by (metis hd_dropWhile p_def)
  have "e \<noteq> []"
  proof
    assume "e = []"
    then have "\<forall>c \<in> set p. isspace c"
      using e by (auto simp: rtrim_def)
    with ne hs show False by auto
  qed
  moreover have "hd e = hd p"
    using \<open>e \<noteq> []\<close> e rtrim_prefix [of p] by (metis hd_append prefixE)
  moreover have "length e \<le> length l"
    using prefix_length_le [OF rtrim_prefix [of p]] length_dropWhile_le [of isspace l] e p_def by simp
  ultimately show ?thesis using h hs e rtrim_last [of p] by simp
qed

subsection \<open>Numbers\<close>

lemma atoi_range: "- (2 ^ 31) \<le> atoi s \<and> atoi s < 2 ^ 31"
  unfolding atoi_def
  using sint_ge [of "word_of_int (strtol s) :: i32"] sint_lt [of "word_of_int (strtol s) :: i32"]
  by simp

lemma strtol_range: "- (2 ^ 63) \<le> strtol s \<and> strtol s \<le> 2 ^ 63 - 1"
  by (auto simp: strtol_def clamp_def Let_def)

lemma code_char_of_digit: "n < 10 \<Longrightarrow> code (char_of (48 + n)) = 48 + n"
  by (simp add: code_def)

lemma digits_value_snoc: "digits_value (ds @ [c]) = digits_value ds * 10 + (code c - 48)"
  by (simp add: digits_value_def)

lemma show_nat_value: "digits_value (show_nat n) = n"
proof (induction n rule: show_nat.induct)
  case (1 n)
  show ?case
  proof (cases "n < 10")
    case True
    then show ?thesis
      by (subst show_nat.simps) (simp add: digits_value_def code_char_of_digit)
  next
    case False
    then show ?thesis
      using 1 by (subst show_nat.simps) (simp add: digits_value_snoc code_char_of_digit)
  qed
qed

lemma show_nat_digits: "\<forall>c \<in> set (show_nat n). isdigit c"
proof (induction n rule: show_nat.induct)
  case (1 n)
  then show ?case
    by (subst show_nat.simps) (auto simp: isdigit_def code_char_of_digit)
qed

lemma show_nat_nonempty: "show_nat n \<noteq> []"
  by (subst show_nat.simps) simp

lemma show_nat_length: "n < 10 ^ k \<Longrightarrow> 0 < k \<Longrightarrow> length (show_nat n) \<le> k"
proof (induction n arbitrary: k rule: show_nat.induct)
  case (1 n)
  show ?case
  proof (cases "n < 10")
    case True
    with 1 show ?thesis by (subst show_nat.simps) simp
  next
    case False
    with 1(2) obtain j where k: "k = Suc j" and j: "0 < j"
      by (cases k; cases "k - 1") auto
    from 1(2) k have "n div 10 < 10 ^ j" by auto
    with 1(1) [OF False, of j] j have "length (show_nat (n div 10)) \<le> j" by simp
    with False k show ?thesis by (subst show_nat.simps) simp
  qed
qed

lemma show_int_length:
  "- (10 ^ k) < i \<Longrightarrow> i < 10 ^ k \<Longrightarrow> 0 < k \<Longrightarrow> length (show_int i) \<le> Suc k"
proof -
  assume "- (10 ^ k) < i" "i < 10 ^ k" "0 < k"
  then have "nat (- i) < 10 ^ k" "nat i < 10 ^ k" by (auto simp: nat_less_iff)
  then show ?thesis
    using \<open>0 < k\<close> show_nat_length [of "nat (- i)" k] show_nat_length [of "nat i" k]
    by (auto simp: show_int_def)
qed

subsection \<open>Characters\<close>

lemma tolower_idem [simp]: "tolower (tolower c) = tolower c"
  by (auto simp: tolower_def code_def)

lemma tolower_dot_iff [simp]: "tolower c = CHR ''.'' \<longleftrightarrow> c = CHR ''.''"
proof -
  have "code (char_of (code c + 32)) = code c + 32" if "code c \<le> 90"
    using that by (simp add: code_def)
  moreover have "code (CHR ''.'') = 46" by (simp add: code_def)
  ultimately show ?thesis by (force simp: tolower_def)
qed

subsection \<open>Lines of a file\<close>

lemma fgets_line_prefix: "prefix (fgets_line sz s) s"
proof -
  have "prefix (takeWhile (\<lambda>c. c \<noteq> LF) s @ (if LF \<in> set s then [LF] else [])) s"
  proof (induction s)
    case (Cons c s)
    then show ?case by (cases "c = LF") auto
  qed simp
  then show ?thesis
    unfolding fgets_line_def by (meson prefix_order.trans take_is_prefix)
qed

lemma fgets_line_bound: "length (fgets_line sz s) \<le> sz - 1"
  by (simp add: fgets_line_def)

lemma fgets_lines_bound: "l \<in> set (fgets_lines sz s) \<Longrightarrow> length l < sz"
proof (induction sz s rule: fgets_lines.induct)
  case (1 sz s)
  show ?case
  proof (cases "s = [] \<or> sz < 2")
    case True
    with 1(2) show ?thesis by (simp add: fgets_lines.simps)
  next
    case False
    have "length (c_str (fgets_line sz s)) \<le> sz - 1"
      using fgets_line_bound [of sz s] length_takeWhile_le le_trans
      unfolding c_str_def by blast
    with 1 False show ?thesis by (auto simp: fgets_lines.simps [of sz s])
  qed
qed

end
