(* ===== verification/Metrics.thy ===== *)
theory Metrics
  imports Prelude
begin

text \<open>
  \<^verbatim>\<open>src/src/metrics.h\<close> and \<^verbatim>\<open>src/src/metrics.c\<close>: the process-wide counters (64-bit, wrapping)
  and gauges (signed 32-bit) behind one mutex, and their Prometheus export. Every operation
  holds the mutex for its whole body, so it is one atomic state transformer.
\<close>

section \<open>State\<close>

record ServerMetrics =
  requests_total :: u64
  requests_success :: u64
  requests_error :: u64
  cache_hits :: u64
  cache_misses :: u64
  bytes_transferred :: u64
  http2_requests_total :: u64
  http2_bytes_transferred :: u64
  ipv6_requests_total :: u64
  ipv6_bytes_transferred :: u64
  active_connections :: i32
  http2_active_connections :: i32
  ipv6_active_connections :: i32

section \<open>Operations\<close>

definition metrics_init :: ServerMetrics where
  "metrics_init =
     \<lparr>requests_total = 0, requests_success = 0, requests_error = 0, cache_hits = 0,
      cache_misses = 0, bytes_transferred = 0, http2_requests_total = 0,
      http2_bytes_transferred = 0, ipv6_requests_total = 0, ipv6_bytes_transferred = 0,
      active_connections = 0, http2_active_connections = 0, ipv6_active_connections = 0\<rparr>"

definition metrics_increment_requests :: "ServerMetrics \<Rightarrow> ServerMetrics" where
  "metrics_increment_requests m = m\<lparr>requests_total := requests_total m + 1\<rparr>"

definition metrics_increment_success :: "ServerMetrics \<Rightarrow> ServerMetrics" where
  "metrics_increment_success m = m\<lparr>requests_success := requests_success m + 1\<rparr>"

definition metrics_increment_errors :: "ServerMetrics \<Rightarrow> ServerMetrics" where
  "metrics_increment_errors m = m\<lparr>requests_error := requests_error m + 1\<rparr>"

definition metrics_increment_cache_hits :: "ServerMetrics \<Rightarrow> ServerMetrics" where
  "metrics_increment_cache_hits m = m\<lparr>cache_hits := cache_hits m + 1\<rparr>"

definition metrics_increment_cache_misses :: "ServerMetrics \<Rightarrow> ServerMetrics" where
  "metrics_increment_cache_misses m = m\<lparr>cache_misses := cache_misses m + 1\<rparr>"

definition metrics_add_bytes :: "size_t \<Rightarrow> ServerMetrics \<Rightarrow> ServerMetrics" where
  "metrics_add_bytes bytes m = m\<lparr>bytes_transferred := bytes_transferred m + bytes\<rparr>"

definition metrics_set_active_connections :: "i32 \<Rightarrow> ServerMetrics \<Rightarrow> ServerMetrics" where
  "metrics_set_active_connections count m = m\<lparr>active_connections := count\<rparr>"

definition metrics_increment_active_connections :: "ServerMetrics \<Rightarrow> ServerMetrics" where
  "metrics_increment_active_connections m = m\<lparr>active_connections := active_connections m + 1\<rparr>"

definition metrics_decrement_active_connections :: "ServerMetrics \<Rightarrow> ServerMetrics" where
  "metrics_decrement_active_connections m =
     (if 0 < sint (active_connections m)
      then m\<lparr>active_connections := active_connections m - 1\<rparr> else m)"

definition metrics_increment_http2_requests :: "ServerMetrics \<Rightarrow> ServerMetrics" where
  "metrics_increment_http2_requests m =
     m\<lparr>http2_requests_total := http2_requests_total m + 1,
       requests_total := requests_total m + 1\<rparr>"

definition metrics_add_http2_bytes :: "size_t \<Rightarrow> ServerMetrics \<Rightarrow> ServerMetrics" where
  "metrics_add_http2_bytes bytes m =
     m\<lparr>http2_bytes_transferred := http2_bytes_transferred m + bytes,
       bytes_transferred := bytes_transferred m + bytes\<rparr>"

definition metrics_increment_http2_active_connections :: "ServerMetrics \<Rightarrow> ServerMetrics" where
  "metrics_increment_http2_active_connections m =
     m\<lparr>http2_active_connections := http2_active_connections m + 1\<rparr>"

definition metrics_decrement_http2_active_connections :: "ServerMetrics \<Rightarrow> ServerMetrics" where
  "metrics_decrement_http2_active_connections m =
     (if 0 < sint (http2_active_connections m)
      then m\<lparr>http2_active_connections := http2_active_connections m - 1\<rparr> else m)"

definition metrics_increment_ipv6_requests :: "ServerMetrics \<Rightarrow> ServerMetrics" where
  "metrics_increment_ipv6_requests m = m\<lparr>ipv6_requests_total := ipv6_requests_total m + 1\<rparr>"

definition metrics_add_ipv6_bytes :: "size_t \<Rightarrow> ServerMetrics \<Rightarrow> ServerMetrics" where
  "metrics_add_ipv6_bytes bytes m = m\<lparr>ipv6_bytes_transferred := ipv6_bytes_transferred m + bytes\<rparr>"

definition metrics_increment_ipv6_active_connections :: "ServerMetrics \<Rightarrow> ServerMetrics" where
  "metrics_increment_ipv6_active_connections m =
     m\<lparr>ipv6_active_connections := ipv6_active_connections m + 1\<rparr>"

definition metrics_decrement_ipv6_active_connections :: "ServerMetrics \<Rightarrow> ServerMetrics" where
  "metrics_decrement_ipv6_active_connections m =
     (if 0 < sint (ipv6_active_connections m)
      then m\<lparr>ipv6_active_connections := ipv6_active_connections m - 1\<rparr> else m)"

section \<open>Prometheus export\<close>

definition prom_metric :: "string \<Rightarrow> string \<Rightarrow> string \<Rightarrow> string \<Rightarrow> string" where
  "prom_metric name help kind value =
     ''# HELP '' @ name @ '' '' @ help @ [LF] @
     ''# TYPE '' @ name @ '' '' @ kind @ [LF] @
     name @ '' '' @ value @ [LF]"

definition show_u64 :: "u64 \<Rightarrow> string" where
  "show_u64 w = show_nat (unat w)"

definition show_i32 :: "i32 \<Rightarrow> string" where
  "show_i32 w = show_int (sint w)"

definition prometheus_text :: "ServerMetrics \<Rightarrow> string" where
  "prometheus_text m =
     prom_metric ''proxy_requests_total'' ''Total number of HTTP requests processed'' ''counter''
       (show_u64 (requests_total m)) @
     prom_metric ''proxy_requests_success'' ''Total number of successful requests'' ''counter''
       (show_u64 (requests_success m)) @
     prom_metric ''proxy_requests_error'' ''Total number of failed requests'' ''counter''
       (show_u64 (requests_error m)) @
     prom_metric ''proxy_cache_hits'' ''Total number of cache hits'' ''counter''
       (show_u64 (cache_hits m)) @
     prom_metric ''proxy_cache_misses'' ''Total number of cache misses'' ''counter''
       (show_u64 (cache_misses m)) @
     prom_metric ''proxy_bytes_transferred'' ''Total bytes transferred'' ''counter''
       (show_u64 (bytes_transferred m)) @
     prom_metric ''proxy_active_connections'' ''Current number of active client connections'' ''gauge''
       (show_i32 (active_connections m)) @
     prom_metric ''proxy_http2_requests_total'' ''Total number of HTTP/2 requests'' ''counter''
       (show_u64 (http2_requests_total m)) @
     prom_metric ''proxy_http2_bytes_transferred'' ''Total HTTP/2 bytes transferred'' ''counter''
       (show_u64 (http2_bytes_transferred m)) @
     prom_metric ''proxy_http2_active_connections'' ''Current number of active HTTP/2 connections'' ''gauge''
       (show_i32 (http2_active_connections m)) @
     prom_metric ''proxy_ipv6_requests_total'' ''Total number of IPv6 requests'' ''counter''
       (show_u64 (ipv6_requests_total m)) @
     prom_metric ''proxy_ipv6_bytes_transferred'' ''Total IPv6 bytes transferred'' ''counter''
       (show_u64 (ipv6_bytes_transferred m)) @
     prom_metric ''proxy_ipv6_active_connections'' ''Current number of active IPv6 connections'' ''gauge''
       (show_i32 (ipv6_active_connections m))"

definition metrics_export_prometheus :: "bool \<Rightarrow> ServerMetrics \<Rightarrow> string option" where
  \<comment> \<open>the first argument says whether the 2048-byte \<^verbatim>\<open>malloc\<close> succeeds\<close>
  "metrics_export_prometheus malloc_ok m =
     (if malloc_ok then Some (snprintf 2048 (prometheus_text m)) else None)"

section \<open>The contract of a gauge\<close>

text \<open>
  Three pairs of operations maintain a gauge the same way: the increment adds one, the
  decrement subtracts one unless the gauge is not positive. What follows from that is proved
  once.
\<close>

locale gauge =
  fixes inc :: "'s \<Rightarrow> 's"
    and dec :: "'s \<Rightarrow> 's"
    and get :: "'s \<Rightarrow> i32"
  assumes get_inc: "get (inc s) = get s + 1"
    and get_dec: "get (dec s) = (if 0 < sint (get s) then get s - 1 else get s)"
begin

fun run :: "bool list \<Rightarrow> 's \<Rightarrow> 's" where
  "run [] s = s"
| "run (True # es) s = run es (inc s)"
| "run (False # es) s = run es (dec s)"

fun bal :: "bool list \<Rightarrow> int \<Rightarrow> int" where
  "bal [] v = v"
| "bal (True # es) v = bal es (v + 1)"
| "bal (False # es) v = bal es (if 0 < v then v - 1 else v)"

lemma sint_inc: "sint (get s) < 2 ^ 31 - 1 \<Longrightarrow> sint (get (inc s)) = sint (get s) + 1"
  using sint_ge [of "get s"]
  by (simp add: get_inc sint_word_ariths signed_take_bit_int_eq_self)

lemma sint_dec: "sint (get (dec s)) = (if 0 < sint (get s) then sint (get s) - 1 else sint (get s))"
  using sint_lt [of "get s"]
  by (simp add: get_dec sint_word_ariths signed_take_bit_int_eq_self)

lemma nonneg_dec: "0 \<le> sint (get s) \<Longrightarrow> 0 \<le> sint (get (dec s))"
  by (simp add: sint_dec)

lemma dec_inc: "0 \<le> sint (get s) \<Longrightarrow> sint (get s) < 2 ^ 31 - 1 \<Longrightarrow> get (dec (inc s)) = get s"
  by (simp add: get_dec sint_inc) (simp add: get_inc)

lemma incs: "sint (get s) + int n < 2 ^ 31 \<Longrightarrow> sint (get ((inc ^^ n) s)) = sint (get s) + int n"
  by (induction n) (simp_all add: sint_inc)

lemma decs: "int n \<le> sint (get s) \<Longrightarrow> sint (get ((dec ^^ n) s)) = sint (get s) - int n"
  by (induction n) (simp_all add: sint_dec)

lemma decs_incs:
  assumes "0 \<le> sint (get s)" "sint (get s) + int n < 2 ^ 31"
  shows "get ((dec ^^ n) ((inc ^^ n) s)) = get s"
proof -
  have "sint (get ((dec ^^ n) ((inc ^^ n) s))) = sint (get s)"
    using assms decs [of n "(inc ^^ n) s"] by (simp add: incs)
  then show ?thesis by (rule signed_word_eqI)
qed

lemma run_bal:
  "0 \<le> sint (get s) \<Longrightarrow> sint (get s) + int (length es) < 2 ^ 31 \<Longrightarrow>
     sint (get (run es s)) = bal es (sint (get s)) \<and> 0 \<le> sint (get (run es s))"
proof (induction es arbitrary: s)
  case (Cons e es)
  show ?case
  proof (cases e)
    case True
    with Cons.prems have "sint (get (inc s)) = sint (get s) + 1" by (simp add: sint_inc)
    with True Cons.prems Cons.IH [of "inc s"] show ?thesis by simp
  next
    case False
    with Cons.prems Cons.IH [of "dec s"] show ?thesis by (auto simp: sint_dec)
  qed
qed simp

end

interpretation conns: gauge metrics_increment_active_connections
    metrics_decrement_active_connections active_connections
  by unfold_locales
    (simp_all add: metrics_increment_active_connections_def metrics_decrement_active_connections_def)

interpretation h2_conns: gauge metrics_increment_http2_active_connections
    metrics_decrement_http2_active_connections http2_active_connections
  by unfold_locales
    (simp_all add: metrics_increment_http2_active_connections_def
      metrics_decrement_http2_active_connections_def)

interpretation v6_conns: gauge metrics_increment_ipv6_active_connections
    metrics_decrement_ipv6_active_connections ipv6_active_connections
  by unfold_locales
    (simp_all add: metrics_increment_ipv6_active_connections_def
      metrics_decrement_ipv6_active_connections_def)

lemmas metrics_defs =
  metrics_increment_requests_def metrics_increment_success_def metrics_increment_errors_def
  metrics_increment_cache_hits_def metrics_increment_cache_misses_def metrics_add_bytes_def
  metrics_set_active_connections_def metrics_increment_active_connections_def
  metrics_decrement_active_connections_def metrics_increment_http2_requests_def
  metrics_add_http2_bytes_def metrics_increment_http2_active_connections_def
  metrics_decrement_http2_active_connections_def metrics_increment_ipv6_requests_def
  metrics_add_ipv6_bytes_def metrics_increment_ipv6_active_connections_def
  metrics_decrement_ipv6_active_connections_def

section \<open>The export buffer is large enough\<close>

lemma show_u64_length: "length (show_u64 w) \<le> 20"
proof -
  have "unat w < 2 ^ LENGTH(64)" by (rule unsigned_less)
  then have "unat w < 2 ^ 64" by simp
  also have "(2::nat) ^ 64 < 10 ^ 20" by simp
  finally show ?thesis unfolding show_u64_def by (intro show_nat_length) auto
qed

lemma show_i32_length: "length (show_i32 w) \<le> 11"
proof -
  have "- (10 ^ 10) < sint w" "sint w < 10 ^ 10"
    using sint_ge [of w] sint_lt [of w] by auto
  then show ?thesis unfolding show_i32_def using show_int_length [of 10 "sint w"] by simp
qed

lemma prom_metric_length:
  "length (prom_metric name help kind value) =
     20 + 3 * length name + length help + length kind + length value"
  by (simp add: prom_metric_def)

lemma prometheus_text_length: "length (prometheus_text m) < 2048"
  using show_u64_length [of "requests_total m"] show_u64_length [of "requests_success m"]
    show_u64_length [of "requests_error m"] show_u64_length [of "cache_hits m"]
    show_u64_length [of "cache_misses m"] show_u64_length [of "bytes_transferred m"]
    show_u64_length [of "http2_requests_total m"] show_u64_length [of "http2_bytes_transferred m"]
    show_u64_length [of "ipv6_requests_total m"] show_u64_length [of "ipv6_bytes_transferred m"]
    show_i32_length [of "active_connections m"] show_i32_length [of "http2_active_connections m"]
    show_i32_length [of "ipv6_active_connections m"]
  by (simp add: prometheus_text_def prom_metric_length)

section \<open>Properties\<close>

text \<open>
  The Prometheus export is never truncated. Whatever the values of the thirteen counters and
  gauges, the text fits the 2048-byte buffer with its terminator, so the caller gets every metric.
\<close>
theorem metrics_export_complete:
  "metrics_export_prometheus malloc_ok m = (if malloc_ok then Some (prometheus_text m) else None) \<and>
   length (prometheus_text m) + 1 \<le> 2048"
  using prometheus_text_length [of m] by (simp add: metrics_export_prometheus_def snprintf_def)

text \<open>
  The connection gauge is balanced. As long as the number of open connections stays below
  \<^verbatim>\<open>INT32_MAX\<close>, after any number of increments the same number of decrements restores the gauge,
  and in between it counts the open connections.
\<close>
theorem active_connections_balanced:
  assumes "0 \<le> sint (active_connections m)" "sint (active_connections m) + int n < 2 ^ 31"
  shows "sint (active_connections ((metrics_increment_active_connections ^^ n) m)) =
      sint (active_connections m) + int n \<and>
    active_connections ((metrics_decrement_active_connections ^^ n)
      ((metrics_increment_active_connections ^^ n) m)) = active_connections m"
  using conns.incs [OF assms(2)] conns.decs_incs [OF assms] by blast

theorem active_connections_balanced_witness:
  "active_connections (metrics_init) = 0 \<and>
   sint (active_connections ((metrics_increment_active_connections ^^ 3) (metrics_init))) = 3"
  using active_connections_balanced [of "metrics_init" 3] by (simp add: metrics_init_def)

end
