(* ===== verification/Config.thy ===== *)
theory Config
  imports Prelude
begin

text \<open>
  \<^verbatim>\<open>src/src/config.h\<close> and \<^verbatim>\<open>src/src/config.c\<close>: the configuration record, its defaults, the
  configuration file, environment and command-line readers in the order \<^verbatim>\<open>main\<close> applies them,
  the validator, the log-level names and the hot-reload merge.

  A character array of the record is the C string it holds. \<^verbatim>\<open>size_t\<close> fields are 64-bit words, so
  that the conversions from \<^verbatim>\<open>atoi\<close> and \<^verbatim>\<open>atoll\<close> results wrap as in C. The file system and
  \<^verbatim>\<open>getenv\<close> are arguments. The text \<^verbatim>\<open>config_print\<close> writes and the messages on \<^verbatim>\<open>stderr\<close> are not
  modelled.
\<close>

section \<open>The configuration record\<close>

record ProxyConfig =
  port :: int
  bind_address :: string
  enable_ipv6 :: bool
  max_clients :: int
  max_bytes :: size_t
  max_cache_size :: size_t
  max_element_size :: size_t
  enable_cache :: bool
  cache_dir :: string
  enable_auth :: bool
  auth_file :: string
  blocklist_file :: string
  allow_ip_file :: string
  deny_ip_file :: string
  url_blocklist_file :: string
  content_type_blocklist_file :: string
  block_page_file :: string
  log_file :: string
  log_level :: string
  log_format :: string
  log_rotation :: bool
  log_max_size_mb :: int
  enable_admin :: bool
  admin_port :: int
  enable_throttling :: bool
  rate_limit_rps :: int
  rate_limit_burst :: int
  bandwidth_limit_kbps :: int
  max_http1_connections :: int
  max_http2_connections :: int
  max_http3_connections :: int
  enable_https :: bool
  enable_http2 :: bool
  enable_http3 :: bool
  tls_verify_peer :: bool
  ca_bundle_file :: string
  crl_file :: string
  enable_filter :: bool

definition size_of_int :: "int \<Rightarrow> size_t" where
  "size_of_int i = word_of_int i"

definition parse_bool :: "string \<Rightarrow> bool" where
  "parse_bool v \<longleftrightarrow> strcaseeq v ''true'' \<or> v = ''1''"

definition config_init_defaults :: "ProxyConfig \<Rightarrow> ProxyConfig" where
  \<comment> \<open>\<^verbatim>\<open>enable_http3\<close> and \<^verbatim>\<open>content_type_blocklist_file\<close> keep what the memory held\<close>
  "config_init_defaults cfg =
     cfg\<lparr>port := 8080,
       bind_address := strncpy_term 256 ''0.0.0.0'',
       enable_ipv6 := False,
       max_clients := 10,
       max_bytes := 4096,
       max_cache_size := 200 * 1024 * 1024,
       max_element_size := 10 * 1024,
       max_http1_connections := 50,
       max_http2_connections := 50,
       max_http3_connections := 0,
       enable_cache := True,
       cache_dir := [],
       enable_auth := False,
       auth_file := [],
       blocklist_file := [],
       allow_ip_file := [],
       deny_ip_file := [],
       url_blocklist_file := [],
       block_page_file := [],
       log_file := strncpy_term 512 ''proxy.log'',
       log_level := strncpy_term 32 ''INFO'',
       log_format := strncpy_term 32 ''SQUID'',
       log_rotation := False,
       log_max_size_mb := 10,
       enable_admin := True,
       admin_port := 8081,
       enable_throttling := False,
       rate_limit_rps := 100,
       rate_limit_burst := 20,
       bandwidth_limit_kbps := 1000,
       enable_https := True,
       tls_verify_peer := True,
       ca_bundle_file := [],
       crl_file := [],
       enable_http2 := False,
       enable_filter := False\<rparr>"

section \<open>The configuration file\<close>

definition trim_whitespace :: "string \<Rightarrow> string" where
  \<comment> \<open>the advanced pointer is local: only trailing space is cut, and nothing from a blank string\<close>
  "trim_whitespace str = (if dropWhile isspace str = [] then str else rtrim str)"

definition parse_config_line :: "string \<Rightarrow> nat \<Rightarrow> nat \<Rightarrow> (string \<times> string) option" where
  "parse_config_line line key_size value_size =
     (case strchr line (CHR ''='') of
        None \<Rightarrow> None
      | Some key_len \<Rightarrow>
          if key_len \<ge> key_size then None
          else
            (let key = trim_whitespace (take key_len line);
                 val_start = dropWhile isspace (drop (key_len + 1) line);
                 val_len = length val_start
             in if val_len \<ge> value_size then None
                else Some (key, trim_whitespace val_start)))"

definition config_set_key :: "string \<Rightarrow> string \<Rightarrow> ProxyConfig \<Rightarrow> ProxyConfig" where
  "config_set_key key value cfg =
    (if key = ''port'' then cfg\<lparr>port := atoi value\<rparr>
     else if key = ''bind_address'' then cfg\<lparr>bind_address := strncpy_term 256 value\<rparr>
     else if key = ''enable_ipv6'' then cfg\<lparr>enable_ipv6 := parse_bool value\<rparr>
     else if key = ''max_clients'' then cfg\<lparr>max_clients := atoi value\<rparr>
     else if key = ''max_bytes'' then cfg\<lparr>max_bytes := size_of_int (atoi value)\<rparr>
     else if key = ''max_cache_size'' then cfg\<lparr>max_cache_size := size_of_int (atoll value)\<rparr>
     else if key = ''max_element_size'' then cfg\<lparr>max_element_size := size_of_int (atoi value)\<rparr>
     else if key = ''enable_cache'' then cfg\<lparr>enable_cache := parse_bool value\<rparr>
     else if key = ''cache_dir'' then cfg\<lparr>cache_dir := strncpy_term 512 value\<rparr>
     else if key = ''enable_auth'' then cfg\<lparr>enable_auth := parse_bool value\<rparr>
     else if key = ''auth_file'' then cfg\<lparr>auth_file := strncpy_term 512 value\<rparr>
     else if key = ''blocklist_file'' then cfg\<lparr>blocklist_file := strncpy_term 512 value\<rparr>
     else if key = ''allow_ip_file'' then cfg\<lparr>allow_ip_file := strncpy_term 512 value\<rparr>
     else if key = ''deny_ip_file'' then cfg\<lparr>deny_ip_file := strncpy_term 512 value\<rparr>
     else if key = ''url_blocklist_file'' then cfg\<lparr>url_blocklist_file := strncpy_term 512 value\<rparr>
     else if key = ''block_page_file'' then cfg\<lparr>block_page_file := strncpy_term 512 value\<rparr>
     else if key = ''log_file'' then cfg\<lparr>log_file := strncpy_term 512 value\<rparr>
     else if key = ''log_level'' then cfg\<lparr>log_level := strncpy_term 32 value\<rparr>
     else if key = ''log_format'' then cfg\<lparr>log_format := strncpy_term 32 value\<rparr>
     else if key = ''enable_admin'' then cfg\<lparr>enable_admin := parse_bool value\<rparr>
     else if key = ''admin_port'' then cfg\<lparr>admin_port := atoi value\<rparr>
     else if key = ''log_rotation'' then cfg\<lparr>log_rotation := parse_bool value\<rparr>
     else if key = ''log_max_size_mb'' then cfg\<lparr>log_max_size_mb := atoi value\<rparr>
     else if key = ''max_http1_connections'' then cfg\<lparr>max_http1_connections := atoi value\<rparr>
     else if key = ''max_http2_connections'' then cfg\<lparr>max_http2_connections := atoi value\<rparr>
     else if key = ''max_http3_connections'' then cfg\<lparr>max_http3_connections := atoi value\<rparr>
     else if key = ''enable_throttling'' then cfg\<lparr>enable_throttling := parse_bool value\<rparr>
     else if key = ''rate_limit_rps'' then cfg\<lparr>rate_limit_rps := atoi value\<rparr>
     else if key = ''rate_limit_burst'' then cfg\<lparr>rate_limit_burst := atoi value\<rparr>
     else if key = ''bandwidth_limit_kbps'' then cfg\<lparr>bandwidth_limit_kbps := atoi value\<rparr>
     else if key = ''enable_https'' then cfg\<lparr>enable_https := parse_bool value\<rparr>
     else if key = ''enable_http2'' then cfg\<lparr>enable_http2 := parse_bool value\<rparr>
     else if key = ''enable_http3'' then cfg\<lparr>enable_http3 := parse_bool value\<rparr>
     else if key = ''tls_verify_peer'' then cfg\<lparr>tls_verify_peer := parse_bool value\<rparr>
     else if key = ''ca_bundle_file'' then cfg\<lparr>ca_bundle_file := strncpy_term 512 value\<rparr>
     else if key = ''crl_file'' then cfg\<lparr>crl_file := strncpy_term 512 value\<rparr>
     else if key = ''enable_filter'' then cfg\<lparr>enable_filter := parse_bool value\<rparr>
     else cfg)"

definition config_apply_line :: "string \<Rightarrow> ProxyConfig \<Rightarrow> ProxyConfig" where
  "config_apply_line line cfg =
     (let trimmed = dropWhile isspace line
      in if trimmed = [] \<or> hd trimmed = CHR ''#'' \<or> hd trimmed = CHR '';'' then cfg
         else (case parse_config_line trimmed 256 512 of
                 Some (key, value) \<Rightarrow> config_set_key key value cfg
               | None \<Rightarrow> cfg))"

definition config_load_file ::
  "file_system \<Rightarrow> bool \<Rightarrow> ProxyConfig \<Rightarrow> string option \<Rightarrow> int \<times> ProxyConfig" where
  \<comment> \<open>the second argument says whether a failed \<^verbatim>\<open>fopen\<close> set \<^verbatim>\<open>errno\<close> to \<^verbatim>\<open>ENOENT\<close>\<close>
  "config_load_file fs enoent cfg path =
     (case path of
        None \<Rightarrow> (-1, cfg)
      | Some p \<Rightarrow>
          (case fs p of
             None \<Rightarrow> (if enoent then 0 else -1, cfg)
           | Some content \<Rightarrow> (0, fold config_apply_line (fgets_lines 1024 content) cfg)))"

section \<open>Environment and command line\<close>

type_synonym config_update = "string \<Rightarrow> ProxyConfig \<Rightarrow> ProxyConfig"

definition env_override ::
  "(string \<Rightarrow> string option) \<Rightarrow> string \<times> config_update \<Rightarrow> ProxyConfig \<Rightarrow> ProxyConfig" where
  "env_override getenv nu cfg =
     (case getenv (fst nu) of None \<Rightarrow> cfg | Some env_val \<Rightarrow> snd nu env_val cfg)"

definition env_overrides :: "(string \<times> config_update) list" where
  \<comment> \<open>the variables in the order the function reads them, each with its assignment\<close>
  "env_overrides =
     [(''PROXY_PORT'', \<lambda>v cfg. cfg\<lparr>port := atoi v\<rparr>),
      (''PROXY_BIND_ADDRESS'', \<lambda>v cfg. cfg\<lparr>bind_address := strncpy_term 256 v\<rparr>),
      (''PROXY_ENABLE_IPV6'', \<lambda>v cfg. cfg\<lparr>enable_ipv6 := parse_bool v\<rparr>),
      (''PROXY_MAX_CLIENTS'', \<lambda>v cfg. cfg\<lparr>max_clients := atoi v\<rparr>),
      (''PROXY_MAX_BYTES'', \<lambda>v cfg. cfg\<lparr>max_bytes := size_of_int (atoi v)\<rparr>),
      (''PROXY_MAX_HTTP1_CONNECTIONS'', \<lambda>v cfg. cfg\<lparr>max_http1_connections := atoi v\<rparr>),
      (''PROXY_MAX_HTTP2_CONNECTIONS'', \<lambda>v cfg. cfg\<lparr>max_http2_connections := atoi v\<rparr>),
      (''PROXY_MAX_HTTP3_CONNECTIONS'', \<lambda>v cfg. cfg\<lparr>max_http3_connections := atoi v\<rparr>),
      (''PROXY_MAX_CACHE_SIZE'', \<lambda>v cfg. cfg\<lparr>max_cache_size := size_of_int (atoll v)\<rparr>),
      (''PROXY_MAX_ELEMENT_SIZE'', \<lambda>v cfg. cfg\<lparr>max_element_size := size_of_int (atoi v)\<rparr>),
      (''PROXY_ENABLE_CACHE'', \<lambda>v cfg. cfg\<lparr>enable_cache := parse_bool v\<rparr>),
      (''PROXY_CACHE_DIR'', \<lambda>v cfg. cfg\<lparr>cache_dir := strncpy_term 512 v\<rparr>),
      (''PROXY_ENABLE_AUTH'', \<lambda>v cfg. cfg\<lparr>enable_auth := parse_bool v\<rparr>),
      (''PROXY_AUTH_FILE'', \<lambda>v cfg. cfg\<lparr>auth_file := strncpy_term 512 v\<rparr>),
      (''PROXY_BLOCKLIST_FILE'', \<lambda>v cfg. cfg\<lparr>blocklist_file := strncpy_term 512 v\<rparr>),
      (''PROXY_LOG_FILE'', \<lambda>v cfg. cfg\<lparr>log_file := strncpy_term 512 v\<rparr>),
      (''PROXY_LOG_LEVEL'', \<lambda>v cfg. cfg\<lparr>log_level := strncpy_term 32 v\<rparr>),
      (''PROXY_LOG_ROTATION'', \<lambda>v cfg. cfg\<lparr>log_rotation := parse_bool v\<rparr>),
      (''PROXY_LOG_MAX_SIZE_MB'', \<lambda>v cfg. cfg\<lparr>log_max_size_mb := atoi v\<rparr>),
      (''PROXY_ENABLE_THROTTLING'', \<lambda>v cfg. cfg\<lparr>enable_throttling := parse_bool v\<rparr>),
      (''PROXY_RATE_LIMIT_RPS'', \<lambda>v cfg. cfg\<lparr>rate_limit_rps := atoi v\<rparr>),
      (''PROXY_RATE_LIMIT_BURST'', \<lambda>v cfg. cfg\<lparr>rate_limit_burst := atoi v\<rparr>),
      (''PROXY_BANDWIDTH_LIMIT_KBPS'', \<lambda>v cfg. cfg\<lparr>bandwidth_limit_kbps := atoi v\<rparr>),
      (''PROXY_ENABLE_HTTPS'', \<lambda>v cfg. cfg\<lparr>enable_https := parse_bool v\<rparr>),
      (''PROXY_ENABLE_HTTP2'', \<lambda>v cfg. cfg\<lparr>enable_http2 := parse_bool v\<rparr>),
      (''PROXY_ENABLE_HTTP3'', \<lambda>v cfg. cfg\<lparr>enable_http3 := parse_bool v\<rparr>),
      (''PROXY_TLS_VERIFY_PEER'', \<lambda>v cfg. cfg\<lparr>tls_verify_peer := parse_bool v\<rparr>),
      (''PROXY_CA_BUNDLE_FILE'', \<lambda>v cfg. cfg\<lparr>ca_bundle_file := strncpy_term 512 v\<rparr>),
      (''PROXY_CRL_FILE'', \<lambda>v cfg. cfg\<lparr>crl_file := strncpy_term 512 v\<rparr>),
      (''PROXY_ENABLE_FILTER'', \<lambda>v cfg. cfg\<lparr>enable_filter := parse_bool v\<rparr>)]"

definition config_apply_env :: "(string \<Rightarrow> string option) \<Rightarrow> ProxyConfig \<Rightarrow> ProxyConfig" where
  "config_apply_env getenv cfg = fold (env_override getenv) env_overrides cfg"

definition config_apply_flag :: "string \<Rightarrow> ProxyConfig \<Rightarrow> ProxyConfig option" where
  "config_apply_flag arg cfg =
    (if arg = ''help'' \<or> arg = ''h'' then None else
     if arg = ''enable-cache'' then Some (cfg\<lparr>enable_cache := True\<rparr>)
     else if arg = ''enable-auth'' then Some (cfg\<lparr>enable_auth := True\<rparr>)
     else if arg = ''enable-ipv6'' then Some (cfg\<lparr>enable_ipv6 := True\<rparr>)
     else if arg = ''enable-throttling'' then Some (cfg\<lparr>enable_throttling := True\<rparr>)
     else if arg = ''enable-https'' then Some (cfg\<lparr>enable_https := True\<rparr>)
     else if arg = ''enable-http2'' then Some (cfg\<lparr>enable_http2 := True\<rparr>)
     else if arg = ''enable-http3'' then Some (cfg\<lparr>enable_http3 := True\<rparr>)
     else if arg = ''enable-filter'' then Some (cfg\<lparr>enable_filter := True\<rparr>)
     else None)"

definition config_apply_option :: "string \<Rightarrow> string \<Rightarrow> ProxyConfig \<Rightarrow> ProxyConfig option" where
  "config_apply_option key value cfg =
    (if key = ''port'' then Some (cfg\<lparr>port := atoi value\<rparr>)
     else if key = ''bind-address'' then Some (cfg\<lparr>bind_address := strncpy_term 256 value\<rparr>)
     else if key = ''max-clients'' then Some (cfg\<lparr>max_clients := atoi value\<rparr>)
     else if key = ''max-bytes'' then Some (cfg\<lparr>max_bytes := size_of_int (atoi value)\<rparr>)
     else if key = ''max-http1-connections'' then Some (cfg\<lparr>max_http1_connections := atoi value\<rparr>)
     else if key = ''max-http2-connections'' then Some (cfg\<lparr>max_http2_connections := atoi value\<rparr>)
     else if key = ''max-http3-connections'' then Some (cfg\<lparr>max_http3_connections := atoi value\<rparr>)
     else if key = ''cache-size'' then Some (cfg\<lparr>max_cache_size := size_of_int (atoll value)\<rparr>)
     else if key = ''element-size'' then Some (cfg\<lparr>max_element_size := size_of_int (atoi value)\<rparr>)
     else if key = ''cache-dir'' then Some (cfg\<lparr>cache_dir := strncpy_term 512 value\<rparr>)
     else if key = ''auth-file'' then Some (cfg\<lparr>auth_file := strncpy_term 512 value\<rparr>)
     else if key = ''blocklist-file'' then Some (cfg\<lparr>blocklist_file := strncpy_term 512 value\<rparr>)
     else if key = ''allow-ip-file'' then Some (cfg\<lparr>allow_ip_file := strncpy_term 512 value\<rparr>)
     else if key = ''deny-ip-file'' then Some (cfg\<lparr>deny_ip_file := strncpy_term 512 value\<rparr>)
     else if key = ''log-file'' then Some (cfg\<lparr>log_file := strncpy_term 512 value\<rparr>)
     else if key = ''log-level'' then Some (cfg\<lparr>log_level := strncpy_term 32 value\<rparr>)
     else if key = ''rate-limit-rps'' then Some (cfg\<lparr>rate_limit_rps := atoi value\<rparr>)
     else if key = ''rate-limit-burst'' then Some (cfg\<lparr>rate_limit_burst := atoi value\<rparr>)
     else if key = ''bandwidth-limit'' then Some (cfg\<lparr>bandwidth_limit_kbps := atoi value\<rparr>)
     else if key = ''tls-verify-peer'' then Some (cfg\<lparr>tls_verify_peer := parse_bool value\<rparr>)
     else if key = ''ca-bundle-file'' then Some (cfg\<lparr>ca_bundle_file := strncpy_term 512 value\<rparr>)
     else if key = ''crl-file'' then Some (cfg\<lparr>crl_file := strncpy_term 512 value\<rparr>)
     else if key = ''config'' then Some cfg
     else None)"

definition config_apply_arg :: "string \<Rightarrow> ProxyConfig \<Rightarrow> ProxyConfig option" where
  "config_apply_arg a cfg =
     (if prefix ''--'' a
      then (let arg = drop 2 a
            in case strchr arg (CHR ''='') of
                 None \<Rightarrow> config_apply_flag arg cfg
               | Some eq \<Rightarrow> config_apply_option (take eq arg) (drop (eq + 1) arg) cfg)
      else None)"

fun config_args_loop :: "string list \<Rightarrow> ProxyConfig \<Rightarrow> int \<times> ProxyConfig" where
  "config_args_loop [] cfg = (0, cfg)"
| "config_args_loop (a # as) cfg =
     (case config_apply_arg a cfg of
        None \<Rightarrow> (-1, cfg)
      | Some cfg' \<Rightarrow> config_args_loop as cfg')"

definition config_apply_args :: "ProxyConfig \<Rightarrow> string list \<Rightarrow> int \<times> ProxyConfig" where
  \<comment> \<open>\<^verbatim>\<open>argv\<close> with the program name first\<close>
  "config_apply_args cfg argv = config_args_loop (drop 1 argv) cfg"

section \<open>Log levels and validation\<close>

definition log_level_from_string :: "string option \<Rightarrow> int" where
  "log_level_from_string level =
     (case level of
        None \<Rightarrow> 1
      | Some l \<Rightarrow>
          if strcaseeq l ''DEBUG'' then 0
          else if strcaseeq l ''INFO'' then 1
          else if strcaseeq l ''WARN'' then 2
          else if strcaseeq l ''ERROR'' then 3
          else -1)"

definition log_level_to_string :: "int \<Rightarrow> string" where
  "log_level_to_string level =
     (if level = 0 then ''DEBUG'' else if level = 1 then ''INFO'' else if level = 2 then ''WARN''
      else if level = 3 then ''ERROR'' else ''UNKNOWN'')"

definition config_validate :: "ProxyConfig \<Rightarrow> int" where
  "config_validate cfg =
     (if port cfg < 1 \<or> port cfg > 65535 then -1
      else if length (bind_address cfg) = 0 then -1
      else if max_clients cfg < 1 then -1
      else if max_bytes cfg < 1 then -1
      else if max_cache_size cfg < 0 then -1
      else if max_element_size cfg < 1 then -1
      else if length (cache_dir cfg) > 0 \<and> length (cache_dir cfg) \<ge> 512 then -1
      else if enable_auth cfg \<and> length (auth_file cfg) = 0 then -1
      else if enable_auth cfg \<and> length (auth_file cfg) \<ge> 512 then -1
      else if length (blocklist_file cfg) \<ge> 512 then -1
      else if length (log_file cfg) = 0 then -1
      else if length (log_file cfg) \<ge> 512 then -1
      else if log_level_from_string (Some (log_level cfg)) < 0 then -1
      else if log_max_size_mb cfg < 1 then -1
      else if enable_throttling cfg \<and> rate_limit_rps cfg < 1 then -1
      else if enable_throttling cfg \<and> rate_limit_burst cfg < 1 then -1
      else if enable_throttling cfg \<and> bandwidth_limit_kbps cfg < 1 then -1
      else 0)"

section \<open>Hot reload\<close>

datatype LogLevelEnum =
  LOG_LEVEL_DEBUG | LOG_LEVEL_INFO | LOG_LEVEL_WARN | LOG_LEVEL_ERROR | LOG_LEVEL_CRITICAL

definition runtime_log_level :: "string \<Rightarrow> LogLevelEnum" where
  \<comment> \<open>the \<^verbatim>\<open>strcmp\<close> chain that \<^verbatim>\<open>hot_reload_thread\<close> and \<^verbatim>\<open>main\<close> share\<close>
  "runtime_log_level l =
     (if l = ''DEBUG'' then LOG_LEVEL_DEBUG
      else if l = ''WARN'' then LOG_LEVEL_WARN
      else if l = ''ERROR'' then LOG_LEVEL_ERROR
      else if l = ''CRITICAL'' then LOG_LEVEL_CRITICAL
      else LOG_LEVEL_INFO)"

record watch_event =
  ev_modified :: bool \<comment> \<open>\<^verbatim>\<open>mask & (IN_MODIFY | IN_CLOSE_WRITE)\<close>\<close>
  ev_ignored :: bool \<comment> \<open>\<^verbatim>\<open>mask & IN_IGNORED\<close>\<close>

definition hot_reload_wanted :: "watch_event list \<Rightarrow> bool \<Rightarrow> bool" where
  \<comment> \<open>the second argument says whether re-adding a lost watch succeeds\<close>
  "hot_reload_wanted evs readd_ok =
     (let should_reload = list_ex ev_modified evs;
          watch_removed = list_ex ev_ignored evs
      in if watch_removed \<and> readd_ok then True else should_reload)"

definition hot_reload_merge :: "ProxyConfig \<Rightarrow> ProxyConfig \<Rightarrow> ProxyConfig" where
  "hot_reload_merge g parsed =
     g\<lparr>log_level := log_level parsed, max_cache_size := max_cache_size parsed,
       max_element_size := max_element_size parsed, enable_cache := enable_cache parsed,
       enable_throttling := enable_throttling parsed, rate_limit_rps := rate_limit_rps parsed,
       rate_limit_burst := rate_limit_burst parsed,
       bandwidth_limit_kbps := bandwidth_limit_kbps parsed,
       enable_filter := enable_filter parsed, blocklist_file := blocklist_file parsed,
       allow_ip_file := allow_ip_file parsed, deny_ip_file := deny_ip_file parsed,
       url_blocklist_file := url_blocklist_file parsed,
       block_page_file := block_page_file parsed, log_file := log_file parsed\<rparr>"

definition hot_reload_config ::
  "file_system \<Rightarrow> bool \<Rightarrow> (string \<Rightarrow> string option) \<Rightarrow> string \<Rightarrow> ProxyConfig \<Rightarrow> ProxyConfig \<Rightarrow>
   ProxyConfig \<times> LogLevelEnum option" where
  \<comment> \<open>one reload: \<^verbatim>\<open>junk\<close> is what the stack held where \<^verbatim>\<open>parsed_cfg\<close> is declared, \<^verbatim>\<open>g\<close> is \<^verbatim>\<open>g_config\<close>;
      the level is what \<^verbatim>\<open>logger_set_level\<close> receives\<close>
  "hot_reload_config fs enoent getenv path junk g =
     (case config_load_file fs enoent (config_init_defaults junk) (Some path) of
        (ret, parsed) \<Rightarrow>
          if ret = 0
          then (let g' = hot_reload_merge g (config_apply_env getenv parsed)
                in (g', Some (runtime_log_level (log_level g'))))
          else (g, None))"

section \<open>The sequence of readers in main\<close>

definition config_choose_file ::
  "(string \<Rightarrow> string option) \<Rightarrow> bool \<Rightarrow> string list \<Rightarrow> string" where
  \<comment> \<open>the second argument is \<^verbatim>\<open>access("/etc/proxy/proxy.conf", F_OK) == 0\<close>\<close>
  "config_choose_file getenv etc_ok argv =
     (case find (prefix ''--config='') (drop 1 argv) of
        Some a \<Rightarrow> drop 9 a
      | None \<Rightarrow>
          (case getenv ''PROXY_CONFIG_FILE'' of
             Some f \<Rightarrow> f
           | None \<Rightarrow> if etc_ok then ''/etc/proxy/proxy.conf'' else ''proxy.conf''))"

definition config_startup ::
  "file_system \<Rightarrow> bool \<Rightarrow> (string \<Rightarrow> string option) \<Rightarrow> bool \<Rightarrow> string list \<Rightarrow> ProxyConfig \<Rightarrow>
   ProxyConfig option" where
  \<comment> \<open>what \<^verbatim>\<open>main\<close> runs with, \<^verbatim>\<open>None\<close> where it exits; \<^verbatim>\<open>zero\<close> is the static \<^verbatim>\<open>g_config\<close>\<close>
  "config_startup fs enoent getenv etc_ok argv zero =
     (let path = config_choose_file getenv etc_ok argv;
          g = snd (config_load_file fs enoent (config_init_defaults zero) (Some path));
          g = config_apply_env getenv g;
          positional = (length argv = 2 \<and> argv ! 1 \<noteq> [] \<and> isdigit (hd (argv ! 1)));
          (ret, g) = (if positional then (0, g\<lparr>port := atoi (argv ! 1)\<rparr>) else config_apply_args g argv)
      in if ret \<noteq> 0 then None else if config_validate g < 0 then None else Some g)"

section \<open>Well-formed configurations\<close>

definition config_wf :: "ProxyConfig \<Rightarrow> bool" where
  \<comment> \<open>every array holds a string that fits it with its terminator\<close>
  "config_wf cfg \<longleftrightarrow>
     length (bind_address cfg) < 256 \<and>
     length (cache_dir cfg) < 512 \<and>
     length (auth_file cfg) < 512 \<and>
     length (blocklist_file cfg) < 512 \<and>
     length (allow_ip_file cfg) < 512 \<and>
     length (deny_ip_file cfg) < 512 \<and>
     length (url_blocklist_file cfg) < 512 \<and>
     length (content_type_blocklist_file cfg) < 512 \<and>
     length (block_page_file cfg) < 512 \<and>
     length (log_file cfg) < 512 \<and>
     length (log_level cfg) < 32 \<and>
     length (log_format cfg) < 32 \<and>
     length (ca_bundle_file cfg) < 512 \<and>
     length (crl_file cfg) < 512"

definition zero_config :: ProxyConfig where
  "zero_config =
     \<lparr>port = 0, bind_address = [], enable_ipv6 = False, max_clients = 0, max_bytes = 0,
      max_cache_size = 0, max_element_size = 0, enable_cache = False, cache_dir = [],
      enable_auth = False, auth_file = [], blocklist_file = [], allow_ip_file = [],
      deny_ip_file = [], url_blocklist_file = [], content_type_blocklist_file = [],
      block_page_file = [], log_file = [], log_level = [], log_format = [], log_rotation = False,
      log_max_size_mb = 0, enable_admin = False, admin_port = 0, enable_throttling = False,
      rate_limit_rps = 0, rate_limit_burst = 0, bandwidth_limit_kbps = 0,
      max_http1_connections = 0, max_http2_connections = 0, max_http3_connections = 0,
      enable_https = False, enable_http2 = False, enable_http3 = False, tls_verify_peer = False,
      ca_bundle_file = [], crl_file = [], enable_filter = False\<rparr>"

end
