(* ===== verification/Config_Laws.thy ===== *)
theory Config_Laws
  imports Config
begin

text \<open>
  The laws of the configuration component: every reader keeps every string inside its array, the
  validator accepts exactly the configurations it describes, the readers override each other in
  the documented order, and a hot reload touches the reloadable fields only.
\<close>

section \<open>Every reader keeps the arrays within their bounds\<close>

lemma if_bothI: "Q x \<Longrightarrow> Q y \<Longrightarrow> Q (if b then x else y)"
  by simp

lemma pred_optionD: "pred_option P x \<Longrightarrow> x = Some y \<Longrightarrow> P y"
  by simp

lemma config_startup_cases:
  assumes "config_startup fs enoent getenv etc_ok argv zero = Some g"
  obtains g0 where "g0 = config_apply_env getenv (snd (config_load_file fs enoent (config_init_defaults zero)
        (Some (config_choose_file getenv etc_ok argv))))"
    and "g = g0\<lparr>port := port g\<rparr> \<or> config_apply_args g0 argv = (0, g)"
    and "\<not> config_validate g < 0"
  using assms
  by (auto simp: config_startup_def Let_def split: prod.splits if_splits)

text \<open>
  What every single setting keeps, every reader keeps: the contract of a predicate on
  configurations that no assignment of the file, environment or argument readers breaks.
\<close>

locale config_keeps =
  fixes P :: "ProxyConfig \<Rightarrow> bool"
  assumes set_key: "P cfg \<Longrightarrow> P (config_set_key key v cfg)"
    and env_update: "P cfg \<Longrightarrow> nu \<in> set env_overrides \<Longrightarrow> P (snd nu v cfg)"
    and flag: "P cfg \<Longrightarrow> pred_option P (config_apply_flag arg cfg)"
    and option: "P cfg \<Longrightarrow> pred_option P (config_apply_option key v cfg)"
    and set_port: "P cfg \<Longrightarrow> P (cfg\<lparr>port := p\<rparr>)"
begin

lemma line: "P cfg \<Longrightarrow> P (config_apply_line l cfg)"
  by (auto simp: config_apply_line_def Let_def set_key split: option.split)

lemma lines: "P cfg \<Longrightarrow> P (fold config_apply_line ls cfg)"
  by (induction ls arbitrary: cfg) (auto simp: line)

lemma load_file: "P cfg \<Longrightarrow> P (snd (config_load_file fs enoent cfg file))"
  by (auto simp: config_load_file_def lines split: option.split)

lemma env_fold: "P cfg \<Longrightarrow> set nus \<subseteq> set env_overrides \<Longrightarrow> P (fold (env_override getenv) nus cfg)"
  by (induction nus arbitrary: cfg) (auto simp: env_override_def env_update split: option.split)

lemma apply_env: "P cfg \<Longrightarrow> P (config_apply_env getenv cfg)"
  unfolding config_apply_env_def by (rule env_fold) auto

lemma arg: "P cfg \<Longrightarrow> config_apply_arg a cfg = Some cfg' \<Longrightarrow> P cfg'"
  by (auto simp: config_apply_arg_def Let_def split: if_splits option.splits
      dest: pred_optionD [OF flag] pred_optionD [OF option])

lemma args_loop: "P cfg \<Longrightarrow> P (snd (config_args_loop as cfg))"
  by (induction as arbitrary: cfg) (auto simp: arg split: option.split)

lemma startup:
  assumes "config_startup fs enoent getenv etc_ok argv zero = Some g" "P (config_init_defaults zero)"
  shows "P g"
proof -
  from assms(1) obtain g0 where g0: "g0 = config_apply_env getenv (snd (config_load_file fs enoent
        (config_init_defaults zero) (Some (config_choose_file getenv etc_ok argv))))"
    and g: "g = g0\<lparr>port := port g\<rparr> \<or> config_apply_args g0 argv = (0, g)"
    by (rule config_startup_cases)
  have p: "P g0" unfolding g0 by (intro apply_env load_file assms(2))
  from g show ?thesis
  proof
    assume "g = g0\<lparr>port := port g\<rparr>"
    then show ?thesis using set_port [OF p, of "port g"] by simp
  next
    assume "config_apply_args g0 argv = (0, g)"
    then show ?thesis using args_loop [OF p, of "drop 1 argv"] by (simp add: config_apply_args_def)
  qed
qed

end

interpretation bounds: config_keeps config_wf
proof
  fix cfg :: ProxyConfig and key v arg nu p
  assume wf: "config_wf cfg"
  show "config_wf (config_set_key key v cfg)"
    unfolding config_set_key_def
    by (intro if_bothI [of config_wf]; use wf in \<open>simp add: config_wf_def strncpy_term_def min_less_iff_disj\<close>)
  show "pred_option config_wf (config_apply_flag arg cfg)"
    unfolding config_apply_flag_def
    by (intro if_bothI [of "pred_option config_wf"]; use wf in \<open>simp add: config_wf_def\<close>)
  show "pred_option config_wf (config_apply_option key v cfg)"
    unfolding config_apply_option_def
    by (intro if_bothI [of "pred_option config_wf"];
        use wf in \<open>simp add: config_wf_def strncpy_term_def min_less_iff_disj\<close>)
  show "config_wf (cfg\<lparr>port := p\<rparr>)" using wf by (simp add: config_wf_def)
  have "list_all (\<lambda>nu. config_wf (snd nu v cfg)) env_overrides"
    unfolding env_overrides_def list.pred_inject
    by (intro conjI; use wf in \<open>simp add: config_wf_def strncpy_term_def min_less_iff_disj\<close>)
  then show "config_wf (snd nu v cfg)" if "nu \<in> set env_overrides"
    using that by (simp add: list_all_iff)
qed

text \<open>No reader knows the key of the content type list.\<close>

interpretation no_types: config_keeps "\<lambda>cfg. content_type_blocklist_file cfg = f" for f
proof
  fix cfg :: ProxyConfig and key v arg nu p
  let ?P = "\<lambda>cfg :: ProxyConfig. content_type_blocklist_file cfg = f"
  assume wf: "?P cfg"
  show "?P (config_set_key key v cfg)"
    unfolding config_set_key_def by (intro if_bothI [of ?P]; use wf in simp)
  show "pred_option ?P (config_apply_flag arg cfg)"
    unfolding config_apply_flag_def by (intro if_bothI [of "pred_option ?P"]; use wf in simp)
  show "pred_option ?P (config_apply_option key v cfg)"
    unfolding config_apply_option_def by (intro if_bothI [of "pred_option ?P"]; use wf in simp)
  show "?P (cfg\<lparr>port := p\<rparr>)" using wf by simp
  show "?P (snd nu v cfg)" if "nu \<in> set env_overrides"
    using that wf unfolding env_overrides_def by auto
qed

lemma config_wf_defaults:
  "length (content_type_blocklist_file cfg) < 512 \<Longrightarrow> config_wf (config_init_defaults cfg)"
  by (simp add: config_wf_def config_init_defaults_def strncpy_term_def)

section \<open>Validation\<close>

lemma config_validate_cases: "config_validate cfg = 0 \<or> config_validate cfg = -1"
  by (simp add: config_validate_def)

lemma size_lt_1_iff: "(w :: size_t) < 1 \<longleftrightarrow> w = 0"
  by (simp add: word_less_1)

text \<open>A configuration whose strings fit their arrays is accepted by \<^verbatim>\<open>config_validate\<close> exactly when
  the port is a port number, the bind address and log file are set, the client, log-size and (with
  throttling on) rate limits are at least one, the two unsigned size limits are not zero, the log
  level is one of the four names and an enabled authentication names its file. The path-length and
  the "cannot be negative" checks of the code never decide.\<close>

theorem config_validate_iff:
  assumes "config_wf cfg"
  shows "config_validate cfg = 0 \<longleftrightarrow>
     1 \<le> port cfg \<and> port cfg \<le> 65535 \<and> bind_address cfg \<noteq> [] \<and> 1 \<le> max_clients cfg \<and>
     max_bytes cfg \<noteq> 0 \<and> max_element_size cfg \<noteq> 0 \<and> (enable_auth cfg \<longrightarrow> auth_file cfg \<noteq> []) \<and>
     log_file cfg \<noteq> [] \<and> 0 \<le> log_level_from_string (Some (log_level cfg)) \<and>
     1 \<le> log_max_size_mb cfg \<and>
     (enable_throttling cfg \<longrightarrow>
        1 \<le> rate_limit_rps cfg \<and> 1 \<le> rate_limit_burst cfg \<and> 1 \<le> bandwidth_limit_kbps cfg)"
  using assms by (auto simp: config_validate_def config_wf_def size_lt_1_iff)

theorem config_validate_iff_witness:
  "config_wf (config_init_defaults zero_config) \<and> config_validate (config_init_defaults zero_config) = 0"
proof -
  have wf: "config_wf (config_init_defaults zero_config)"
    by (rule config_wf_defaults) (simp add: zero_config_def)
  show ?thesis
    using config_validate_iff [OF wf] wf
    by (simp add: config_init_defaults_def zero_config_def strncpy_term_def log_level_from_string_def
        strcaseeq_def tolower_def code_def)
qed

text \<open>C23: the configuration \<^verbatim>\<open>main\<close> starts the proxy with (defaults, file, environment, command line
  and positional port applied in that order) has every string inside its array and passes
  validation, whatever the file, the environment and the arguments contain.\<close>

theorem config_startup_valid:
  assumes "config_startup fs enoent getenv etc_ok argv zero = Some g"
    and "config_wf zero"
  shows "config_wf g \<and> config_validate g = 0"
proof -
  have "config_wf (config_init_defaults zero)" using assms(2) by (intro config_wf_defaults) (simp add: config_wf_def)
  with bounds.startup [OF assms(1)] have "config_wf g" .
  moreover have "\<not> config_validate g < 0" using assms(1) by (rule config_startup_cases)
  then have "config_validate g = 0" using config_validate_cases [of g] by auto
  ultimately show ?thesis by simp
qed

theorem config_startup_valid_witness:
  "\<exists>g. config_startup (\<lambda>_. None) True (\<lambda>_. None) False [''proxy'', ''9090''] zero_config = Some g \<and>
     port g = 9090 \<and> config_wf g \<and> config_validate g = 0"
proof -
  let ?g = "(config_init_defaults zero_config)\<lparr>port := 9090\<rparr>"
  have s: "config_startup (\<lambda>_. None) True (\<lambda>_. None) False [''proxy'', ''9090''] zero_config = Some ?g"
    by code_simp
  have z: "config_wf zero_config" by (simp add: config_wf_def zero_config_def)
  show ?thesis using config_startup_valid [OF s z] s by auto
qed

section \<open>The configuration file\<close>

lemma trim_whitespace_id:
  "s = [] \<or> \<not> isspace (last s) \<Longrightarrow> trim_whitespace s = s"
  by (simp add: trim_whitespace_def rtrim_id)

lemma rtrim_append_space: "isspace c \<Longrightarrow> rtrim (s @ [c]) = rtrim s"
  by (simp add: rtrim_def)

lemma trim_whitespace_append_space:
  "isspace c \<Longrightarrow> s \<noteq> [] \<Longrightarrow> \<not> isspace (last s) \<Longrightarrow> trim_whitespace (s @ [c]) = s"
proof -
  assume a: "isspace c" "s \<noteq> []" "\<not> isspace (last s)"
  have "dropWhile isspace (s @ [c]) \<noteq> []"
    using a by (metis dropWhile_eq_Nil_conv in_set_conv_decomp last_in_set set_append UnI1)
  with a show ?thesis by (simp add: trim_whitespace_def rtrim_append_space rtrim_id)
qed

text \<open>Writing a setting as \<^verbatim>\<open>key = value\<close> and reading the line back with \<^verbatim>\<open>parse_config_line\<close>
  returns the same key and value, for every key and value without surrounding space that fit the
  buffers.\<close>

theorem parse_config_line_roundtrip:
  assumes "key \<noteq> []" "CHR ''='' \<notin> set key" "\<not> isspace (last key)" "length key + 1 < 256"
    and "v \<noteq> []" "\<not> isspace (hd v)" "\<not> isspace (last v)" "length v + 1 < 512"
  shows "parse_config_line (key @ '' = '' @ v @ [LF]) 256 512 = Some (key, v)"
proof -
  let ?line = "key @ '' = '' @ v @ [LF]"
  have eq: "strchr ?line (CHR ''='') = Some (length key + 1)"
    using assms(2) strchr_append [of "CHR ''=''" "key @ '' ''" "'' '' @ v @ [LF]"] by simp
  have key: "trim_whitespace (take (length key + 1) ?line) = key"
    using assms(1,3) trim_whitespace_append_space [of "CHR '' ''" key] by (simp add: isspace_def)
  have drop: "dropWhile isspace (drop (length key + 1 + 1) ?line) = v @ [LF]"
    using assms(5,6) by (cases v) (auto simp: isspace_def)
  have val: "trim_whitespace (v @ [LF]) = v"
    using assms(5,7) trim_whitespace_append_space [of LF v] by (simp add: isspace_def)
  show ?thesis
    unfolding parse_config_line_def eq option.case key drop Let_def val
    using assms(4,8) by simp
qed

theorem parse_config_line_roundtrip_witness:
  "parse_config_line (''log_file'' @ '' = '' @ ''a=b c'' @ [LF]) 256 512 = Some (''log_file'', ''a=b c'')"
  by (rule parse_config_line_roundtrip) (simp_all add: isspace_def)

text \<open>A negative number for a size limit is read as a huge unsigned limit and passes validation:
  \<^verbatim>\<open>max_bytes=-1\<close> and \<^verbatim>\<open>max_cache_size = -1\<close> start the proxy with both limits at the largest
  64-bit value.\<close>

theorem negative_sizes_accepted:
  "config_startup (\<lambda>_. Some (''max_bytes=-1'' @ [LF] @ ''max_cache_size = -1'' @ [LF])) False
     (\<lambda>_. None) False [''proxy''] zero_config =
   Some ((config_init_defaults zero_config)\<lparr>max_bytes := 2 ^ 64 - 1, max_cache_size := 2 ^ 64 - 1\<rparr>)"
  by code_simp

section \<open>Precedence of the readers\<close>

lemma config_apply_env_none: "config_apply_env (\<lambda>_. None) cfg = cfg"
proof -
  have "fold (env_override (\<lambda>_. None)) nus cfg = cfg" for nus
    by (induction nus) (auto simp: env_override_def)
  then show ?thesis by (simp add: config_apply_env_def)
qed

lemma fold_env_port:
  "\<forall>nu \<in> set nus. \<forall>v c. port (snd nu v c) = port c \<Longrightarrow>
     port (fold (env_override getenv) nus cfg) = port cfg"
  by (induction nus arbitrary: cfg) (auto simp: env_override_def split: option.split)

lemma config_apply_env_port:
  "port (config_apply_env getenv cfg) =
     (case getenv ''PROXY_PORT'' of None \<Rightarrow> port cfg | Some v \<Rightarrow> atoi v)"
proof -
  define rest where "rest = tl env_overrides"
  have rest: "\<forall>nu \<in> set rest. \<forall>v c. port (snd nu v c) = port c"
    by (simp add: rest_def env_overrides_def)
  have eq: "env_overrides = (''PROXY_PORT'', \<lambda>v cfg. cfg\<lparr>port := atoi v\<rparr>) # rest"
    by (simp add: rest_def env_overrides_def)
  show ?thesis
    unfolding config_apply_env_def eq
    by (simp add: fold_env_port [OF rest] env_override_def split: option.split)
qed

lemma config_args_loop_append:
  "config_args_loop (as @ bs) cfg = (case config_args_loop as cfg of (r, c) \<Rightarrow> if r = 0 then config_args_loop bs c else (r, c))"
  by (induction as arbitrary: cfg) (auto split: option.split)

lemma config_apply_args_port:
  "config_apply_args cfg (prog # as @ [''--port='' @ v]) = (0, g) \<Longrightarrow> port g = atoi v"
  by (auto simp: config_apply_args_def config_args_loop_append config_apply_arg_def
      config_apply_option_def strchr_def split: prod.splits if_splits)

text \<open>The port the proxy starts with is the one of a final \<^verbatim>\<open>--port=\<close> option, whatever the
  environment and the file say; without arguments it is the one of \<^verbatim>\<open>PROXY_PORT\<close>, whatever the file
  says; and without either it is the one the file left over the default.\<close>

theorem config_port_precedence:
  assumes "config_startup fs enoent getenv etc_ok (prog # as) zero = Some g"
  shows "(as = bs @ [''--port='' @ v] \<longrightarrow> port g = atoi v) \<and>
    (as = [] \<longrightarrow> port g =
       (case getenv ''PROXY_PORT'' of
          Some e \<Rightarrow> atoi e
        | None \<Rightarrow> port (snd (config_load_file fs enoent (config_init_defaults zero)
                     (Some (config_choose_file getenv etc_ok (prog # as)))))))"
proof (intro conjI impI)
  assume as: "as = bs @ [''--port='' @ v]"
  show "port g = atoi v"
  proof (cases "length (prog # as) = 2 \<and> isdigit (hd ((prog # as) ! 1))")
    case True
    with as have "bs = []" by (cases bs) auto
    with True as have "isdigit (CHR ''-'')" by simp
    then show ?thesis by (simp add: isdigit_def code_def)
  next
    case False
    with assms as show ?thesis
      using config_apply_args_port
      by (fastforce simp: config_startup_def Let_def split: prod.splits if_splits)
  qed
next
  assume "as = []"
  with assms show "port g = (case getenv ''PROXY_PORT'' of
          Some e \<Rightarrow> atoi e
        | None \<Rightarrow> port (snd (config_load_file fs enoent (config_init_defaults zero)
                     (Some (config_choose_file getenv etc_ok (prog # as))))))"
    by (auto simp: config_startup_def Let_def config_apply_args_def config_apply_env_port
        split: prod.splits if_splits option.splits)
qed

theorem config_port_precedence_witness:
  "\<exists>g. config_startup (\<lambda>_. Some ''port=1'') True (\<lambda>n. if n = ''PROXY_PORT'' then Some ''2'' else None) False
         [''proxy'', ''--port=3''] zero_config = Some g \<and> port g = 3"
proof -
  let ?g = "(config_init_defaults zero_config)\<lparr>port := 3\<rparr>"
  have s: "config_startup (\<lambda>_. Some ''port=1'') True (\<lambda>n. if n = ''PROXY_PORT'' then Some ''2'' else None)
      False (''proxy'' # [''--port=3'']) zero_config = Some ?g"
    by code_simp
  have "atoi ''3'' = 3" by code_simp
  then show ?thesis using config_port_precedence [OF s, of "[]" "''3''"] s by auto
qed

section \<open>Hot reload\<close>

lemma config_wf_merge: "config_wf g \<Longrightarrow> config_wf p \<Longrightarrow> config_wf (hot_reload_merge g p)"
  by (simp add: config_wf_def hot_reload_merge_def)

text \<open>C24: a hot reload keeps the addresses, ports, limits of the sockets, authentication, logging format
  and rotation, cache directory, protocol and TLS settings the proxy was started with, whatever the
  changed file contains, and leaves every string inside its array.\<close>

theorem hot_reload_frame:
  assumes "config_wf g" "length (content_type_blocklist_file junk) < 512"
    and "hot_reload_config fs enoent getenv path junk g = (g', l)"
  shows "config_wf g' \<and> port g' = port g \<and> bind_address g' = bind_address g \<and>
    enable_ipv6 g' = enable_ipv6 g \<and> max_clients g' = max_clients g \<and> max_bytes g' = max_bytes g \<and>
    cache_dir g' = cache_dir g \<and> enable_auth g' = enable_auth g \<and> auth_file g' = auth_file g \<and>
    content_type_blocklist_file g' = content_type_blocklist_file g \<and> log_format g' = log_format g \<and>
    log_rotation g' = log_rotation g \<and> log_max_size_mb g' = log_max_size_mb g \<and>
    enable_admin g' = enable_admin g \<and> admin_port g' = admin_port g \<and>
    max_http1_connections g' = max_http1_connections g \<and>
    max_http2_connections g' = max_http2_connections g \<and>
    max_http3_connections g' = max_http3_connections g \<and> enable_https g' = enable_https g \<and>
    enable_http2 g' = enable_http2 g \<and> enable_http3 g' = enable_http3 g \<and>
    tls_verify_peer g' = tls_verify_peer g \<and> ca_bundle_file g' = ca_bundle_file g \<and>
    crl_file g' = crl_file g"
proof -
  let ?p = "config_apply_env getenv (snd (config_load_file fs enoent (config_init_defaults junk) (Some path)))"
  have p: "config_wf ?p"
    by (intro bounds.apply_env bounds.load_file config_wf_defaults assms(2))
  have "g' = hot_reload_merge g ?p \<or> g' = g"
    using assms(3) by (auto simp: hot_reload_config_def Let_def split: prod.splits if_splits)
  then show ?thesis
    using config_wf_merge [OF assms(1) p] assms(1) by (elim disjE) (simp_all add: hot_reload_merge_def)
qed

theorem hot_reload_frame_witness:
  "\<exists>g' l. hot_reload_config (\<lambda>_. Some (''port=1'' @ [LF] @ ''enable_cache=0'')) False (\<lambda>_. None) ''c'' zero_config
       (config_init_defaults zero_config) = (g', l) \<and> enable_cache g' = False \<and> port g' = 8080"
proof -
  let ?g = "config_init_defaults zero_config"
  have wf: "config_wf ?g" by (rule config_wf_defaults) (simp add: zero_config_def)
  have z: "length (content_type_blocklist_file zero_config) < 512" by (simp add: zero_config_def)
  have h: "hot_reload_config (\<lambda>_. Some (''port=1'' @ [LF] @ ''enable_cache=0'')) False (\<lambda>_. None) ''c''
      zero_config ?g = (?g\<lparr>enable_cache := False\<rparr>, Some LOG_LEVEL_INFO)"
    by code_simp
  show ?thesis
    using hot_reload_frame [OF wf z h] h by (auto simp: config_init_defaults_def)
qed

section \<open>Log levels\<close>

text \<open>The four level names round-trip through \<^verbatim>\<open>log_level_to_string\<close> and
  \<^verbatim>\<open>log_level_from_string\<close>.\<close>

theorem log_level_roundtrip:
  "level \<in> {0, 1, 2, 3} \<Longrightarrow> log_level_from_string (Some (log_level_to_string level)) = level"
  by (auto simp: log_level_from_string_def log_level_to_string_def strcaseeq_def tolower_def code_def)

theorem log_level_roundtrip_witness:
  "log_level_from_string (Some (log_level_to_string 2)) = 2"
  by (rule log_level_roundtrip) simp

text \<open>The validator and the runtime disagree on level names. The level \<^verbatim>\<open>debug\<close> is accepted as DEBUG
  by validation, which ignores case, and run as INFO by the case-sensitive comparison; the level
  CRITICAL that the runtime knows is rejected by validation.\<close>

theorem log_level_names_disagree:
  "log_level_from_string (Some ''debug'') = 0 \<and> runtime_log_level ''debug'' = LOG_LEVEL_INFO \<and>
   log_level_from_string (Some ''CRITICAL'') = -1 \<and> runtime_log_level ''CRITICAL'' = LOG_LEVEL_CRITICAL"
  by code_simp

end
