(* ===== verification/Cache.thy ===== *)
theory Cache
  imports Config
begin

text \<open>
  \<^verbatim>\<open>src/src/cache.h\<close> and \<^verbatim>\<open>src/src/cache.c\<close>: the response cache, a hash table of singly linked
  chains whose nodes are also linked in a doubly linked list in eviction order.

  The nodes live in an explicit heap and the links are addresses, as in the code. A freed node is
  absent from the heap. Every operation returns \<^typ>\<open>'a option\<close>: \<^term>\<open>None\<close> stands for undefined
  behaviour (a NULL or dangling pointer followed, a read outside a buffer) or for a pointer walk
  that does not end, so an operation is shown memory safe and terminating by showing that it
  returns \<^term>\<open>Some\<close>. Each public operation holds \<^verbatim>\<open>LOCK\<close> for its whole body (\<^verbatim>\<open>FindCache\<close> releases
  it before the purge of an expired entry, which is an operation of its own), so it is one step.

  Entries above 128 KiB live in a file that is mapped into memory. Files are inodes with a
  directory of names, so that two mappings of one inode share their bytes as \<^verbatim>\<open>MAP_SHARED\<close> does.
  The results of \<^verbatim>\<open>calloc\<close>, \<^verbatim>\<open>malloc\<close>, \<^verbatim>\<open>open\<close>, \<^verbatim>\<open>write\<close>, \<^verbatim>\<open>mmap\<close> and \<^verbatim>\<open>time\<close> are arguments.
\<close>

section \<open>State\<close>

type_synonym addr = nat
type_synonym inode = nat

datatype CacheEvictionPolicy = EVICT_LRU | EVICT_LFU | EVICT_TTL

datatype data_ref = Heap_Data string | Mapped_Data inode

record CacheModule =
  URL :: string
  is_on_disk :: bool
  disk_path :: "string option"
  DATA :: data_ref
  CLENGTH :: int
  UPTIME :: int
  access_count :: i32
  expires_at :: int
  NEXT :: "addr option"
  prev_lru :: "addr option"
  next_lru :: "addr option"

type_synonym node_heap = "addr \<Rightarrow> CacheModule option"

record cache =
  heap :: node_heap
  fresh :: addr
  HASH_TABLE :: "nat \<Rightarrow> addr option"
  list_head :: "addr option"
  list_tail :: "addr option"
  CACHE_SIZE :: size_t
  g_eviction_policy :: CacheEvictionPolicy
  g_cache_dir :: string
  files :: "string \<Rightarrow> inode option"
  inodes :: "inode \<Rightarrow> string"
  fresh_inode :: inode

abbreviation HASH_TABLE_SIZE :: nat where "HASH_TABLE_SIZE \<equiv> 1024"

definition hash_url :: "string \<Rightarrow> nat" where
  "hash_url str =
     unat (foldl (\<lambda>hash c. (push_bit 5 hash + hash) + word_of_int (char_int c)) (5381 :: u64) str
           mod 1024)"

definition upd_node :: "addr \<Rightarrow> (CacheModule \<Rightarrow> CacheModule) \<Rightarrow> cache \<Rightarrow> cache option" where
  "upd_node a f s =
     (case heap s a of None \<Rightarrow> None | Some n \<Rightarrow> Some (s\<lparr>heap := (heap s)(a \<mapsto> f n)\<rparr>))"

definition element_size :: "int \<Rightarrow> string \<Rightarrow> size_t" where
  \<comment> \<open>\<^verbatim>\<open>sizeof(CacheModule)\<close> is 88 on x86-64\<close>
  "element_size len url = word_of_int len + of_nat (length url) + 88 + 1"

section \<open>The eviction list\<close>

definition list_remove :: "addr \<Rightarrow> cache \<Rightarrow> cache option" where
  "list_remove node s =
     do {
       n \<leftarrow> heap s node;
       s \<leftarrow> (case prev_lru n of
               Some p \<Rightarrow> upd_node p (\<lambda>m. m\<lparr>next_lru := next_lru n\<rparr>) s
             | None \<Rightarrow> Some (s\<lparr>list_head := next_lru n\<rparr>));
       n \<leftarrow> heap s node;
       (case next_lru n of
          Some q \<Rightarrow> upd_node q (\<lambda>m. m\<lparr>prev_lru := prev_lru n\<rparr>) s
        | None \<Rightarrow> Some (s\<lparr>list_tail := prev_lru n\<rparr>))
     }"

definition list_append :: "addr \<Rightarrow> cache \<Rightarrow> cache option" where
  "list_append node s =
     do {
       s \<leftarrow> upd_node node (\<lambda>m. m\<lparr>next_lru := None, prev_lru := list_tail s\<rparr>) s;
       s \<leftarrow> (case list_tail s of
               Some t \<Rightarrow> upd_node t (\<lambda>m. m\<lparr>next_lru := Some node\<rparr>) s
             | None \<Rightarrow> Some (s\<lparr>list_head := Some node\<rparr>));
       Some (s\<lparr>list_tail := Some node\<rparr>)
     }"

definition list_move_to_end :: "addr \<Rightarrow> cache \<Rightarrow> cache option" where
  "list_move_to_end node s = do { s \<leftarrow> list_remove node s; list_append node s }"

section \<open>Walks along the chains\<close>

partial_function (option) chain_find :: "node_heap \<Rightarrow> string \<Rightarrow> addr option \<Rightarrow> addr option option" where
  \<comment> \<open>the search loop of \<^verbatim>\<open>FindCache\<close>\<close>
  "chain_find h url cur =
     (case cur of
        None \<Rightarrow> Some None
      | Some a \<Rightarrow>
          (case h a of
             None \<Rightarrow> None
           | Some n \<Rightarrow> if URL n = url then Some (Some a) else chain_find h url (NEXT n)))"

partial_function (option) purge_find ::
  "node_heap \<Rightarrow> string \<Rightarrow> addr option \<Rightarrow> addr option \<Rightarrow> (addr option \<times> addr) option option" where
  \<comment> \<open>the search loop of \<^verbatim>\<open>Cache_purge\<close>, which carries the predecessor\<close>
  "purge_find h url prev cur =
     (case cur of
        None \<Rightarrow> Some None
      | Some a \<Rightarrow>
          (case h a of
             None \<Rightarrow> None
           | Some n \<Rightarrow> if URL n = url then Some (Some (prev, a)) else purge_find h url cur (NEXT n)))"

partial_function (option) chain_pred :: "node_heap \<Rightarrow> addr \<Rightarrow> addr option \<Rightarrow> addr option option" where
  \<comment> \<open>\<^verbatim>\<open>while (curr && curr->NEXT != victim) curr = curr->NEXT\<close> of \<^verbatim>\<open>RemoveCache\<close>\<close>
  "chain_pred h victim cur =
     (case cur of
        None \<Rightarrow> Some None
      | Some a \<Rightarrow>
          (case h a of
             None \<Rightarrow> None
           | Some n \<Rightarrow> if NEXT n = Some victim then Some (Some a) else chain_pred h victim (NEXT n)))"

partial_function (option) victim_scan ::
  "addr option \<Rightarrow> node_heap \<Rightarrow> (CacheModule \<Rightarrow> CacheModule \<Rightarrow> bool) \<Rightarrow> addr \<Rightarrow> addr option" where
  \<comment> \<open>the two scan loops of \<^verbatim>\<open>RemoveCache\<close>: keep the first node no later one is better than\<close>
  "victim_scan cur h better best =
     (case cur of
        None \<Rightarrow> Some best
      | Some a \<Rightarrow>
          (case h a of
             None \<Rightarrow> None
           | Some n \<Rightarrow>
               (case h best of
                  None \<Rightarrow> None
                | Some b \<Rightarrow> victim_scan (next_lru n) h better (if better n b then a else best))))"

definition fewer_accesses :: "CacheModule \<Rightarrow> CacheModule \<Rightarrow> bool" where
  "fewer_accesses n b \<longleftrightarrow> sint (access_count n) < sint (access_count b)"

definition expires_before :: "CacheModule \<Rightarrow> CacheModule \<Rightarrow> bool" where
  "expires_before n b \<longleftrightarrow> expires_at n < expires_at b"

definition chain_unlink :: "addr option \<Rightarrow> nat \<Rightarrow> CacheModule \<Rightarrow> cache \<Rightarrow> cache option" where
  \<comment> \<open>\<^verbatim>\<open>prev->NEXT = node->NEXT\<close>, or \<^verbatim>\<open>HASH_TABLE[h] = node->NEXT\<close> without a predecessor\<close>
  "chain_unlink prev h n s =
     (case prev of
        Some p \<Rightarrow> upd_node p (\<lambda>m. m\<lparr>NEXT := NEXT n\<rparr>) s
      | None \<Rightarrow> Some (s\<lparr>HASH_TABLE := (HASH_TABLE s)(h := NEXT n)\<rparr>))"

definition release :: "addr \<Rightarrow> CacheModule \<Rightarrow> cache \<Rightarrow> cache" where
  \<comment> \<open>\<^verbatim>\<open>munmap\<close> and \<^verbatim>\<open>unlink\<close> of a disk entry, then the \<^verbatim>\<open>free\<close> calls\<close>
  "release a n s =
     (let s = (if is_on_disk n
               then (case disk_path n of
                       Some p \<Rightarrow> s\<lparr>files := (files s)(p := None)\<rparr>
                     | None \<Rightarrow> s)
               else s)
      in s\<lparr>heap := (heap s)(a := None)\<rparr>)"

section \<open>Public operations\<close>

definition Cache_init :: "ProxyConfig \<Rightarrow> cache \<Rightarrow> cache" where
  "Cache_init cfg s =
     s\<lparr>HASH_TABLE := (\<lambda>_. None), list_head := None, list_tail := None, CACHE_SIZE := 0,
       g_cache_dir := (if cache_dir cfg \<noteq> [] then take 255 (cache_dir cfg) else g_cache_dir s)\<rparr>"

definition pick_victim :: "addr \<Rightarrow> cache \<Rightarrow> addr option" where
  "pick_victim first s =
     (case g_eviction_policy s of
        EVICT_LFU \<Rightarrow> victim_scan (Some first) (heap s) fewer_accesses first
      | EVICT_TTL \<Rightarrow> victim_scan (Some first) (heap s) expires_before first
      | EVICT_LRU \<Rightarrow> Some first)"

definition RemoveCache :: "cache \<Rightarrow> cache option" where
  "RemoveCache s =
     (case list_head s of
        None \<Rightarrow> Some s
      | Some first \<Rightarrow>
          do {
            victim \<leftarrow> pick_victim first s;
            s \<leftarrow> list_remove victim s;
            v \<leftarrow> heap s victim;
            let h = hash_url (URL v);
            s \<leftarrow> (if HASH_TABLE s h = Some victim then chain_unlink None h v s
                  else do {
                    c \<leftarrow> chain_pred (heap s) victim (HASH_TABLE s h);
                    (case c of Some p \<Rightarrow> chain_unlink (Some p) h v s | None \<Rightarrow> Some s)
                  });
            let s = s\<lparr>CACHE_SIZE := CACHE_SIZE s - element_size (CLENGTH v) (URL v)\<rparr>;
            Some (release victim v s)
          })"

definition Cache_purge :: "string \<Rightarrow> cache \<Rightarrow> cache option" where
  "Cache_purge url s =
     do {
       let h = hash_url url;
       r \<leftarrow> purge_find (heap s) url None (HASH_TABLE s h);
       (case r of
          None \<Rightarrow> Some s
        | Some (prev, cur) \<Rightarrow>
            do {
              n \<leftarrow> heap s cur;
              s \<leftarrow> chain_unlink prev h n s;
              s \<leftarrow> list_remove cur s;
              n \<leftarrow> heap s cur;
              let s = s\<lparr>CACHE_SIZE := CACHE_SIZE s - element_size (CLENGTH n) (URL n)\<rparr>;
              Some (release cur n s)
            })
     }"

definition FindCache :: "int \<Rightarrow> string \<Rightarrow> cache \<Rightarrow> (addr option \<times> cache) option" where
  "FindCache now url s =
     do {
       r \<leftarrow> chain_find (heap s) url (HASH_TABLE s (hash_url url));
       (case r of
          None \<Rightarrow> Some (None, s)
        | Some cur \<Rightarrow>
            do {
              n \<leftarrow> heap s cur;
              (if 0 < expires_at n \<and> expires_at n < now
               then do { s \<leftarrow> Cache_purge url s; Some (None, s) }
               else do {
                 s \<leftarrow> upd_node cur (\<lambda>m. m\<lparr>UPTIME := now, access_count := access_count m + 1\<rparr>) s;
                 s \<leftarrow> (if g_eviction_policy s = EVICT_LRU then list_move_to_end cur s else Some s);
                 Some (Some cur, s)
               })
            })
     }"

partial_function (option) clear_chain :: "addr option \<Rightarrow> cache \<Rightarrow> cache option" where
  "clear_chain cur s =
     (case cur of
        None \<Rightarrow> Some s
      | Some a \<Rightarrow>
          (case heap s a of
             None \<Rightarrow> None
           | Some n \<Rightarrow> clear_chain (NEXT n) (release a n s)))"

fun clear_buckets :: "nat list \<Rightarrow> cache \<Rightarrow> cache option" where
  "clear_buckets [] s = Some s"
| "clear_buckets (i # is) s =
     do {
       s \<leftarrow> clear_chain (HASH_TABLE s i) s;
       clear_buckets is (s\<lparr>HASH_TABLE := (HASH_TABLE s)(i := None)\<rparr>)
     }"

definition Cache_clear :: "cache \<Rightarrow> cache option" where
  "Cache_clear s =
     do {
       s \<leftarrow> clear_buckets [0..<HASH_TABLE_SIZE] s;
       Some (s\<lparr>list_head := None, list_tail := None, CACHE_SIZE := 0\<rparr>)
     }"

section \<open>Insertion\<close>

record add_env =
  calloc_ok :: bool
  malloc_ok :: bool
  open_ok :: bool
  write_result :: int
  mmap_ok :: bool
  time_path :: int
  time_uptime :: int
  time_expires :: int

definition not_cacheable :: "string \<Rightarrow> bool" where
  "not_cacheable d \<longleftrightarrow>
     strcasestr d ''Cache-Control: no-store'' \<noteq> None \<or> strcasestr d ''Cache-Control: no-cache'' \<noteq> None"

definition max_age_of :: "string \<Rightarrow> int" where
  "max_age_of d =
     (case strcasestr d ''Cache-Control:'' of
        None \<Rightarrow> -1
      | Some cc \<Rightarrow>
          (case strcasestr (drop cc d) ''max-age='' of
             None \<Rightarrow> -1
           | Some ma \<Rightarrow> atoi (drop (ma + 8) (drop cc d))))"

definition read_buf :: "string \<Rightarrow> int \<Rightarrow> string option" where
  \<comment> \<open>the first \<^verbatim>\<open>n\<close> bytes of a buffer, undefined outside it\<close>
  "read_buf buf n = (if 0 \<le> n \<and> nat n \<le> length buf then Some (take (nat n) buf) else None)"

partial_function (option) evict_loop :: "size_t \<Rightarrow> size_t \<Rightarrow> cache \<Rightarrow> cache option" where
  "evict_loop limit es s =
     (if CACHE_SIZE s + es > limit \<and> list_head s \<noteq> None
      then (case RemoveCache s of None \<Rightarrow> None | Some s \<Rightarrow> evict_loop limit es s)
      else Some s)"

definition cache_file_name :: "string \<Rightarrow> string \<Rightarrow> int \<Rightarrow> string" where
  "cache_file_name dir url now =
     snprintf 512 (dir @ ''/cache_'' @ show_nat (hash_url url) @ ''_'' @ show_int now @ ''.bin'')"

definition store_on_disk ::
  "add_env \<Rightarrow> string \<Rightarrow> int \<Rightarrow> string \<Rightarrow> cache \<Rightarrow> ((string \<times> inode) option \<times> cache) option" where
  \<comment> \<open>\<^verbatim>\<open>open\<close> with \<^verbatim>\<open>O_CREAT | O_TRUNC\<close>, one \<^verbatim>\<open>write\<close>, \<^verbatim>\<open>mmap\<close>; the path and inode when all succeed\<close>
  "store_on_disk env d sz url s =
     (if sz > 128 * 1024 \<and> open_ok env
      then do {
        bytes \<leftarrow> read_buf d sz;
        let path = cache_file_name (g_cache_dir s) url (time_path env);
        let (i, s) = (case files s path of
                        Some i \<Rightarrow> (i, s)
                      | None \<Rightarrow> (fresh_inode s, s\<lparr>files := (files s)(path \<mapsto> fresh_inode s),
                                                 fresh_inode := fresh_inode s + 1\<rparr>));
        let s = s\<lparr>inodes := (inodes s)(i := take (nat (write_result env)) bytes)\<rparr>;
        Some (if write_result env = sz \<and> mmap_ok env then Some (path, i) else None, s)
      }
      else Some (None, s))"

definition link_new :: "CacheModule \<Rightarrow> size_t \<Rightarrow> cache \<Rightarrow> cache option" where
  \<comment> \<open>the end of \<^verbatim>\<open>AddCache\<close>: head of the hash chain, tail of the list, size accounting\<close>
  "link_new node es s =
     do {
       let a = fresh s;
       let h = hash_url (URL node);
       let s = s\<lparr>heap := (heap s)(a \<mapsto> node\<lparr>NEXT := HASH_TABLE s h\<rparr>), fresh := fresh s + 1\<rparr>;
       let s = s\<lparr>HASH_TABLE := (HASH_TABLE s)(h := Some a)\<rparr>;
       s \<leftarrow> list_append a s;
       Some (s\<lparr>CACHE_SIZE := CACHE_SIZE s + es\<rparr>)
     }"

definition new_node :: "add_env \<Rightarrow> int \<Rightarrow> int \<Rightarrow> string \<Rightarrow> (string \<times> inode) option \<Rightarrow> string \<Rightarrow> CacheModule" where
  "new_node env max_age sz url disk bytes =
     \<lparr>URL = url, is_on_disk = (disk \<noteq> None), disk_path = map_option fst disk,
      DATA = (case disk of Some (_, i) \<Rightarrow> Mapped_Data i | None \<Rightarrow> Heap_Data bytes),
      CLENGTH = sz, UPTIME = time_uptime env, access_count = 1,
      expires_at = time_expires env + (if max_age > 0 then max_age else 3600),
      NEXT = None, prev_lru = None, next_lru = None\<rparr>"

definition AddCache ::
  "ProxyConfig \<Rightarrow> add_env \<Rightarrow> string \<Rightarrow> int \<Rightarrow> string \<Rightarrow> cache \<Rightarrow> (int \<times> cache) option" where
  \<comment> \<open>\<^verbatim>\<open>d\<close> is the buffer before its terminating NUL, \<^verbatim>\<open>sz\<close> the \<^verbatim>\<open>SIZE\<close> argument\<close>
  "AddCache cfg env d sz url s =
     (if not_cacheable (c_str d) then Some (0, s)
      else
        let max_age = max_age_of (c_str d);
            es = element_size sz url
        in
          if es > max_element_size cfg then Some (0, s)
          else do {
            s \<leftarrow> evict_loop (max_cache_size cfg) es s;
            (if CACHE_SIZE s + es > max_cache_size cfg then Some (0, s)
             else if \<not> calloc_ok env then Some (0, s)
             else do {
               (disk, s) \<leftarrow> store_on_disk env d sz url s;
               (if disk = None \<and> \<not> malloc_ok env then Some (0, s)
                else do {
                  bytes \<leftarrow> read_buf d sz;
                  s \<leftarrow> link_new (new_node env max_age sz url disk bytes) es s;
                  Some (1, s)
                })
             })
          })"

definition Cache_set_eviction_policy :: "CacheEvictionPolicy \<Rightarrow> cache \<Rightarrow> cache" where
  "Cache_set_eviction_policy policy s = s\<lparr>g_eviction_policy := policy\<rparr>"

section \<open>What an entry holds\<close>

definition entry_data :: "cache \<Rightarrow> CacheModule \<Rightarrow> string" where
  \<comment> \<open>the bytes a reader of \<^verbatim>\<open>DATA\<close> sees\<close>
  "entry_data s n =
     (case DATA n of Heap_Data d \<Rightarrow> d | Mapped_Data i \<Rightarrow> take (nat (CLENGTH n)) (inodes s i))"

definition empty_cache :: cache where
  "empty_cache =
     \<lparr>heap = (\<lambda>_. None), fresh = 0, HASH_TABLE = (\<lambda>_. None), list_head = None, list_tail = None,
      CACHE_SIZE = 0, g_eviction_policy = EVICT_LRU, g_cache_dir = ''/tmp/proxy_cache'',
      files = (\<lambda>_. None), inodes = (\<lambda>_. []), fresh_inode = 0\<rparr>"

text \<open>The unfolding equations of the walks are their code equations, so that states can be run.\<close>

declare chain_find.simps [code] purge_find.simps [code] chain_pred.simps [code]
  victim_scan.simps [code] clear_chain.simps [code] evict_loop.simps [code]

end
