(* ===== verification/Links.thy ===== *)
theory Links
  imports Main
begin

text \<open>
  Linked structures in an explicit heap, as far as they do not depend on what a node holds: a link
  map gives for every allocated address the pointer stored there, a path is the list of addresses
  a walk visits until NULL, and the lemmas say what the pointer surgery of a linked list (unlink a
  node, push at either end) does to the paths.
\<close>

type_synonym 'a links = "'a \<Rightarrow> 'a option option"

fun path :: "'a links \<Rightarrow> 'a option \<Rightarrow> 'a list \<Rightarrow> bool" where
  "path L p [] = (p = None)"
| "path L p (x # xs) = (p = Some x \<and> (\<exists>q. L x = Some q \<and> path L q xs))"

fun seg :: "'a links \<Rightarrow> 'a option \<Rightarrow> 'a list \<Rightarrow> 'a option \<Rightarrow> bool" where
  "seg L p [] q = (p = q)"
| "seg L p (x # xs) q = (p = Some x \<and> (\<exists>r. L x = Some r \<and> seg L r xs q))"

definition first_of :: "'a list \<Rightarrow> 'a option" where
  "first_of xs = (case xs of [] \<Rightarrow> None | x # _ \<Rightarrow> Some x)"

lemma first_of_simps [simp]: "first_of [] = None" "first_of (x # xs) = Some x"
  by (simp_all add: first_of_def)

lemma first_of_rev_snoc [simp]: "first_of (rev (xs @ [x])) = Some x"
  by simp

lemma first_of_rev: "xs \<noteq> [] \<Longrightarrow> first_of (rev xs) = Some (last xs)"
  by (cases xs rule: rev_cases) auto

lemma path_first: "path L p xs \<Longrightarrow> p = first_of xs"
  by (cases xs) auto

lemma path_None_iff: "path L None xs \<longleftrightarrow> xs = []"
  by (cases xs) auto

lemma path_Some_iff: "path L (Some a) xs \<longleftrightarrow> (\<exists>ys q. xs = a # ys \<and> L a = Some q \<and> path L q ys)"
  by (cases xs) auto

lemma path_unique: "path L p xs \<Longrightarrow> path L p ys \<Longrightarrow> xs = ys"
proof (induction xs arbitrary: p ys)
  case Nil
  then show ?case by (simp add: path_None_iff)
next
  case (Cons x xs)
  then show ?case by (auto simp: path_Some_iff)
qed

lemma path_append: "path L p (xs @ ys) \<longleftrightarrow> (\<exists>q. seg L p xs q \<and> path L q ys)"
  by (induction xs arbitrary: p) auto

lemma seg_append: "seg L p (xs @ ys) q \<longleftrightarrow> (\<exists>r. seg L p xs r \<and> seg L r ys q)"
  by (induction xs arbitrary: p) auto

lemma seg_first: "seg L p xs q \<Longrightarrow> p = (case xs of [] \<Rightarrow> q | x # _ \<Rightarrow> Some x)"
  by (cases xs) auto

lemma path_link: "path L p (xs @ a # ys) \<Longrightarrow> L a = Some (first_of ys)"
  by (auto simp: path_append dest: path_first)

lemma path_distinct: "path L p xs \<Longrightarrow> distinct xs"
proof (induction xs arbitrary: p)
  case (Cons x xs)
  from Cons.prems obtain q where q: "L x = Some q" "path L q xs" by auto
  have "x \<notin> set xs"
  proof
    assume "x \<in> set xs"
    then obtain us vs where xs: "xs = us @ x # vs" by (meson split_list)
    with q have "path L q vs" by (auto simp: path_append)
    with q have "xs = vs" by (blast intro: path_unique)
    with xs show False by simp
  qed
  with Cons.IH [OF q(2)] show ?case by simp
qed simp

lemma path_dom: "path L p xs \<Longrightarrow> x \<in> set xs \<Longrightarrow> L x \<noteq> None"
  by (induction xs arbitrary: p) auto

lemma path_cong: "(\<And>x. x \<in> set xs \<Longrightarrow> L x = L' x) \<Longrightarrow> path L p xs = path L' p xs"
  by (induction xs arbitrary: p) auto

lemma seg_cong: "(\<And>x. x \<in> set xs \<Longrightarrow> L x = L' x) \<Longrightarrow> seg L p xs q = seg L' p xs q"
  by (induction xs arbitrary: p) auto

lemma path_upd [simp]: "a \<notin> set xs \<Longrightarrow> path (L(a := v)) p xs = path L p xs"
  by (rule path_cong) auto

lemma seg_upd [simp]: "a \<notin> set xs \<Longrightarrow> seg (L(a := v)) p xs q = seg L p xs q"
  by (rule seg_cong) auto

text \<open>Unlinking: the predecessor (or the head pointer) takes over the link of the removed node.\<close>

lemma path_unlink_head: "path L p (a # xs) \<Longrightarrow> path L (first_of xs) xs"
  by (auto dest: path_first)

lemma path_unlink:
  assumes "path L p (ys @ u # a # zs)"
  shows "path (L(u \<mapsto> first_of zs)) p (ys @ u # zs)"
proof -
  have d: "distinct (ys @ u # a # zs)" using assms by (rule path_distinct)
  from assms obtain q where s: "seg L p ys (Some u)" and q: "path L q zs"
    by (auto simp: path_append)
  from q have "q = first_of zs" by (rule path_first)
  with q s d show ?thesis by (auto simp: path_append)
qed

lemma path_remove:
  assumes "path L p (ys @ a # zs)"
  shows "if ys = [] then path L (first_of zs) zs else path (L(last ys \<mapsto> first_of zs)) p (ys @ zs)"
proof (cases ys rule: rev_cases)
  case Nil
  with assms path_unlink_head [of L p a zs] show ?thesis by simp
next
  case (snoc us u)
  with assms path_unlink [of L p us u a zs] show ?thesis by simp
qed

text \<open>Pushing: a fresh node in front, a fresh node behind the last one.\<close>

lemma path_push: "path L p xs \<Longrightarrow> a \<notin> set xs \<Longrightarrow> path (L(a \<mapsto> p)) (Some a) (a # xs)"
  by simp

lemma path_snoc:
  assumes "path L p xs" "a \<notin> set xs" "L a = Some None"
  shows "if xs = [] then path L (Some a) [a] else path (L(last xs \<mapsto> Some a)) p (xs @ [a])"
proof (cases xs rule: rev_cases)
  case Nil
  with assms show ?thesis by simp
next
  case (snoc us u)
  with assms(1) have s: "seg L p us (Some u)" by (auto simp: path_append)
  have "distinct xs" using assms(1) by (rule path_distinct)
  with snoc s assms show ?thesis by (auto simp: path_append)
qed

lemma remove1_split: "distinct (ys @ a # zs) \<Longrightarrow> remove1 a (ys @ a # zs) = ys @ zs"
  by (simp add: remove1_append)

end
