(* ===== verification/Cache_Laws.thy ===== *)
theory Cache_Laws
  imports Cache Links
begin

text \<open>
  The laws of the response cache. A concrete state represents a list of nodes in eviction order
  and a list of nodes from newest to oldest insertion; the hash table is a decomposition of the
  second list into chains. Every operation is shown to return (no dangling pointer is followed,
  every walk ends), to keep that representation, and to do to the two lists what its contract
  says.
\<close>

section \<open>Views of a state\<close>

definition nextL :: "node_heap \<Rightarrow> addr links" where
  "nextL h = (\<lambda>a. map_option next_lru (h a))"

definition prevL :: "node_heap \<Rightarrow> addr links" where
  "prevL h = (\<lambda>a. map_option prev_lru (h a))"

definition chainL :: "node_heap \<Rightarrow> addr links" where
  "chainL h = (\<lambda>a. map_option NEXT (h a))"

definition strip :: "CacheModule \<Rightarrow> CacheModule" where
  "strip n = n\<lparr>NEXT := None, prev_lru := None, next_lru := None\<rparr>"

definition payload :: "node_heap \<Rightarrow> addr \<Rightarrow> CacheModule option" where
  "payload h = (\<lambda>a. map_option strip (h a))"

definition node_url :: "node_heap \<Rightarrow> addr \<Rightarrow> string" where
  "node_url h a = URL (the (payload h a))"

definition node_size :: "node_heap \<Rightarrow> addr \<Rightarrow> size_t" where
  "node_size h a = element_size (CLENGTH (the (payload h a))) (URL (the (payload h a)))"

definition dll :: "cache \<Rightarrow> addr list \<Rightarrow> bool" where
  "dll s xs \<longleftrightarrow> path (nextL (heap s)) (list_head s) xs \<and> path (prevL (heap s)) (list_tail s) (rev xs)"

definition bucket :: "node_heap \<Rightarrow> addr list \<Rightarrow> nat \<Rightarrow> addr list" where
  "bucket h ys i = filter (\<lambda>a. hash_url (node_url h a) = i) ys"

definition hash_chains :: "cache \<Rightarrow> addr list \<Rightarrow> bool" where
  "hash_chains s ys \<longleftrightarrow> (\<forall>i. path (chainL (heap s)) (HASH_TABLE s i) (bucket (heap s) ys i))"

definition rep :: "cache \<Rightarrow> addr list \<Rightarrow> addr list \<Rightarrow> bool" where
  \<comment> \<open>\<^verbatim>\<open>xs\<close>: eviction order; \<^verbatim>\<open>ys\<close>: newest insertion first\<close>
  "rep s xs ys \<longleftrightarrow>
     dll s xs \<and> hash_chains s ys \<and> distinct ys \<and> set ys = set xs \<and> dom (heap s) = set xs \<and>
     CACHE_SIZE s = sum_list (map (node_size (heap s)) xs) \<and> (\<forall>a \<in> set xs. a < fresh s)"

definition cache_inv :: "cache \<Rightarrow> bool" where
  "cache_inv s \<longleftrightarrow> (\<exists>xs ys. rep s xs ys)"

lemma view_upd [simp]:
  "nextL (h(a \<mapsto> n)) = (nextL h)(a \<mapsto> next_lru n)"
  "prevL (h(a \<mapsto> n)) = (prevL h)(a \<mapsto> prev_lru n)"
  "chainL (h(a \<mapsto> n)) = (chainL h)(a \<mapsto> NEXT n)"
  "payload (h(a \<mapsto> n)) = (payload h)(a \<mapsto> strip n)"
  by (auto simp: nextL_def prevL_def chainL_def payload_def)

lemma view_del [simp]:
  "nextL (h(a := None)) = (nextL h)(a := None)"
  "prevL (h(a := None)) = (prevL h)(a := None)"
  "chainL (h(a := None)) = (chainL h)(a := None)"
  "payload (h(a := None)) = (payload h)(a := None)"
  by (auto simp: nextL_def prevL_def chainL_def payload_def)

lemma view_triv:
  assumes "h a = Some n"
  shows "(nextL h)(a \<mapsto> next_lru n) = nextL h" "(prevL h)(a \<mapsto> prev_lru n) = prevL h"
    "(chainL h)(a \<mapsto> NEXT n) = chainL h" "(payload h)(a \<mapsto> strip n) = payload h"
  using assms by (auto simp: nextL_def prevL_def chainL_def payload_def)

lemma strip_upd [simp]:
  "strip (n\<lparr>NEXT := p\<rparr>) = strip n" "strip (n\<lparr>prev_lru := p\<rparr>) = strip n"
  "strip (n\<lparr>next_lru := p\<rparr>) = strip n"
  by (simp_all add: strip_def)

section \<open>Frames\<close>

definition list_frame :: "cache \<Rightarrow> cache \<Rightarrow> bool" where
  \<comment> \<open>only the list links and the list ends may differ\<close>
  "list_frame s t \<longleftrightarrow>
     payload (heap t) = payload (heap s) \<and> chainL (heap t) = chainL (heap s) \<and>
     t\<lparr>heap := heap s, list_head := list_head s, list_tail := list_tail s\<rparr> = s"

definition chain_frame :: "cache \<Rightarrow> cache \<Rightarrow> bool" where
  \<comment> \<open>only the hash-chain links and the table may differ\<close>
  "chain_frame s t \<longleftrightarrow>
     payload (heap t) = payload (heap s) \<and> nextL (heap t) = nextL (heap s) \<and>
     prevL (heap t) = prevL (heap s) \<and> t\<lparr>heap := heap s, HASH_TABLE := HASH_TABLE s\<rparr> = s"

lemma list_frameD:
  assumes "list_frame s t"
  shows "payload (heap t) = payload (heap s)" "chainL (heap t) = chainL (heap s)"
    "HASH_TABLE t = HASH_TABLE s" "CACHE_SIZE t = CACHE_SIZE s" "fresh t = fresh s"
    "g_eviction_policy t = g_eviction_policy s" "files t = files s" "inodes t = inodes s"
    "fresh_inode t = fresh_inode s" "g_cache_dir t = g_cache_dir s"
  using assms by (auto simp: list_frame_def elim!: subst)

lemma chain_frameD:
  assumes "chain_frame s t"
  shows "payload (heap t) = payload (heap s)" "nextL (heap t) = nextL (heap s)"
    "prevL (heap t) = prevL (heap s)" "list_head t = list_head s"
    "list_tail t = list_tail s" "CACHE_SIZE t = CACHE_SIZE s" "fresh t = fresh s"
    "g_eviction_policy t = g_eviction_policy s" "files t = files s" "inodes t = inodes s"
    "fresh_inode t = fresh_inode s" "g_cache_dir t = g_cache_dir s"
  using assms by (auto simp: chain_frame_def elim!: subst)

lemma dom_payload: "dom (payload h) = dom h"
  by (auto simp: payload_def)

lemma payload_eq_dom: "payload h = payload h' \<Longrightarrow> dom h = dom h'"
  by (metis dom_payload)

lemma payload_views:
  assumes "payload h = payload h'"
  shows "node_url h = node_url h'" "node_size h = node_size h'" "bucket h = bucket h'"
  using assms by (auto simp: node_url_def node_size_def bucket_def fun_eq_iff)

lemma node_url_heap: "h a = Some n \<Longrightarrow> node_url h a = URL n"
  by (simp add: node_url_def payload_def strip_def)

lemma node_size_heap: "h a = Some n \<Longrightarrow> node_size h a = element_size (CLENGTH n) (URL n)"
  by (simp add: node_size_def payload_def strip_def)

lemma view_nextL: "nextL h a = Some q \<Longrightarrow> \<exists>n. h a = Some n \<and> next_lru n = q"
  by (auto simp: nextL_def)

lemma view_prevL: "prevL h a = Some q \<Longrightarrow> \<exists>n. h a = Some n \<and> prev_lru n = q"
  by (auto simp: prevL_def)

lemma view_chainL: "chainL h a = Some q \<Longrightarrow> \<exists>n. h a = Some n \<and> NEXT n = q"
  by (auto simp: chainL_def)

section \<open>The eviction list\<close>

lemma dll_distinct: "dll s xs \<Longrightarrow> distinct xs"
  by (auto simp: dll_def dest: path_distinct)

lemma dll_node:
  assumes "dll s (ys @ a # zs)"
  obtains n where "heap s a = Some n" "prev_lru n = first_of (rev ys)" "next_lru n = first_of zs"
proof -
  have "nextL (heap s) a = Some (first_of zs)"
    using assms by (auto simp: dll_def intro: path_link)
  then obtain n where n: "heap s a = Some n" "next_lru n = first_of zs" by (auto dest: view_nextL)
  have "prevL (heap s) a = Some (first_of (rev ys))"
    using assms path_link [of "prevL (heap s)" "list_tail s" "rev zs" a "rev ys"] by (simp add: dll_def)
  with n have "prev_lru n = first_of (rev ys)" by (simp add: prevL_def)
  with n that show thesis by blast
qed

lemma dll_ends:
  assumes "dll s xs"
  shows "list_tail s = first_of (rev xs)" "list_head s = first_of xs"
  using assms by (auto simp: dll_def dest: path_first)

lemma list_remove_law:
  assumes "dll s (ys @ a # zs)"
  shows "\<exists>t. list_remove a s = Some t \<and> dll t (ys @ zs) \<and> list_frame s t"
proof -
  from assms obtain n where n: "heap s a = Some n" "prev_lru n = first_of (rev ys)" "next_lru n = first_of zs"
    by (rule dll_node)
  have d: "distinct (ys @ a # zs)" using assms by (rule dll_distinct)
  have fwd: "if ys = [] then path (nextL (heap s)) (first_of zs) zs
      else path ((nextL (heap s))(last ys \<mapsto> first_of zs)) (list_head s) (ys @ zs)"
    using assms path_remove [of "nextL (heap s)" "list_head s" ys a zs] by (simp add: dll_def)
  have bwd: "if zs = [] then path (prevL (heap s)) (first_of (rev ys)) (rev ys)
      else path ((prevL (heap s))(hd zs \<mapsto> first_of (rev ys))) (list_tail s) (rev zs @ rev ys)"
    using assms path_remove [of "prevL (heap s)" "list_tail s" "rev zs" a "rev ys"]
    by (auto simp: dll_def last_rev split: if_splits)
  have L: "\<exists>k. heap s (last ys) = Some k" if "ys \<noteq> []"
  proof -
    from that obtain us u where "ys = us @ [u]" by (cases ys rule: rev_cases) auto
    with assms show ?thesis using dll_node [of s us u "a # zs"] by auto
  qed
  have R: "\<exists>m. heap s (hd zs) = Some m" if "zs \<noteq> []"
    using assms that dll_node [of s "ys @ [a]" "hd zs" "tl zs"] by auto
  show ?thesis
  proof (cases "ys = []"; cases "zs = []")
    assume "ys = []" "zs = []"
    with n fwd bwd show ?thesis
      by (auto simp: list_remove_def dll_def list_frame_def)
  next
    assume c: "ys = []" "zs \<noteq> []"
    with R obtain m where "heap s (hd zs) = Some m" by blast
    with c n fwd bwd d show ?thesis
      by (cases zs) (auto simp: list_remove_def dll_def list_frame_def upd_node_def view_triv)
  next
    assume c: "ys \<noteq> []" "zs = []"
    with L obtain k where "heap s (last ys) = Some k" by blast
    with c n fwd bwd d show ?thesis
      by (cases ys rule: rev_cases)
        (auto simp: list_remove_def dll_def list_frame_def upd_node_def view_triv)
  next
    assume c: "ys \<noteq> []" "zs \<noteq> []"
    with L R obtain k m where k: "heap s (last ys) = Some k" and m: "heap s (hd zs) = Some m" by blast
    have ne: "last ys \<noteq> hd zs" "a \<noteq> last ys" using c d by (cases ys rule: rev_cases; cases zs; auto)+
    define h1 where "h1 = (heap s)(last ys \<mapsto> k\<lparr>next_lru := first_of zs\<rparr>)"
    have "h1 a = Some n" "h1 (hd zs) = Some m" using n ne m by (auto simp: h1_def)
    have 1: "nextL (h1(hd zs \<mapsto> m\<lparr>prev_lru := first_of (rev ys)\<rparr>)) = (nextL (heap s))(last ys \<mapsto> first_of zs)"
      "prevL (h1(hd zs \<mapsto> m\<lparr>prev_lru := first_of (rev ys)\<rparr>)) = (prevL (heap s))(hd zs \<mapsto> first_of (rev ys))"
      "chainL (h1(hd zs \<mapsto> m\<lparr>prev_lru := first_of (rev ys)\<rparr>)) = chainL (heap s)"
      "payload (h1(hd zs \<mapsto> m\<lparr>prev_lru := first_of (rev ys)\<rparr>)) = payload (heap s)"
      using ne k m by (auto simp: h1_def nextL_def prevL_def chainL_def payload_def fun_eq_iff strip_def)
    have "list_remove a s = Some (s\<lparr>heap := h1(hd zs \<mapsto> m\<lparr>prev_lru := first_of (rev ys)\<rparr>)\<rparr>)"
      using c n k m ne by (cases ys rule: rev_cases; cases zs)
        (auto simp: list_remove_def upd_node_def h1_def)
    then show ?thesis
      using c fwd bwd 1 by (auto simp: dll_def list_frame_def)
  qed
qed

lemma list_append_law:
  assumes "dll s xs" "heap s a = Some n" "a \<notin> set xs"
  shows "\<exists>t. list_append a s = Some t \<and> dll t (xs @ [a]) \<and> list_frame s t"
proof -
  define h1 where "h1 = (heap s)(a \<mapsto> n\<lparr>next_lru := None, prev_lru := list_tail s\<rparr>)"
  have v: "nextL h1 = (nextL (heap s))(a \<mapsto> None)" "prevL h1 = (prevL (heap s))(a \<mapsto> list_tail s)"
    "chainL h1 = chainL (heap s)" "payload h1 = payload (heap s)"
    using assms(2) by (auto simp: h1_def nextL_def prevL_def chainL_def payload_def strip_def fun_eq_iff)
  have fwd: "if xs = [] then path (nextL h1) (Some a) [a]
      else path ((nextL h1)(last xs \<mapsto> Some a)) (list_head s) (xs @ [a])"
    using assms path_snoc [of "nextL h1" "list_head s" xs a] by (simp add: dll_def v)
  have bwd: "path (prevL h1) (Some a) (a # rev xs)"
    unfolding v(2) using assms by (intro path_push) (auto simp: dll_def)
  show ?thesis
  proof (cases xs rule: rev_cases)
    case Nil
    with assms(1) have "list_tail s = None" by (simp add: dll_ends)
    with assms(2) have "list_append a s = Some (s\<lparr>heap := h1, list_head := Some a, list_tail := Some a\<rparr>)"
      by (simp add: list_append_def upd_node_def h1_def)
    with Nil fwd bwd v show ?thesis by (auto simp: dll_def list_frame_def)
  next
    case (snoc us u)
    then have t: "list_tail s = Some u" using assms(1) by (simp add: dll_ends)
    from assms(1) snoc obtain k where k: "heap s u = Some k" using dll_node [of s us u "[]"] by auto
    have ua: "u \<noteq> a" using assms(3) snoc by auto
    define h2 where "h2 = h1(u \<mapsto> k\<lparr>next_lru := Some a\<rparr>)"
    have w: "nextL h2 = (nextL h1)(u \<mapsto> Some a)" "prevL h2 = prevL h1" "chainL h2 = chainL h1"
      "payload h2 = payload h1"
      using k ua by (auto simp: h2_def h1_def nextL_def prevL_def chainL_def payload_def strip_def fun_eq_iff)
    have "list_append a s = Some (s\<lparr>heap := h2, list_tail := Some a\<rparr>)"
      using t k ua assms(2) by (simp add: list_append_def upd_node_def h1_def h2_def)
    with snoc fwd bwd v w show ?thesis by (auto simp: dll_def list_frame_def)
  qed
qed

section \<open>Walks along the chains\<close>

lemma chain_find_law:
  "path (chainL h) p zs \<Longrightarrow> chain_find h url p = Some (find (\<lambda>a. node_url h a = url) zs)"
proof (induction zs arbitrary: p)
  case Nil
  then show ?case by (simp add: chain_find.simps)
next
  case (Cons z zs)
  then obtain n where "p = Some z" "h z = Some n" "path (chainL h) (NEXT n) zs"
    by (auto dest: view_chainL)
  with Cons.IH show ?case by (subst chain_find.simps) (simp add: node_url_heap)
qed

lemma purge_find_none:
  "path (chainL h) p zs \<Longrightarrow> \<forall>a \<in> set zs. node_url h a \<noteq> url \<Longrightarrow> purge_find h url prev p = Some None"
proof (induction zs arbitrary: p prev)
  case Nil
  then show ?case by (simp add: purge_find.simps)
next
  case (Cons z zs)
  then obtain n where "p = Some z" "h z = Some n" "path (chainL h) (NEXT n) zs"
    by (auto dest: view_chainL)
  with Cons show ?case by (subst purge_find.simps) (auto simp: node_url_heap)
qed

lemma purge_find_some:
  "path (chainL h) p (us @ a # vs) \<Longrightarrow> \<forall>u \<in> set us. node_url h u \<noteq> url \<Longrightarrow> node_url h a = url \<Longrightarrow>
     purge_find h url prev p = Some (Some (if us = [] then prev else Some (last us), a))"
proof (induction us arbitrary: p prev)
  case Nil
  then obtain n where "p = Some a" "h a = Some n"
    by (auto dest: view_chainL)
  with Nil show ?case by (subst purge_find.simps) (simp add: node_url_heap)
next
  case (Cons u us)
  then obtain n where "p = Some u" "h u = Some n" "path (chainL h) (NEXT n) (us @ a # vs)"
    by (auto dest: view_chainL)
  with Cons show ?case by (subst purge_find.simps) (auto simp: node_url_heap)
qed

lemma chain_pred_law:
  "path (chainL h) p (us @ u # a # vs) \<Longrightarrow> chain_pred h a p = Some (Some u)"
proof (induction us arbitrary: p)
  case Nil
  then obtain n m where "p = Some u" "h u = Some n" "NEXT n = Some a"
    by (auto dest!: view_chainL)
  then show ?case by (subst chain_pred.simps) simp
next
  case (Cons w us)
  then obtain n where n: "p = Some w" "h w = Some n" "path (chainL h) (NEXT n) (us @ u # a # vs)"
    by (auto dest: view_chainL)
  have "a \<noteq> hd (us @ [u])"
    using path_distinct [OF Cons.prems] by (cases us) auto
  then have "NEXT n \<noteq> Some a"
    using path_first [OF n(3)] by (cases us) auto
  with n Cons.IH show ?case by (subst chain_pred.simps) simp
qed

lemma victim_scan_law:
  "path (nextL h) p xs \<Longrightarrow> best \<in> dom h \<Longrightarrow>
     victim_scan p h better best =
       Some (fold (\<lambda>a b. if better (the (h a)) (the (h b)) then a else b) xs best)"
proof (induction xs arbitrary: p best)
  case Nil
  then show ?case by (simp add: victim_scan.simps)
next
  case (Cons x xs)
  then obtain n m where nm: "p = Some x" "h x = Some n" "path (nextL h) (next_lru n) xs" "h best = Some m"
    by (auto dest: view_nextL)
  have "(if better n m then x else best) \<in> dom h" using nm by auto
  from Cons.IH [OF nm(3) this] nm show ?case by (subst victim_scan.simps) simp
qed

lemma fold_first_min:
  fixes key :: "'a \<Rightarrow> int"
  defines "f \<equiv> (\<lambda>a b. if key a < key b then a else b)"
  shows "fold f xs b = b \<and> (\<forall>x \<in> set xs. key b \<le> key x) \<or>
    (\<exists>us vs. xs = us @ fold f xs b # vs \<and> key (fold f xs b) < key b \<and>
       (\<forall>u \<in> set us. key (fold f xs b) < key u) \<and> (\<forall>w \<in> set vs. key (fold f xs b) \<le> key w))"
proof (induction xs arbitrary: b)
  case Nil
  then show ?case by simp
next
  case (Cons x xs)
  show ?case
  proof (cases "key x < key b")
    case True
    then have eq: "fold f (x # xs) b = fold f xs x" by (simp add: f_def)
    consider (keep) "fold f xs x = x" "\<forall>y \<in> set xs. key x \<le> key y"
      | (later) us vs where "xs = us @ fold f xs x # vs" "key (fold f xs x) < key x"
          "\<forall>u \<in> set us. key (fold f xs x) < key u" "\<forall>w \<in> set vs. key (fold f xs x) \<le> key w"
      using Cons.IH [of x] by blast
    then show ?thesis
    proof cases
      case keep
      then have "x # xs = [] @ fold f xs x # xs" by simp
      with keep True eq show ?thesis by (metis empty_iff empty_set)
    next
      case later
      then have "x # xs = (x # us) @ fold f xs x # vs" by simp
      moreover have "\<forall>u \<in> set (x # us). key (fold f xs x) < key u" using later by simp
      ultimately show ?thesis using later(2,4) True eq by (metis dual_order.strict_trans)
    qed
  next
    case False
    then have eq: "fold f (x # xs) b = fold f xs b" by (simp add: f_def)
    consider (keep) "fold f xs b = b" "\<forall>y \<in> set xs. key b \<le> key y"
      | (later) us vs where "xs = us @ fold f xs b # vs" "key (fold f xs b) < key b"
          "\<forall>u \<in> set us. key (fold f xs b) < key u" "\<forall>w \<in> set vs. key (fold f xs b) \<le> key w"
      using Cons.IH [of b] by blast
    then show ?thesis
    proof cases
      case keep
      with False eq show ?thesis by simp
    next
      case later
      then have "x # xs = (x # us) @ fold f xs b # vs" by simp
      moreover have "\<forall>u \<in> set (x # us). key (fold f xs b) < key u" using later False by auto
      ultimately show ?thesis using later(2,4) eq by metis
    qed
  qed
qed

end
