(* ===== verification/Cache_Correct.thy ===== *)
theory Cache_Correct
  imports Cache_Laws
begin

text \<open>
  Correctness of the public operations of the response cache over the representation of
  \<^verbatim>\<open>Cache_Laws\<close>: each returns, keeps the invariant and refines the two-list specification.
\<close>

section \<open>Chains\<close>

lemma bucket_remove1: "bucket h (remove1 a ys) i = remove1 a (bucket h ys i)"
  by (simp add: bucket_def filter_remove1)

lemma bucket_other: "i \<noteq> hash_url (node_url h a) \<Longrightarrow> a \<notin> set (bucket h ys i)"
  by (simp add: bucket_def)

lemma mem_bucket: "a \<in> set ys \<Longrightarrow> a \<in> set (bucket h ys (hash_url (node_url h a)))"
  by (simp add: bucket_def)

lemma bucket_disjoint: "x \<in> set (bucket h ys i) \<Longrightarrow> i \<noteq> j \<Longrightarrow> x \<notin> set (bucket h ys j)"
  by (auto simp: bucket_def)

lemma hash_chains_cong:
  assumes "hash_chains s ys" "payload (heap t) = payload (heap s)" "chainL (heap t) = chainL (heap s)"
    "HASH_TABLE t = HASH_TABLE s"
  shows "hash_chains t ys"
  using assms payload_views(3) [OF assms(2)] by (simp add: hash_chains_def)

lemma dll_cong:
  assumes "dll s xs" "nextL (heap t) = nextL (heap s)" "prevL (heap t) = prevL (heap s)"
    "list_head t = list_head s" "list_tail t = list_tail s"
  shows "dll t xs"
  using assms by (simp add: dll_def)

lemma chain_unlink_law:
  assumes ch: "hash_chains s ys" and n: "heap s a = Some n"
    and h: "h = hash_url (URL n)" and b: "bucket (heap s) ys h = us @ a # vs"
  shows "\<exists>t. chain_unlink (if us = [] then None else Some (last us)) h n s = Some t \<and>
    hash_chains t (remove1 a ys) \<and> chain_frame s t"
proof -
  let ?b = "bucket (heap s)"
  have ph: "path (chainL (heap s)) (HASH_TABLE s h) (us @ a # vs)"
    using ch b by (metis hash_chains_def)
  have d: "distinct (us @ a # vs)" using ph by (rule path_distinct)
  have rm: "path (chainL (heap s)) p (?b (remove1 a ys) i) = path (chainL (heap s)) p (?b ys i)" if "i \<noteq> h" for i p
    using that bucket_other [of i "heap s" a ys] n h
    by (simp add: bucket_remove1 node_url_heap remove1_idem)
  have bh: "?b (remove1 a ys) h = us @ vs"
    using b d by (simp add: bucket_remove1 remove1_append)
  have next_a: "NEXT n = first_of vs"
    using path_link [OF ph] n by (simp add: chainL_def)
  show ?thesis
  proof (cases us rule: rev_cases)
    case Nil
    let ?t = "s\<lparr>HASH_TABLE := (HASH_TABLE s)(h := NEXT n)\<rparr>"
    have "path (chainL (heap s)) (first_of vs) vs"
      using ph Nil path_unlink_head [of "chainL (heap s)" _ a vs] by simp
    then have "hash_chains ?t (remove1 a ys)"
      using ch rm bh Nil next_a by (auto simp: hash_chains_def)
    then show ?thesis using Nil by (simp add: chain_unlink_def chain_frame_def)
  next
    case (snoc ws u)
    have "chainL (heap s) u = Some (Some a)"
      using path_link [of "chainL (heap s)" "HASH_TABLE s h" ws u "a # vs"] ph snoc by simp
    then obtain k where k: "heap s u = Some k" by (auto dest: view_chainL)
    let ?t = "s\<lparr>heap := (heap s)(u \<mapsto> k\<lparr>NEXT := NEXT n\<rparr>)\<rparr>"
    have v: "payload (heap ?t) = payload (heap s)" "nextL (heap ?t) = nextL (heap s)"
      "prevL (heap ?t) = prevL (heap s)" "chainL (heap ?t) = (chainL (heap s))(u \<mapsto> first_of vs)"
      using k next_a by (simp_all add: view_triv)
    have "u \<in> set (?b ys h)" using b snoc by simp
    then have u: "u \<notin> set (?b ys i)" if "i \<noteq> h" for i
      using that bucket_disjoint by metis
    have "path (chainL (heap ?t)) (HASH_TABLE s i) (?b (remove1 a ys) i)" for i
    proof (cases "i = h")
      case True
      show ?thesis
        unfolding v(4) True bh
        using path_unlink [of "chainL (heap s)" "HASH_TABLE s h" ws u a vs] ph snoc by simp
    next
      case False
      then have "u \<notin> set (?b (remove1 a ys) i)"
        using u [of i] set_remove1_subset by (force simp: bucket_remove1)
      then show ?thesis unfolding v(4) using ch rm [OF False] by (simp add: hash_chains_def)
    qed
    then have "hash_chains ?t (remove1 a ys)"
      using payload_views(3) [OF v(1)] by (simp add: hash_chains_def)
    then show ?thesis
      using snoc k v by (simp add: chain_unlink_def chain_frame_def upd_node_def)
  qed
qed

section \<open>Freeing a detached node\<close>

lemma release_heap [simp]:
  "heap (release a n s) = (heap s)(a := None)"
  "HASH_TABLE (release a n s) = HASH_TABLE s" "list_head (release a n s) = list_head s"
  "list_tail (release a n s) = list_tail s" "CACHE_SIZE (release a n s) = CACHE_SIZE s"
  "fresh (release a n s) = fresh s" "inodes (release a n s) = inodes s"
  "g_eviction_policy (release a n s) = g_eviction_policy s"
  "fresh_inode (release a n s) = fresh_inode s" "g_cache_dir (release a n s) = g_cache_dir s"
  by (auto simp: release_def Let_def split: option.split)

lemma views_del:
  assumes "a \<notin> set xs"
  shows "map (node_size (h(a := None))) xs = map (node_size h) xs"
    "bucket (h(a := None)) xs i = bucket h xs i"
  using assms by (auto simp: node_size_def bucket_def node_url_def intro!: filter_cong map_cong)

lemma sum_list_remove1:
  fixes f :: "'a \<Rightarrow> size_t"
  shows "a \<in> set xs \<Longrightarrow> sum_list (map f (remove1 a xs)) = sum_list (map f xs) - f a"
  by (induction xs) (auto simp: algebra_simps)

lemma detached_law:
  assumes r: "rep s xs ys" and a: "a \<in> set xs"
    and u: "dll u (remove1 a xs)" "hash_chains u (remove1 a ys)" "payload (heap u) = payload (heap s)"
      "CACHE_SIZE u = CACHE_SIZE s" "fresh u = fresh s"
    and n: "payload (heap s) a = Some (strip n)"
  shows "rep (release a n (u\<lparr>CACHE_SIZE := CACHE_SIZE u - element_size (CLENGTH n) (URL n)\<rparr>))
    (remove1 a xs) (remove1 a ys)"
proof -
  let ?t = "release a n (u\<lparr>CACHE_SIZE := CACHE_SIZE u - element_size (CLENGTH n) (URL n)\<rparr>)"
  have dx: "distinct xs" "distinct ys" "set ys = set xs" "dom (heap s) = set xs"
    using r dll_distinct by (auto simp: rep_def)
  have nx: "a \<notin> set (remove1 a xs)" "a \<notin> set (remove1 a ys)" using dx by simp_all
  have "dll ?t (remove1 a xs)" using u(1) nx by (simp add: dll_def)
  moreover have "hash_chains ?t (remove1 a ys)"
  proof -
    have "a \<notin> set (bucket (heap u) (remove1 a ys) i)" for i using nx(2) by (simp add: bucket_def)
    then show ?thesis using u(2) views_del(2) [OF nx(2)] by (simp add: hash_chains_def)
  qed
  moreover have "dom (heap ?t) = set (remove1 a xs)"
    using dx payload_eq_dom [OF u(3)] by simp
  moreover have "CACHE_SIZE ?t = sum_list (map (node_size (heap ?t)) (remove1 a xs))"
  proof -
    have "node_size (heap u) = node_size (heap s)" using u(3) by (rule payload_views)
    moreover have "node_size (heap u) a = element_size (CLENGTH n) (URL n)"
      using n u(3) by (simp add: node_size_def strip_def)
    moreover have "CACHE_SIZE u = sum_list (map (node_size (heap s)) xs)"
      using r u(4) by (simp add: rep_def)
    ultimately have "CACHE_SIZE u - element_size (CLENGTH n) (URL n) =
        sum_list (map (node_size (heap u)) (remove1 a xs))"
      using sum_list_remove1 [OF a, of "node_size (heap s)"] by simp
    then show ?thesis
      by (simp add: views_del(1) [OF nx(1)] del: map_eq_conv)
  qed
  moreover have "\<forall>b \<in> set (remove1 a xs). b < fresh ?t"
    using r u(5) set_remove1_subset [of a xs] by (auto simp: rep_def)
  ultimately show ?thesis using dx by (simp add: rep_def)
qed

section \<open>Eviction\<close>

definition victim_of :: "CacheEvictionPolicy \<Rightarrow> node_heap \<Rightarrow> addr list \<Rightarrow> addr" where
  \<comment> \<open>the specification: the head of the list, or its first node with the fewest accesses, or its
      first node with the earliest expiry\<close>
  "victim_of policy h xs =
     (case policy of
        EVICT_LRU \<Rightarrow> hd xs
      | EVICT_LFU \<Rightarrow> hd (filter (\<lambda>a. \<forall>b \<in> set xs. \<not> fewer_accesses (the (h b)) (the (h a))) xs)
      | EVICT_TTL \<Rightarrow> hd (filter (\<lambda>a. \<forall>b \<in> set xs. \<not> expires_before (the (h b)) (the (h a))) xs))"

lemma fold_first_min_hd:
  fixes key :: "'a \<Rightarrow> int"
  assumes "xs \<noteq> []"
  shows "fold (\<lambda>a b. if key a < key b then a else b) xs (hd xs) =
    hd (filter (\<lambda>a. \<forall>b \<in> set xs. \<not> key b < key a) xs)"
proof -
  let ?v = "fold (\<lambda>a b. if key a < key b then a else b) xs (hd xs)"
  obtain us vs where s: "xs = us @ ?v # vs" "\<forall>u \<in> set us. key ?v < key u" "\<forall>w \<in> set vs. key ?v \<le> key w"
  proof (cases "?v = hd xs \<and> (\<forall>x \<in> set xs. key (hd xs) \<le> key x)")
    case True
    then have "xs = [] @ ?v # tl xs" using assms by simp
    moreover have "\<forall>w \<in> set (tl xs). key ?v \<le> key w" using True assms by (simp add: list.set_sel(2))
    ultimately show thesis using that [of "[]" "tl xs"] by simp
  next
    case False
    then show thesis using fold_first_min [of key xs "hd xs"] that by blast
  qed
  have eq: "set xs = set (us @ ?v # vs)" using s(1) by (rule arg_cong)
  have min: "\<forall>b \<in> set xs. \<not> key b < key ?v"
    unfolding eq using s(2,3) by fastforce
  have none: "filter (\<lambda>a. \<forall>b \<in> set xs. \<not> key b < key a) us = []"
  proof (rule filter_False, intro ballI notI)
    fix u assume "u \<in> set us" "\<forall>b \<in> set xs. \<not> key b < key u"
    moreover have "?v \<in> set xs" by (subst eq) simp
    ultimately show False using s(2) by blast
  qed
  have "filter (\<lambda>a. \<forall>b \<in> set xs. \<not> key b < key a) (us @ ?v # vs) =
      ?v # filter (\<lambda>a. \<forall>b \<in> set xs. \<not> key b < key a) vs"
    using none min by simp
  then have "hd (filter (\<lambda>a. \<forall>b \<in> set xs. \<not> key b < key a) (us @ ?v # vs)) = ?v"
    by simp
  then show ?thesis by (metis s(1))
qed

lemma hd_min_mem:
  fixes key :: "'a \<Rightarrow> int"
  assumes "xs \<noteq> []"
  shows "hd (filter (\<lambda>a. \<forall>b \<in> set xs. \<not> key b < key a) xs) \<in> set xs"
proof -
  have "Min (key ` set xs) \<in> key ` set xs" using assms by (intro Min_in) auto
  then obtain a where a: "a \<in> set xs" "key a = Min (key ` set xs)" by auto
  then have "\<forall>b \<in> set xs. \<not> key b < key a" by (simp add: not_less)
  with a(1) have "filter (\<lambda>a. \<forall>b \<in> set xs. \<not> key b < key a) xs \<noteq> []"
    by (auto simp: filter_empty_conv)
  then have "hd (filter (\<lambda>a. \<forall>b \<in> set xs. \<not> key b < key a) xs) \<in> set (filter (\<lambda>a. \<forall>b \<in> set xs. \<not> key b < key a) xs)"
    by (rule hd_in_set)
  then show ?thesis by simp
qed

lemma victim_of_mem: "xs \<noteq> [] \<Longrightarrow> victim_of policy h xs \<in> set xs"
  using hd_min_mem [of xs "\<lambda>a. sint (access_count (the (h a)))"]
    hd_min_mem [of xs "\<lambda>a. expires_at (the (h a))"]
  by (cases policy) (simp_all add: victim_of_def fewer_accesses_def expires_before_def)

lemma pick_victim_law:
  assumes "dll s xs" "xs \<noteq> []"
  shows "pick_victim (hd xs) s = Some (victim_of (g_eviction_policy s) (heap s) xs)"
proof -
  have p: "path (nextL (heap s)) (Some (hd xs)) xs"
    using assms path_first [of "nextL (heap s)" "list_head s" xs] by (cases xs) (auto simp: dll_def)
  have d: "hd xs \<in> dom (heap s)"
    using path_dom [OF p, of "hd xs"] assms(2) by (auto simp: nextL_def)
  note scan = victim_scan_law [OF p d]
  show ?thesis
    using fold_first_min_hd [OF assms(2), of "\<lambda>a. sint (access_count (the (heap s a)))"]
      fold_first_min_hd [OF assms(2), of "\<lambda>a. expires_at (the (heap s a))"]
    by (cases "g_eviction_policy s")
      (simp_all add: pick_victim_def victim_of_def scan fewer_accesses_def expires_before_def)
qed

lemma rep_bucket_split:
  assumes "rep s xs ys" "a \<in> set xs" "heap s a = Some n"
  obtains us vs where "bucket (heap s) ys (hash_url (URL n)) = us @ a # vs"
    and "HASH_TABLE s (hash_url (URL n)) = first_of (us @ a # vs)"
    and "path (chainL (heap s)) (HASH_TABLE s (hash_url (URL n))) (us @ a # vs)"
proof -
  have "a \<in> set (bucket (heap s) ys (hash_url (URL n)))"
    using assms mem_bucket [of a ys "heap s"] by (simp add: rep_def node_url_heap)
  then obtain us vs where b: "bucket (heap s) ys (hash_url (URL n)) = us @ a # vs" by (meson split_list)
  then have p: "path (chainL (heap s)) (HASH_TABLE s (hash_url (URL n))) (us @ a # vs)"
    using assms(1) by (metis rep_def hash_chains_def)
  then show thesis using that b path_first by blast
qed

lemma rep_heap: "rep s xs ys \<Longrightarrow> a \<in> set xs \<Longrightarrow> \<exists>n. heap s a = Some n"
  by (auto simp: rep_def)

lemma payload_heap: "payload h a = Some (strip n) \<Longrightarrow> \<exists>m. h a = Some m \<and> strip m = strip n"
  by (auto simp: payload_def)

lemma strip_fields:
  assumes "strip m = strip n"
  shows "URL m = URL n" "CLENGTH m = CLENGTH n" "expires_at m = expires_at n" "DATA m = DATA n"
    "access_count m = access_count n"
  using assms by (auto simp: strip_def dest: arg_cong [of _ _ URL] arg_cong [of _ _ CLENGTH]
      arg_cong [of _ _ expires_at] arg_cong [of _ _ DATA] arg_cong [of _ _ access_count])

lemma RemoveCache_empty: "rep s [] ys \<Longrightarrow> RemoveCache s = Some s"
  by (auto simp: rep_def RemoveCache_def dll_ends)

definition keeps :: "cache \<Rightarrow> cache \<Rightarrow> bool" where
  \<comment> \<open>the parts of a state that removing entries leaves alone\<close>
  "keeps s t \<longleftrightarrow> g_eviction_policy t = g_eviction_policy s \<and> inodes t = inodes s \<and> fresh t = fresh s \<and>
     fresh_inode t = fresh_inode s \<and> g_cache_dir t = g_cache_dir s"

lemma RemoveCache_law:
  assumes r: "rep s xs ys" and ne: "xs \<noteq> []"
  defines "v \<equiv> victim_of (g_eviction_policy s) (heap s) xs"
  shows "\<exists>t. RemoveCache s = Some t \<and> rep t (remove1 v xs) (remove1 v ys) \<and>
    payload (heap t) = (payload (heap s))(v := None) \<and> keeps s t"
proof -
  have d: "dll s xs" using r by (simp add: rep_def)
  have hd: "list_head s = Some (hd xs)" using dll_ends(2) [OF d] ne by (cases xs) auto
  have pick: "pick_victim (hd xs) s = Some v" unfolding v_def by (rule pick_victim_law [OF d ne])
  have vx: "v \<in> set xs" unfolding v_def using ne by (rule victim_of_mem)
  then obtain ps qs where xs: "xs = ps @ v # qs" by (meson split_list)
  have rx: "remove1 v xs = ps @ qs" using dll_distinct [OF d] xs by (simp add: remove1_split)
  from d xs obtain t where t: "list_remove v s = Some t" "dll t (ps @ qs)" "list_frame s t"
    using list_remove_law by blast
  note f = list_frameD [OF t(3)]
  from r vx obtain n0 where "heap s v = Some n0" using rep_heap by blast
  then have "payload (heap t) v = Some (strip n0)" using f(1) by (simp add: payload_def)
  then obtain n where n: "heap t v = Some n" using payload_heap by blast
  have pn: "payload (heap s) v = Some (strip n)" using n fun_cong [OF f(1), of v] by (simp add: payload_def)
  have ch: "hash_chains t ys" using r f by (auto simp: rep_def intro: hash_chains_cong)
  define h where "h = hash_url (URL n)"
  have "v \<in> set (bucket (heap t) ys h)"
    using vx r n mem_bucket [of v ys "heap t"] by (simp add: rep_def node_url_heap h_def)
  then obtain us vs where b: "bucket (heap t) ys h = us @ v # vs" by (meson split_list)
  have p: "path (chainL (heap t)) (HASH_TABLE t h) (us @ v # vs)"
    using ch unfolding hash_chains_def b [symmetric] by (rule spec)
  have dist: "distinct (us @ v # vs)" using p by (rule path_distinct)
  from chain_unlink_law [OF ch n h_def b] obtain u where
    u: "chain_unlink (if us = [] then None else Some (last us)) h n t = Some u"
      "hash_chains u (remove1 v ys)" "chain_frame t u" by blast
  note g = chain_frameD [OF u(3)]
  let ?w = "release v n (u\<lparr>CACHE_SIZE := CACHE_SIZE u - element_size (CLENGTH n) (URL n)\<rparr>)"
  have du: "dll u (remove1 v xs)" unfolding rx using t(2) g by (auto intro: dll_cong)
  have "rep ?w (remove1 v xs) (remove1 v ys)"
    by (rule detached_law [OF r vx du u(2) _ _ _ pn]) (simp_all add: f g)
  moreover have "RemoveCache s = Some ?w"
  proof (cases us rule: rev_cases)
    case Nil
    then have "HASH_TABLE t h = Some v" using path_first [OF p] by simp
    with hd pick t(1) n u(1) Nil show ?thesis by (simp add: RemoveCache_def h_def Let_def)
  next
    case (snoc ws z)
    then have "HASH_TABLE t h \<noteq> Some v" using path_first [OF p] dist by (cases ws) auto
    moreover have "chain_pred (heap t) v (HASH_TABLE t h) = Some (Some z)"
      using p snoc chain_pred_law [of "heap t" "HASH_TABLE t h" ws z v vs] by simp
    ultimately show ?thesis
      using hd pick t(1) n u(1) snoc by (simp add: RemoveCache_def h_def Let_def)
  qed
  ultimately show ?thesis using f g by (auto simp: keeps_def)
qed

section \<open>Lookup and purge\<close>

lemma find_bucket:
  "find (\<lambda>a. node_url h a = url) (bucket h ys (hash_url url)) = find (\<lambda>a. node_url h a = url) ys"
  by (induction ys) (auto simp: bucket_def)

lemma find_split: "find P xs = Some a \<Longrightarrow> \<exists>us vs. xs = us @ a # vs \<and> P a \<and> (\<forall>u \<in> set us. \<not> P u)"
proof (induction xs)
  case (Cons x xs)
  show ?case
  proof (cases "P x")
    case True
    with Cons.prems show ?thesis by (intro exI [of _ "[]"] exI [of _ xs]) simp
  next
    case False
    with Cons obtain us vs where "xs = us @ a # vs" "P a" "\<forall>u \<in> set us. \<not> P u" by auto
    with False show ?thesis by (intro exI [of _ "x # us"] exI [of _ vs]) simp
  qed
qed simp

lemma find_None_all: "find P xs = None \<Longrightarrow> \<forall>x \<in> set xs. \<not> P x"
  by (simp add: find_None_iff)

lemma Cache_purge_none:
  assumes "rep s xs ys" "find (\<lambda>a. node_url (heap s) a = url) ys = None"
  shows "Cache_purge url s = Some s"
proof -
  have "\<forall>a \<in> set (bucket (heap s) ys (hash_url url)). node_url (heap s) a \<noteq> url"
    using assms(2) find_bucket [of "heap s" url ys] by (intro find_None_all) simp
  then have "purge_find (heap s) url None (HASH_TABLE s (hash_url url)) = Some None"
    using assms(1) by (intro purge_find_none) (auto simp: rep_def hash_chains_def)
  then show ?thesis by (simp add: Cache_purge_def)
qed

lemma Cache_purge_some:
  assumes r: "rep s xs ys" and fa: "find (\<lambda>a. node_url (heap s) a = url) ys = Some a"
  shows "\<exists>t. Cache_purge url s = Some t \<and> rep t (remove1 a xs) (remove1 a ys) \<and>
    payload (heap t) = (payload (heap s))(a := None) \<and> keeps s t"
proof -
  have ax: "a \<in> set xs" using r find_split [OF fa] by (auto simp: rep_def)
  from find_split [of "\<lambda>a. node_url (heap s) a = url" "bucket (heap s) ys (hash_url url)" a]
  obtain us vs where b: "bucket (heap s) ys (hash_url url) = us @ a # vs" "node_url (heap s) a = url"
    "\<forall>u \<in> set us. node_url (heap s) u \<noteq> url" using fa find_bucket [of "heap s" url ys] by auto
  obtain n where n: "heap s a = Some n" using r ax rep_heap by blast
  have url: "URL n = url" using b(2) n by (simp add: node_url_heap)
  have ch: "hash_chains s ys" using r by (simp add: rep_def)
  have p: "path (chainL (heap s)) (HASH_TABLE s (hash_url url)) (us @ a # vs)"
    using ch b(1) by (metis hash_chains_def)
  have pf: "purge_find (heap s) url None (HASH_TABLE s (hash_url url)) =
      Some (Some (if us = [] then None else Some (last us), a))"
    using purge_find_some [OF p b(3,2)] by simp
  from chain_unlink_law [OF ch n, of "hash_url url" us vs] b(1) url obtain u where
    u: "chain_unlink (if us = [] then None else Some (last us)) (hash_url url) n s = Some u"
      "hash_chains u (remove1 a ys)" "chain_frame s u" by auto
  note g = chain_frameD [OF u(3)]
  from ax obtain ps qs where xs: "xs = ps @ a # qs" by (meson split_list)
  have du: "dll u xs" using r g by (auto simp: rep_def intro: dll_cong)
  have rx: "remove1 a xs = ps @ qs" using dll_distinct [OF du] xs by (simp add: remove1_split)
  from du xs obtain t where t: "list_remove a u = Some t" "dll t (ps @ qs)" "list_frame u t"
    using list_remove_law by blast
  note f = list_frameD [OF t(3)]
  have "payload (heap t) a = Some (strip n)" using f(1) g(1) n by (simp add: payload_def)
  then obtain m where m: "heap t a = Some m" "strip m = strip n" using payload_heap by blast
  have pm: "payload (heap s) a = Some (strip m)" using n m(2) by (simp add: payload_def)
  let ?w = "release a m (t\<lparr>CACHE_SIZE := CACHE_SIZE t - element_size (CLENGTH m) (URL m)\<rparr>)"
  have ct: "hash_chains t (remove1 a ys)" using u(2) f by (auto intro: hash_chains_cong)
  have dt: "dll t (remove1 a xs)" unfolding rx by (rule t(2))
  have "rep ?w (remove1 a xs) (remove1 a ys)"
    by (rule detached_law [OF r ax dt ct _ _ _ pm]) (simp_all add: f g)
  moreover have "Cache_purge url s = Some ?w"
    using pf n u(1) t(1) m(1) by (simp add: Cache_purge_def Let_def)
  ultimately show ?thesis using f g by (auto simp: keeps_def)
qed

end
