(* ===== verification/Cache_Ops.thy ===== *)
theory Cache_Ops
  imports Cache_Correct
begin

text \<open>
  The contract of the response cache as a specification over two lists, and the refinement: every
  public operation of \<^verbatim>\<open>cache.c\<close> returns and does to the linked structures what the specification
  does to the lists.
\<close>

section \<open>The specification\<close>

record spec_cache =
  evict_order :: "addr list"
  by_age :: "addr list"
  entries :: "addr \<Rightarrow> CacheModule option"
  next_addr :: addr
  policy :: CacheEvictionPolicy

definition spec_lookup :: "string \<Rightarrow> spec_cache \<Rightarrow> addr option" where
  "spec_lookup url A = find (\<lambda>a. URL (the (entries A a)) = url) (by_age A)"

definition spec_drop :: "addr \<Rightarrow> spec_cache \<Rightarrow> spec_cache" where
  "spec_drop a A =
     A\<lparr>evict_order := remove1 a (evict_order A), by_age := remove1 a (by_age A),
       entries := (entries A)(a := None)\<rparr>"

definition spec_evict :: "spec_cache \<Rightarrow> spec_cache" where
  "spec_evict A =
     (if evict_order A = [] then A
      else spec_drop (victim_of (policy A) (entries A) (evict_order A)) A)"

definition spec_purge :: "string \<Rightarrow> spec_cache \<Rightarrow> spec_cache" where
  "spec_purge url A = (case spec_lookup url A of None \<Rightarrow> A | Some a \<Rightarrow> spec_drop a A)"

definition spec_touch :: "int \<Rightarrow> addr \<Rightarrow> spec_cache \<Rightarrow> spec_cache" where
  "spec_touch now a A =
     A\<lparr>entries := (entries A)(a := map_option (\<lambda>n. n\<lparr>UPTIME := now, access_count := access_count n + 1\<rparr>) (entries A a)),
       evict_order := (if policy A = EVICT_LRU then remove1 a (evict_order A) @ [a] else evict_order A)\<rparr>"

definition spec_find :: "int \<Rightarrow> string \<Rightarrow> spec_cache \<Rightarrow> addr option \<times> spec_cache" where
  "spec_find now url A =
     (case spec_lookup url A of
        None \<Rightarrow> (None, A)
      | Some a \<Rightarrow>
          if 0 < expires_at (the (entries A a)) \<and> expires_at (the (entries A a)) < now
          then (None, spec_purge url A) else (Some a, spec_touch now a A))"

definition spec_bytes :: "spec_cache \<Rightarrow> size_t" where
  "spec_bytes A =
     sum_list (map (\<lambda>a. element_size (CLENGTH (the (entries A a))) (URL (the (entries A a)))) (evict_order A))"

lemma spec_evict_shrinks:
  "evict_order A \<noteq> [] \<Longrightarrow> length (evict_order (spec_evict A)) < length (evict_order A)"
  using victim_of_mem [of "evict_order A" "policy A" "entries A"]
  by (simp add: spec_evict_def spec_drop_def length_remove1)

function spec_fit :: "size_t \<Rightarrow> size_t \<Rightarrow> spec_cache \<Rightarrow> spec_cache" where
  "spec_fit limit es A =
     (if spec_bytes A + es > limit \<and> evict_order A \<noteq> [] then spec_fit limit es (spec_evict A) else A)"
  by auto
termination
  by (relation "measure (\<lambda>(limit, es, A). length (evict_order A))") (auto simp: spec_evict_shrinks)

declare spec_fit.simps [simp del]

definition spec_insert :: "CacheModule \<Rightarrow> spec_cache \<Rightarrow> spec_cache" where
  "spec_insert n A =
     A\<lparr>evict_order := evict_order A @ [next_addr A], by_age := next_addr A # by_age A,
       entries := (entries A)(next_addr A \<mapsto> strip n), next_addr := next_addr A + 1\<rparr>"

section \<open>The refinement relation\<close>

definition refines :: "cache \<Rightarrow> spec_cache \<Rightarrow> bool" where
  "refines s A \<longleftrightarrow>
     rep s (evict_order A) (by_age A) \<and> payload (heap s) = entries A \<and> fresh s = next_addr A \<and>
     g_eviction_policy s = policy A"

lemma refinesD:
  assumes "refines s A"
  shows "rep s (evict_order A) (by_age A)" "payload (heap s) = entries A" "fresh s = next_addr A"
    "g_eviction_policy s = policy A"
  using assms by (simp_all add: refines_def)

lemma refines_inv: "refines s A \<Longrightarrow> cache_inv s"
  by (auto simp: refines_def cache_inv_def)

lemma inv_refines: "cache_inv s \<Longrightarrow> \<exists>A. refines s A"
proof -
  assume "cache_inv s"
  then obtain xs ys where "rep s xs ys" by (auto simp: cache_inv_def)
  then have "refines s \<lparr>evict_order = xs, by_age = ys, entries = payload (heap s), next_addr = fresh s,
      policy = g_eviction_policy s\<rparr>" by (simp add: refines_def)
  then show ?thesis by blast
qed

lemma refines_node:
  assumes "refines s A" "a \<in> set (evict_order A)"
  obtains n where "heap s a = Some n" "entries A a = Some (strip n)"
proof -
  from assms obtain n where "heap s a = Some n" using rep_heap refinesD(1) by blast
  with fun_cong [OF refinesD(2) [OF assms(1)], of a] that show thesis by (simp add: payload_def)
qed

lemma refines_url:
  assumes "refines s A"
  shows "node_url (heap s) = (\<lambda>a. URL (the (entries A a)))"
  using refinesD(2) [OF assms] by (simp add: node_url_def fun_eq_iff)

lemma refines_lookup: "refines s A \<Longrightarrow> find (\<lambda>a. node_url (heap s) a = url) (by_age A) = spec_lookup url A"
  by (simp add: refines_url spec_lookup_def)

lemma refines_bytes: "refines s A \<Longrightarrow> CACHE_SIZE s = spec_bytes A"
  by (simp add: refines_def rep_def node_size_def [abs_def] spec_bytes_def)

lemma spec_lookup_mem: "spec_lookup url A = Some a \<Longrightarrow> a \<in> set (by_age A) \<and> URL (the (entries A a)) = url"
  by (auto simp: spec_lookup_def find_Some_iff)

lemma refines_sets: "refines s A \<Longrightarrow> set (by_age A) = set (evict_order A)"
  by (simp add: refines_def rep_def)

lemma victim_of_payload:
  "set xs \<subseteq> dom h \<Longrightarrow> victim_of pol (payload h) xs = victim_of pol h xs"
proof -
  assume d: "set xs \<subseteq> dom h"
  then have "access_count (the (payload h a)) = access_count (the (h a))"
    "expires_at (the (payload h a)) = expires_at (the (h a))" if "a \<in> set xs" for a
    using that by (auto simp: payload_def strip_def)
  then show ?thesis
    by (cases pol) (simp_all add: victim_of_def fewer_accesses_def expires_before_def cong: filter_cong)
qed

section \<open>Eviction and purge\<close>

lemma RemoveCache_refines:
  assumes "refines s A"
  shows "\<exists>t. RemoveCache s = Some t \<and> refines t (spec_evict A) \<and> keeps s t"
proof (cases "evict_order A = []")
  case True
  then have "RemoveCache s = Some s" using refinesD(1) [OF assms] RemoveCache_empty by simp
  with True assms show ?thesis by (simp add: spec_evict_def keeps_def)
next
  case False
  note r = refinesD [OF assms]
  have "victim_of (policy A) (entries A) (evict_order A) = victim_of (policy A) (heap s) (evict_order A)"
    using victim_of_payload [of "evict_order A" "heap s" "policy A"] r by (auto simp: rep_def)
  with RemoveCache_law [OF r(1) False] r False show ?thesis
    by (auto simp: refines_def spec_evict_def spec_drop_def keeps_def)
qed

lemma Cache_purge_refines:
  assumes "refines s A"
  shows "\<exists>t. Cache_purge url s = Some t \<and> refines t (spec_purge url A) \<and> keeps s t"
proof (cases "spec_lookup url A")
  case None
  with Cache_purge_none [OF refinesD(1) [OF assms]] assms show ?thesis
    by (auto simp: spec_purge_def keeps_def refines_lookup)
next
  case (Some a)
  with Cache_purge_some [OF refinesD(1) [OF assms], of url a] assms show ?thesis
    by (auto simp: refines_def spec_purge_def spec_drop_def keeps_def refines_lookup)
qed

section \<open>Lookup\<close>

lemma rep_touch:
  assumes r: "rep s xs ys" and n: "heap s a = Some n"
    and f: "URL (f n) = URL n" "CLENGTH (f n) = CLENGTH n" "NEXT (f n) = NEXT n"
      "prev_lru (f n) = prev_lru n" "next_lru (f n) = next_lru n"
  shows "rep (s\<lparr>heap := (heap s)(a \<mapsto> f n)\<rparr>) xs ys"
proof -
  let ?h = "(heap s)(a \<mapsto> f n)"
  have v: "nextL ?h = nextL (heap s)" "prevL ?h = prevL (heap s)" "chainL ?h = chainL (heap s)"
    using n f view_triv [of "heap s" a n] by (simp_all del: fun_upd_apply)
  have u: "node_url ?h = node_url (heap s)" "node_size ?h = node_size (heap s)"
    using n f by (auto simp: node_url_def node_size_def fun_eq_iff payload_def strip_def)
  then have b: "bucket ?h = bucket (heap s)" by (simp add: bucket_def fun_eq_iff)
  have "dom ?h = dom (heap s)" using n by auto
  with r v u b show ?thesis
    by (simp add: rep_def dll_def hash_chains_def del: view_upd)
qed

lemma list_move_to_end_law:
  assumes r: "rep s xs ys" and a: "a \<in> set xs"
  shows "\<exists>t. list_move_to_end a s = Some t \<and> rep t (remove1 a xs @ [a]) ys \<and> list_frame s t"
proof -
  from a obtain ps qs where xs: "xs = ps @ a # qs" by (meson split_list)
  have d: "dll s (ps @ a # qs)" using r xs by (simp add: rep_def)
  have dx: "distinct (ps @ a # qs)" using d by (rule dll_distinct)
  then have rx: "remove1 a xs = ps @ qs" unfolding xs by (rule remove1_split)
  from list_remove_law [OF d] obtain t where
    t: "list_remove a s = Some t" "dll t (ps @ qs)" "list_frame s t" by blast
  note f = list_frameD [OF t(3)]
  from r a obtain n where "heap s a = Some n" using rep_heap by blast
  then have "payload (heap t) a = Some (strip n)" using f(1) by (simp add: payload_def)
  then obtain m where "heap t a = Some m" using payload_heap by blast
  from list_append_law [OF t(2) this] dx obtain u where
    u: "list_append a t = Some u" "dll u (ps @ qs @ [a])" "list_frame t u" by auto
  note g = list_frameD [OF u(3)]
  have fr: "list_frame s u" using t(3) u(3) by (auto simp: list_frame_def elim!: subst)
  have pu: "payload (heap u) = payload (heap s)" using f g by simp
  have "hash_chains u ys"
    using r f g by (intro hash_chains_cong [of s ys u]) (auto simp: rep_def)
  moreover have "sum_list (map (node_size (heap u)) (ps @ qs @ [a])) = sum_list (map (node_size (heap s)) xs)"
    unfolding xs payload_views(2) [OF pu] by (simp add: ac_simps)
  moreover have "set (ps @ qs @ [a]) = set xs" unfolding xs by auto
  moreover have "dom (heap u) = dom (heap s)" using pu by (rule payload_eq_dom)
  ultimately have "rep u (remove1 a xs @ [a]) ys"
    using r u(2) f(4,5) g(4,5) unfolding rx by (simp add: rep_def)
  moreover have "list_move_to_end a s = Some u" using t(1) u(1) by (simp add: list_move_to_end_def)
  ultimately show ?thesis using fr by blast
qed

lemma FindCache_refines:
  assumes "refines s A"
  shows "\<exists>t. FindCache now url s = Some (fst (spec_find now url A), t) \<and>
    refines t (snd (spec_find now url A)) \<and> keeps s t"
proof -
  note r = refinesD [OF assms]
  have "chain_find (heap s) url (HASH_TABLE s (hash_url url)) =
      Some (find (\<lambda>a. node_url (heap s) a = url) (bucket (heap s) (by_age A) (hash_url url)))"
    using r(1) by (intro chain_find_law) (auto simp: rep_def hash_chains_def)
  then have cf: "chain_find (heap s) url (HASH_TABLE s (hash_url url)) = Some (spec_lookup url A)"
    using refines_lookup [OF assms] by (simp add: find_bucket)
  show ?thesis
  proof (cases "spec_lookup url A")
    case None
    with cf assms show ?thesis by (simp add: FindCache_def spec_find_def keeps_def)
  next
    case (Some a)
    then have a: "a \<in> set (evict_order A)" using spec_lookup_mem refines_sets [OF assms] by blast
    from refines_node [OF assms a] obtain n where n: "heap s a = Some n" "entries A a = Some (strip n)" .
    have ex: "expires_at (strip n) = expires_at n" by (simp add: strip_def)
    show ?thesis
    proof (cases "0 < expires_at n \<and> expires_at n < now")
      case True
      with Cache_purge_refines [OF assms, of url] cf Some n ex show ?thesis
        by (auto simp: FindCache_def spec_find_def)
    next
      case False
      let ?f = "\<lambda>n. n\<lparr>UPTIME := now, access_count := access_count n + 1\<rparr>"
      let ?s = "s\<lparr>heap := (heap s)(a \<mapsto> ?f n)\<rparr>"
      have rs: "rep ?s (evict_order A) (by_age A)" by (rule rep_touch [OF r(1) n(1)]) simp_all
      have st: "strip (?f n) = ?f (strip n)" by (simp add: strip_def)
      then have ps: "payload (heap ?s) = entries (spec_touch now a A)"
        using r(2) n(2) by (auto simp: spec_touch_def)
      have go: "FindCache now url s =
          (if g_eviction_policy s = EVICT_LRU then map_option (Pair (Some a)) (list_move_to_end a ?s)
           else Some (Some a, ?s))"
        using cf Some n False by (cases "list_move_to_end a ?s") (auto simp: FindCache_def upd_node_def)
      have spec: "spec_find now url A = (Some a, spec_touch now a A)"
        using Some n ex False by (auto simp: spec_find_def)
      show ?thesis
      proof (cases "policy A = EVICT_LRU")
        case True
        from list_move_to_end_law [OF rs a] obtain t where
          t: "list_move_to_end a ?s = Some t" "rep t (remove1 a (evict_order A) @ [a]) (by_age A)"
            "list_frame ?s t" by blast
        note f = list_frameD [OF t(3)]
        have "refines t (spec_touch now a A)"
          using t(2) f ps r True by (simp add: refines_def) (simp add: spec_touch_def)
        with go spec t(1) r(4) True f show ?thesis by (simp add: keeps_def)
      next
        case False
        have "refines ?s (spec_touch now a A)"
          using rs ps r False by (simp add: refines_def) (simp add: spec_touch_def)
        with go spec r(4) False show ?thesis by (simp add: keeps_def)
      qed
    qed
  qed
qed

section \<open>Making room\<close>

lemma keeps_trans: "keeps s t \<Longrightarrow> keeps t u \<Longrightarrow> keeps s u"
  by (simp add: keeps_def)

lemma refines_empty: "refines s A \<Longrightarrow> list_head s = None \<longleftrightarrow> evict_order A = []"
  using dll_ends(2) [of s "evict_order A"] by (cases "evict_order A") (auto simp: refines_def rep_def)

lemma evict_loop_refines:
  "refines s A \<Longrightarrow> \<exists>t. evict_loop limit es s = Some t \<and> refines t (spec_fit limit es A) \<and> keeps s t"
proof (induction limit es A arbitrary: s rule: spec_fit.induct)
  case (1 limit es A)
  note b = refines_bytes [OF "1.prems"] and e = refines_empty [OF "1.prems"]
  show ?case
  proof (cases "spec_bytes A + es > limit \<and> evict_order A \<noteq> []")
    case True
    from RemoveCache_refines [OF "1.prems"] obtain t where
      t: "RemoveCache s = Some t" "refines t (spec_evict A)" "keeps s t" by blast
    from "1.IH" [OF True t(2)] obtain u where
      u: "evict_loop limit es t = Some u" "refines u (spec_fit limit es (spec_evict A))" "keeps t u" by blast
    have "evict_loop limit es s = Some u"
      using True b e t(1) u(1) by (subst evict_loop.simps) simp
    moreover have "spec_fit limit es A = spec_fit limit es (spec_evict A)"
      using True by (subst spec_fit.simps) simp
    ultimately show ?thesis using u keeps_trans [OF t(3) u(3)] by simp
  next
    case False
    then have "evict_loop limit es s = Some s" using b e by (subst evict_loop.simps) auto
    moreover have "spec_fit limit es A = A" using False by (subst spec_fit.simps) auto
    ultimately show ?thesis using "1.prems" by (simp add: keeps_def)
  qed
qed

lemma spec_fit_room: "evict_order (spec_fit limit es A) = [] \<or> spec_bytes (spec_fit limit es A) + es \<le> limit"
proof (induction limit es A rule: spec_fit.induct)
  case (1 limit es A)
  then show ?case by (subst (1 2) spec_fit.simps) auto
qed

lemma spec_bytes_empty: "evict_order A = [] \<Longrightarrow> spec_bytes A = 0"
  by (simp add: spec_bytes_def)

lemma spec_evict_lru:
  "policy A = EVICT_LRU \<Longrightarrow> evict_order A = x # xs \<Longrightarrow> evict_order (spec_evict A) = xs"
  by (simp add: spec_evict_def spec_drop_def victim_of_def)

lemma spec_evict_policy [simp]: "policy (spec_evict A) = policy A" "next_addr (spec_evict A) = next_addr A"
  by (simp_all add: spec_evict_def spec_drop_def)

lemma spec_evict_subset:
  "set (evict_order (spec_evict A)) \<subseteq> set (evict_order A)"
  using set_remove1_subset [of _ "evict_order A"] by (auto simp: spec_evict_def spec_drop_def)

section \<open>Storing a new entry\<close>

lemma refines_other:
  assumes "refines s A" "heap t = heap s" "HASH_TABLE t = HASH_TABLE s" "list_head t = list_head s"
    "list_tail t = list_tail s" "CACHE_SIZE t = CACHE_SIZE s" "fresh t = fresh s"
    "g_eviction_policy t = g_eviction_policy s"
  shows "refines t A"
  using assms by (auto simp: refines_def rep_def dll_def hash_chains_def)

definition stored_on_disk :: "add_env \<Rightarrow> int \<Rightarrow> bool" where
  "stored_on_disk env sz \<longleftrightarrow> sz > 128 * 1024 \<and> open_ok env \<and> write_result env = sz \<and> mmap_ok env"

lemma store_on_disk_law:
  assumes "refines s A" "0 \<le> sz" "nat sz \<le> length d"
  shows "\<exists>disk t. store_on_disk env d sz url s = Some (disk, t) \<and> refines t A \<and>
    (disk \<noteq> None \<longleftrightarrow> stored_on_disk env sz) \<and>
    (case disk of None \<Rightarrow> True | Some (p, i) \<Rightarrow> inodes t i = take (nat sz) d)"
proof (cases "sz > 128 * 1024 \<and> open_ok env")
  case False
  with assms show ?thesis by (auto simp: store_on_disk_def stored_on_disk_def)
next
  case True
  let ?p = "cache_file_name (g_cache_dir s) url (time_path env)"
  have rd: "read_buf d sz = Some (take (nat sz) d)" using assms by (simp add: read_buf_def)
  show ?thesis
  proof (cases "files s ?p")
    case None
    with True rd show ?thesis
      by (auto simp: store_on_disk_def stored_on_disk_def Let_def intro!: refines_other [OF assms(1)])
  next
    case (Some i)
    with True rd show ?thesis
      by (auto simp: store_on_disk_def stored_on_disk_def Let_def intro!: refines_other [OF assms(1)])
  qed
qed

lemma bucket_fresh:
  "a \<notin> set ys \<Longrightarrow> bucket (h(a \<mapsto> n)) ys i = bucket h ys i"
  by (auto simp: bucket_def node_url_def intro!: filter_cong)

lemma hash_chains_push:
  fixes n :: CacheModule
  assumes "hash_chains s ys" "a \<notin> set ys"
  defines "h \<equiv> hash_url (URL n)"
  shows "hash_chains (s\<lparr>heap := (heap s)(a \<mapsto> n\<lparr>NEXT := HASH_TABLE s h\<rparr>), fresh := k,
    HASH_TABLE := (HASH_TABLE s)(h := Some a)\<rparr>) (a # ys)"
proof -
  let ?n = "n\<lparr>NEXT := HASH_TABLE s h\<rparr>"
  let ?h = "(heap s)(a \<mapsto> ?n)"
  have u: "node_url ?h a = URL n" by (simp add: node_url_heap)
  have b: "bucket ?h (a # ys) i = (if i = h then a # bucket (heap s) ys i else bucket (heap s) ys i)" for i
    using u bucket_fresh [OF assms(2), of "heap s" ?n i] by (auto simp: bucket_def h_def)
  have na: "a \<notin> set (bucket (heap s) ys i)" for i using assms(2) by (simp add: bucket_def)
  have p: "path (chainL (heap s)) (HASH_TABLE s i) (bucket (heap s) ys i)" for i
    using assms(1) by (simp add: hash_chains_def)
  have "path (chainL ?h) (((HASH_TABLE s)(h := Some a)) i) (bucket ?h (a # ys) i)" for i
    using p [of i] na [of i] b [of i] by (cases "i = h") simp_all
  then show ?thesis by (simp add: hash_chains_def del: view_upd)
qed

lemma link_new_refines:
  assumes "refines s A"
  shows "\<exists>t. link_new n (element_size (CLENGTH n) (URL n)) s = Some t \<and> refines t (spec_insert n A) \<and>
    inodes t = inodes s"
proof -
  note r = refinesD [OF assms]
  let ?xs = "evict_order A" and ?ys = "by_age A"
  define a where "a = fresh s"
  define h where "h = hash_url (URL n)"
  define m where "m = n\<lparr>NEXT := HASH_TABLE s h\<rparr>"
  define u where "u = s\<lparr>heap := (heap s)(a \<mapsto> m), fresh := fresh s + 1, HASH_TABLE := (HASH_TABLE s)(h := Some a)\<rparr>"
  have na: "a \<notin> set ?xs" "a \<notin> set ?ys" using r(1) by (auto simp: rep_def a_def)
  have ch: "hash_chains u (a # ?ys)"
    using hash_chains_push [of s ?ys a n "fresh s + 1"] r(1) na by (simp add: u_def m_def h_def rep_def)
  have du: "dll u ?xs" using r(1) na by (simp add: dll_def rep_def u_def)
  have ua: "heap u a = Some m" by (simp add: u_def)
  from list_append_law [OF du ua na(1)] obtain t where
    t: "list_append a u = Some t" "dll t (?xs @ [a])" "list_frame u t" by blast
  note f = list_frameD [OF t(3)]
  let ?es = "element_size (CLENGTH n) (URL n)"
  let ?t = "t\<lparr>CACHE_SIZE := CACHE_SIZE t + ?es\<rparr>"
  have pu: "payload (heap u) = (payload (heap s))(a \<mapsto> strip n)" by (simp add: u_def m_def)
  have sz: "map (node_size (heap t)) ?xs = map (node_size (heap s)) ?xs" "node_size (heap t) a = ?es"
    using na f(1) pu by (auto simp: node_size_def strip_def)
  have "hash_chains ?t (a # ?ys)" using hash_chains_cong [OF ch, of t] f by (simp add: hash_chains_def)
  moreover have "dll ?t (?xs @ [a])" using t(2) by (simp add: dll_def)
  moreover have "dom (heap t) = insert a (dom (heap s))"
    using payload_eq_dom [OF f(1)] by (simp add: u_def)
  moreover have "CACHE_SIZE t = CACHE_SIZE s" "fresh t = fresh s + 1" using f by (simp_all add: u_def)
  moreover have "\<forall>b \<in> set (?xs @ [a]). b < fresh s + 1" using r(1) by (auto simp: rep_def a_def)
  ultimately have "rep ?t (?xs @ [a]) (a # ?ys)"
    using r(1) na sz by (simp add: rep_def del: map_eq_conv)
  then have "refines ?t (spec_insert n A)"
    using r f pu by (simp add: refines_def spec_insert_def a_def u_def)
  moreover have "link_new n ?es s = Some ?t"
    using t(1) by (simp add: link_new_def u_def m_def h_def a_def Let_def)
  ultimately show ?thesis using f by (simp add: u_def)
qed

section \<open>Emptying the cache\<close>

lemma clear_chain_law:
  "path (chainL (heap s)) p zs \<Longrightarrow>
     \<exists>t. clear_chain p s = Some t \<and> heap t = (heap s) |` (- set zs) \<and> HASH_TABLE t = HASH_TABLE s \<and>
       fresh t = fresh s \<and> g_eviction_policy t = g_eviction_policy s"
proof (induction zs arbitrary: p s)
  case Nil
  then show ?case by (simp add: clear_chain.simps)
next
  case (Cons z zs)
  then obtain n where n: "p = Some z" "heap s z = Some n" "path (chainL (heap s)) (NEXT n) zs"
    by (auto dest: view_chainL)
  have "z \<notin> set zs" using path_distinct [OF Cons.prems] by simp
  with n(3) have "path (chainL (heap (release z n s))) (NEXT n) zs" by simp
  from Cons.IH [OF this] obtain t where t: "clear_chain (NEXT n) (release z n s) = Some t"
    "heap t = heap (release z n s) |` (- set zs)" "HASH_TABLE t = HASH_TABLE s" "fresh t = fresh s"
    "g_eviction_policy t = g_eviction_policy s" by (auto simp del: release_heap(1))
  have "clear_chain p s = Some t" using n t(1) by (subst clear_chain.simps) simp
  moreover have "heap (release z n s) |` (- set zs) = heap s |` (- set (z # zs))"
    by (auto simp: restrict_map_def fun_eq_iff)
  ultimately show ?case using t by (simp del: release_heap(1))
qed

lemma clear_buckets_law:
  "distinct is \<Longrightarrow> \<forall>i \<in> set is. path (chainL (heap s)) (HASH_TABLE s i) (B i) \<Longrightarrow>
     \<forall>i \<in> set is. \<forall>j \<in> set is. i \<noteq> j \<longrightarrow> set (B i) \<inter> set (B j) = {} \<Longrightarrow>
     \<exists>t. clear_buckets is s = Some t \<and> heap t = (heap s) |` (- (\<Union>i \<in> set is. set (B i))) \<and>
       HASH_TABLE t = (\<lambda>i. if i \<in> set is then None else HASH_TABLE s i) \<and>
       fresh t = fresh s \<and> g_eviction_policy t = g_eviction_policy s"
proof (induction "is" arbitrary: s)
  case Nil
  then show ?case by simp
next
  case (Cons i "is")
  from clear_chain_law [of s "HASH_TABLE s i" "B i"] Cons.prems(2) obtain t where
    t: "clear_chain (HASH_TABLE s i) s = Some t" "heap t = heap s |` (- set (B i))"
      "HASH_TABLE t = HASH_TABLE s" "fresh t = fresh s" "g_eviction_policy t = g_eviction_policy s" by auto
  let ?t = "t\<lparr>HASH_TABLE := (HASH_TABLE t)(i := None)\<rparr>"
  have "path (chainL (heap ?t)) (HASH_TABLE ?t j) (B j)" if "j \<in> set is" for j
  proof -
    have "i \<noteq> j" using that Cons.prems(1) by auto
    then have "set (B i) \<inter> set (B j) = {}" using that Cons.prems(3) by auto
    then have "path (chainL (heap t)) (HASH_TABLE s j) (B j) = path (chainL (heap s)) (HASH_TABLE s j) (B j)"
      unfolding t(2) by (intro path_cong) (auto simp: chainL_def restrict_map_def)
    with that \<open>i \<noteq> j\<close> Cons.prems(2) t(3) show ?thesis by simp
  qed
  with Cons.IH [of ?t] Cons.prems obtain u where u: "clear_buckets is ?t = Some u"
    "heap u = heap t |` (- (\<Union>i \<in> set is. set (B i)))"
    "HASH_TABLE u = (\<lambda>j. if j \<in> set is then None else HASH_TABLE ?t j)" "fresh u = fresh t"
    "g_eviction_policy u = g_eviction_policy t" by auto
  have "heap u = heap s |` (- (\<Union>i \<in> set (i # is). set (B i)))"
    unfolding u(2) t(2) by (auto simp: restrict_map_def fun_eq_iff)
  moreover have "HASH_TABLE u = (\<lambda>j. if j \<in> set (i # is) then None else HASH_TABLE s j)"
    unfolding u(3) using t(3) by auto
  ultimately show ?case using t u by simp
qed

lemma hash_url_bound: "hash_url url < HASH_TABLE_SIZE"
proof -
  have "unat (w mod 1024) < 1024" for w :: u64
    by (simp add: unat_mod)
  then show ?thesis by (simp add: hash_url_def)
qed

lemma Cache_clear_refines:
  assumes "refines s A"
  shows "\<exists>t. Cache_clear s = Some t \<and>
    refines t (A\<lparr>evict_order := [], by_age := [], entries := (\<lambda>_. None)\<rparr>)"
proof -
  note r = refinesD [OF assms]
  let ?B = "bucket (heap s) (by_age A)"
  have "\<forall>i \<in> set [0..<HASH_TABLE_SIZE]. path (chainL (heap s)) (HASH_TABLE s i) (?B i)"
    using r(1) by (auto simp: rep_def hash_chains_def)
  moreover have "\<forall>i \<in> set [0..<HASH_TABLE_SIZE]. \<forall>j \<in> set [0..<HASH_TABLE_SIZE]. i \<noteq> j \<longrightarrow> set (?B i) \<inter> set (?B j) = {}"
    by (auto simp: bucket_def)
  ultimately obtain t where t: "clear_buckets [0..<HASH_TABLE_SIZE] s = Some t"
    "heap t = heap s |` (- (\<Union>i \<in> set [0..<HASH_TABLE_SIZE]. set (?B i)))"
    "HASH_TABLE t = (\<lambda>i. if i \<in> set [0..<HASH_TABLE_SIZE] then None else HASH_TABLE s i)"
    "fresh t = fresh s" "g_eviction_policy t = g_eviction_policy s"
    using clear_buckets_law [of "[0..<HASH_TABLE_SIZE]" s ?B] by (auto simp del: set_upt)
  have "(\<Union>i \<in> set [0..<HASH_TABLE_SIZE]. set (?B i)) = set (by_age A)"
    using hash_url_bound by (auto simp: bucket_def)
  then have "heap t = (\<lambda>_. None)"
    using t(2) r(1) by (auto simp: rep_def restrict_map_def fun_eq_iff)
  moreover have "HASH_TABLE t = (\<lambda>_. None)"
  proof
    fix i show "HASH_TABLE t i = None"
    proof (cases "i < HASH_TABLE_SIZE")
      case False
      then have "?B i = []" using hash_url_bound by (auto simp: bucket_def filter_empty_conv) 
      then have "HASH_TABLE s i = None"
        using r(1) by (metis rep_def hash_chains_def path.simps(1))
      with False show ?thesis by (simp add: t(3))
    qed (simp add: t(3))
  qed
  ultimately have "refines (t\<lparr>list_head := None, list_tail := None, CACHE_SIZE := 0\<rparr>)
      (A\<lparr>evict_order := [], by_age := [], entries := (\<lambda>_. None)\<rparr>)"
    using t(4,5) r(3,4)
    by (simp add: refines_def rep_def dll_def hash_chains_def bucket_def payload_def)
  with t(1) show ?thesis by (simp add: Cache_clear_def del: upt_conv_Cons)
qed

end
