(* ===== verification/Machine.thy ===== *)
theory Machine
  imports Main
begin

text \<open>
  Components whose operations may fail (\<^term>\<open>None\<close> stands for undefined behaviour): runs of a
  sequence of operations, and the contract under which every run is safe.
\<close>

fun run_ops :: "('op \<Rightarrow> 's \<Rightarrow> 's option) \<Rightarrow> 'op list \<Rightarrow> 's \<Rightarrow> 's option" where
  "run_ops step [] s = Some s"
| "run_ops step (x # xs) s = (case step x s of None \<Rightarrow> None | Some t \<Rightarrow> run_ops step xs t)"

lemma run_ops_append:
  "run_ops step (xs @ ys) s = (case run_ops step xs s of None \<Rightarrow> None | Some t \<Rightarrow> run_ops step ys t)"
  by (induction xs arbitrary: s) (auto split: option.split)

locale safe_machine =
  fixes step :: "'op \<Rightarrow> 's \<Rightarrow> 's option"
    and ok :: "'op \<Rightarrow> bool"
    and inv :: "'s \<Rightarrow> bool"
  assumes step_safe: "inv s \<Longrightarrow> ok x \<Longrightarrow> \<exists>t. step x s = Some t \<and> inv t"
begin

lemma run_safe: "inv s \<Longrightarrow> list_all ok xs \<Longrightarrow> \<exists>t. run_ops step xs s = Some t \<and> inv t"
proof (induction xs arbitrary: s)
  case (Cons x xs)
  then obtain t where "step x s = Some t" "inv t" using step_safe by fastforce
  with Cons show ?case by simp
qed simp

lemma run_defined: "inv s \<Longrightarrow> list_all ok xs \<Longrightarrow> run_ops step xs s \<noteq> None"
  using run_safe by fastforce

end

text \<open>Where an operation may leave defined behaviour, an invariant still holds as long as it returns.\<close>

locale keeping_machine =
  fixes step :: "'op \<Rightarrow> 's \<Rightarrow> 's option"
    and inv :: "'s \<Rightarrow> bool"
  assumes step_keeps: "inv s \<Longrightarrow> step x s = Some t \<Longrightarrow> inv t"
begin

lemma run_keeps: "inv s \<Longrightarrow> run_ops step xs s = Some t \<Longrightarrow> inv t"
  by (induction xs arbitrary: s) (auto split: option.splits dest: step_keeps)

end

end
