(* ===== verification/Cache_Props.thy ===== *)
theory Cache_Props
  imports Cache_Ops Machine
begin

text \<open>
  The properties of the response cache: insertion refines its specification, every sequence of
  operations is memory safe and stays within the configured budget, what was stored is what a
  lookup returns, eviction follows the policy, and the behaviours of the code that a caller has to
  know (older entries of a URL, pointers that outlive an eviction, shared cache files).
\<close>

section \<open>Insertion\<close>

definition spec_add ::
  "ProxyConfig \<Rightarrow> add_env \<Rightarrow> string \<Rightarrow> int \<Rightarrow> string \<Rightarrow> (string \<times> inode) option \<Rightarrow> spec_cache \<Rightarrow> int \<times> spec_cache" where
  "spec_add cfg env d sz url disk A =
     (let es = element_size sz url; B = spec_fit (max_cache_size cfg) es A
      in if not_cacheable (c_str d) \<or> es > max_element_size cfg then (0, A)
         else if spec_bytes B + es > max_cache_size cfg \<or> \<not> calloc_ok env \<or> disk = None \<and> \<not> malloc_ok env
         then (0, B)
         else (1, spec_insert (new_node env (max_age_of (c_str d)) sz url disk (take (nat sz) d)) B))"

lemma new_node_sel [simp]:
  "URL (new_node env m sz url disk b) = url" "CLENGTH (new_node env m sz url disk b) = sz"
  by (simp_all add: new_node_def)

lemma AddCache_refines:
  assumes "refines s A" "0 \<le> sz" "nat sz \<le> length d"
  shows "\<exists>disk t. AddCache cfg env d sz url s = Some (fst (spec_add cfg env d sz url disk A), t) \<and>
    refines t (snd (spec_add cfg env d sz url disk A)) \<and>
    (disk \<noteq> None \<longrightarrow> stored_on_disk env sz) \<and>
    (case disk of None \<Rightarrow> True | Some (p, i) \<Rightarrow> inodes t i = take (nat sz) d)"
proof (cases "not_cacheable (c_str d) \<or> element_size sz url > max_element_size cfg")
  case True
  then have "AddCache cfg env d sz url s = Some (fst (spec_add cfg env d sz url None A), s) \<and>
      refines s (snd (spec_add cfg env d sz url None A))"
    using assms(1) by (auto simp: AddCache_def spec_add_def Let_def)
  then show ?thesis by (intro exI [of _ None] exI [of _ s]) simp
next
  case cacheable: False
  let ?es = "element_size sz url" and ?max = "max_cache_size cfg"
  let ?B = "spec_fit ?max ?es A"
  from evict_loop_refines [OF assms(1)] obtain u where
    u: "evict_loop ?max ?es s = Some u" "refines u ?B" by blast
  note bytes = refines_bytes [OF u(2)]
  show ?thesis
  proof (cases "spec_bytes ?B + ?es > ?max \<or> \<not> calloc_ok env")
    case True
    then have "AddCache cfg env d sz url s = Some (fst (spec_add cfg env d sz url None A), u) \<and>
        refines u (snd (spec_add cfg env d sz url None A))"
      using cacheable u bytes by (auto simp: AddCache_def spec_add_def Let_def)
    then show ?thesis by (intro exI [of _ None] exI [of _ u]) simp
  next
    case room: False
    from store_on_disk_law [OF u(2) assms(2,3)] obtain disk v where
      v: "store_on_disk env d sz url u = Some (disk, v)" "refines v ?B"
        "disk \<noteq> None \<longleftrightarrow> stored_on_disk env sz"
        "case disk of None \<Rightarrow> True | Some (p, i) \<Rightarrow> inodes v i = take (nat sz) d" by blast
    have rd: "read_buf d sz = Some (take (nat sz) d)" using assms by (simp add: read_buf_def)
    let ?n = "new_node env (max_age_of (c_str d)) sz url disk (take (nat sz) d)"
    from link_new_refines [OF v(2), of ?n] obtain t where
      t: "link_new ?n ?es v = Some t" "refines t (spec_insert ?n ?B)" "inodes t = inodes v" by auto
    show ?thesis
    proof (cases "disk = None \<and> \<not> malloc_ok env")
      case True
      then have "AddCache cfg env d sz url s = Some (fst (spec_add cfg env d sz url None A), v) \<and>
          refines v (snd (spec_add cfg env d sz url None A))"
        using cacheable room u(1) bytes v(1,2) by (auto simp: AddCache_def spec_add_def Let_def)
      then show ?thesis by (intro exI [of _ None] exI [of _ v]) simp
    next
      case False
      then have "AddCache cfg env d sz url s = Some (fst (spec_add cfg env d sz url disk A), t) \<and>
          refines t (snd (spec_add cfg env d sz url disk A))"
        using cacheable room u(1) bytes v(1) rd t(1,2) by (auto simp: AddCache_def spec_add_def Let_def)
      then show ?thesis
        using v(3,4) t(3) by (intro exI [of _ disk] exI [of _ t]) (auto split: option.splits)
    qed
  qed
qed

section \<open>Sequences of operations\<close>

datatype cache_op =
    Op_add ProxyConfig add_env string int string
  | Op_find int string
  | Op_purge string
  | Op_evict
  | Op_clear
  | Op_policy CacheEvictionPolicy

fun cache_step :: "cache_op \<Rightarrow> cache \<Rightarrow> cache option" where
  "cache_step (Op_add cfg env d sz url) s = map_option snd (AddCache cfg env d sz url s)"
| "cache_step (Op_find now url) s = map_option snd (FindCache now url s)"
| "cache_step (Op_purge url) s = Cache_purge url s"
| "cache_step Op_evict s = RemoveCache s"
| "cache_step Op_clear s = Cache_clear s"
| "cache_step (Op_policy p) s = Some (Cache_set_eviction_policy p s)"

fun op_ok :: "cache_op \<Rightarrow> bool" where
  \<comment> \<open>what the callers owe: the size passed to \<^verbatim>\<open>AddCache\<close> is within the buffer\<close>
  "op_ok (Op_add cfg env d sz url) \<longleftrightarrow> 0 \<le> sz \<and> nat sz \<le> length d"
| "op_ok _ \<longleftrightarrow> True"

lemma policy_refines: "refines s A \<Longrightarrow> refines (Cache_set_eviction_policy p s) (A\<lparr>policy := p\<rparr>)"
  by (auto simp: refines_def rep_def dll_def hash_chains_def Cache_set_eviction_policy_def)

lemma cache_step_refines:
  assumes "refines s A" "op_ok x"
  shows "\<exists>t B. cache_step x s = Some t \<and> refines t B"
proof (cases x)
  case (Op_add cfg env d sz url)
  then show ?thesis using AddCache_refines [OF assms(1), of sz d cfg env url] assms(2) by fastforce
next
  case (Op_find now url)
  then show ?thesis using FindCache_refines [OF assms(1), of now url] by fastforce
next
  case (Op_purge url)
  then show ?thesis using Cache_purge_refines [OF assms(1), of url] by auto
next
  case Op_evict
  then show ?thesis using RemoveCache_refines [OF assms(1)] by auto
next
  case Op_clear
  then show ?thesis using Cache_clear_refines [OF assms(1)] by auto
next
  case (Op_policy p)
  then show ?thesis using policy_refines [OF assms(1)] by auto
qed

interpretation cache_machine: safe_machine cache_step op_ok cache_inv
  by unfold_locales (meson cache_step_refines inv_refines refines_inv)

lemma empty_refines:
  "refines empty_cache \<lparr>evict_order = [], by_age = [], entries = (\<lambda>_. None), next_addr = 0, policy = EVICT_LRU\<rparr>"
  by (simp add: refines_def rep_def dll_def hash_chains_def empty_cache_def payload_def bucket_def)

section \<open>The byte budget\<close>

definition entry_bytes :: "spec_cache \<Rightarrow> addr \<Rightarrow> size_t" where
  "entry_bytes A a = element_size (CLENGTH (the (entries A a))) (URL (the (entries A a)))"

definition nat_bytes :: "spec_cache \<Rightarrow> nat" where
  "nat_bytes A = sum_list (map (\<lambda>a. unat (entry_bytes A a)) (evict_order A))"

lemma unat_sum_list:
  fixes f :: "'a \<Rightarrow> size_t"
  shows "sum_list (map (\<lambda>a. unat (f a)) xs) < 2 ^ 64 \<Longrightarrow>
     unat (sum_list (map f xs)) = sum_list (map (\<lambda>a. unat (f a)) xs)"
proof (induction xs)
  case (Cons x xs)
  then have "unat (f x) + unat (sum_list (map f xs)) < 2 ^ LENGTH(64)" by simp
  with Cons show ?case by (simp add: unat_plus_if')
qed simp

lemma unat_spec_bytes: "nat_bytes A < 2 ^ 64 \<Longrightarrow> unat (spec_bytes A) = nat_bytes A"
  using unat_sum_list [of "entry_bytes A" "evict_order A"]
  by (simp add: nat_bytes_def spec_bytes_def entry_bytes_def [abs_def])

lemma nat_bytes_drop:
  assumes "a \<in> set (evict_order A)" "distinct (evict_order A)"
  shows "nat_bytes (spec_drop a A) + unat (entry_bytes A a) = nat_bytes A"
proof -
  from assms(1) obtain us vs where x: "evict_order A = us @ a # vs" by (meson split_list)
  then have r: "remove1 a (evict_order A) = us @ vs" and n: "a \<notin> set us" "a \<notin> set vs"
    using assms(2) by (auto simp: remove1_append)
  have "map (\<lambda>b. unat (entry_bytes (spec_drop a A) b)) (us @ vs) = map (\<lambda>b. unat (entry_bytes A b)) (us @ vs)"
    using n by (auto simp: entry_bytes_def spec_drop_def)
  moreover have "evict_order (spec_drop a A) = us @ vs" using r by (simp add: spec_drop_def)
  ultimately show ?thesis using x by (simp add: nat_bytes_def del: map_eq_conv map_append) simp
qed

lemma nat_bytes_evict:
  assumes "distinct (evict_order A)"
  shows "nat_bytes (spec_evict A) \<le> nat_bytes A \<and> distinct (evict_order (spec_evict A))"
proof (cases "evict_order A = []")
  case False
  let ?v = "victim_of (policy A) (entries A) (evict_order A)"
  have "nat_bytes (spec_drop ?v A) \<le> nat_bytes A"
    using nat_bytes_drop [OF victim_of_mem [OF False] assms, of "policy A" "entries A"] by simp
  moreover have "distinct (evict_order (spec_drop ?v A))" using assms by (simp add: spec_drop_def)
  ultimately show ?thesis using False by (simp add: spec_evict_def)
qed (simp add: spec_evict_def assms)

lemma nat_bytes_fit:
  "distinct (evict_order A) \<Longrightarrow> nat_bytes (spec_fit limit es A) \<le> nat_bytes A"
proof (induction limit es A rule: spec_fit.induct)
  case (1 limit es A)
  then show ?case
    using nat_bytes_evict [OF "1.prems"] by (subst spec_fit.simps) (auto intro: order_trans)
qed

lemma nat_bytes_touch:
  assumes "a \<in> set (evict_order A)" "distinct (evict_order A)" "entries A a = Some n"
  shows "nat_bytes (spec_touch now a A) = nat_bytes A"
proof -
  have e: "entry_bytes (spec_touch now a A) = entry_bytes A"
    using assms(3) by (auto simp: entry_bytes_def spec_touch_def)
  let ?f = "\<lambda>b. unat (entry_bytes A b)"
  have "sum_list (map ?f (remove1 a (evict_order A) @ [a])) = sum_list (map ?f (evict_order A))"
    using sum_list_map_remove1 [OF assms(1), of ?f] by simp
  then show ?thesis by (simp add: nat_bytes_def e) (simp add: spec_touch_def)
qed

lemma nat_bytes_insert:
  assumes "next_addr A \<notin> set (evict_order A)"
  shows "nat_bytes (spec_insert n A) = nat_bytes A + unat (element_size (CLENGTH n) (URL n))"
proof -
  have "map (\<lambda>b. unat (entry_bytes (spec_insert n A) b)) (evict_order A) = map (\<lambda>b. unat (entry_bytes A b)) (evict_order A)"
    using assms by (auto simp: entry_bytes_def spec_insert_def)
  moreover have "entry_bytes (spec_insert n A) (next_addr A) = element_size (CLENGTH n) (URL n)"
    by (simp add: entry_bytes_def spec_insert_def strip_def)
  moreover have "evict_order (spec_insert n A) = evict_order A @ [next_addr A]" by (simp add: spec_insert_def)
  ultimately show ?thesis by (simp add: nat_bytes_def del: map_eq_conv)
qed

lemma refines_distinct: "refines s A \<Longrightarrow> distinct (evict_order A)"
  using dll_distinct by (auto simp: refines_def rep_def)

lemma refines_next: "refines s A \<Longrightarrow> next_addr A \<notin> set (evict_order A)"
  by (auto simp: refines_def rep_def)

definition fits :: "size_t \<Rightarrow> cache \<Rightarrow> bool" where
  "fits limit s \<longleftrightarrow> (\<exists>A. refines s A \<and> nat_bytes A \<le> unat limit)"

fun op_fits :: "size_t \<Rightarrow> cache_op \<Rightarrow> bool" where
  \<comment> \<open>insertions run under one configured limit, and the configured sizes do not overflow\<close>
  "op_fits limit (Op_add cfg env d sz url) \<longleftrightarrow>
     0 \<le> sz \<and> nat sz \<le> length d \<and> max_cache_size cfg = limit \<and>
     unat limit + unat (max_element_size cfg) < 2 ^ 64"
| "op_fits limit _ \<longleftrightarrow> True"

lemma spec_purge_bytes:
  assumes "refines s A"
  shows "nat_bytes (spec_purge url A) \<le> nat_bytes A"
proof (cases "spec_lookup url A")
  case (Some a)
  then have "a \<in> set (evict_order A)" using spec_lookup_mem refines_sets [OF assms] by blast
  from nat_bytes_drop [OF this refines_distinct [OF assms]] Some show ?thesis by (simp add: spec_purge_def)
qed (simp add: spec_purge_def)

lemma spec_find_bytes:
  assumes "refines s A"
  shows "nat_bytes (snd (spec_find now url A)) \<le> nat_bytes A"
proof (cases "spec_lookup url A")
  case (Some a)
  then have a: "a \<in> set (evict_order A)" using spec_lookup_mem refines_sets [OF assms] by blast
  from refines_node [OF assms a] obtain n where "entries A a = Some (strip n)" .
  from nat_bytes_touch [OF a refines_distinct [OF assms] this] spec_purge_bytes [OF assms] Some
  show ?thesis by (simp add: spec_find_def)
qed (simp add: spec_find_def)

lemma spec_add_bytes:
  assumes "refines s A" "nat_bytes A \<le> unat (max_cache_size cfg)"
    "unat (max_cache_size cfg) + unat (max_element_size cfg) < 2 ^ 64"
    "0 \<le> sz" "nat sz \<le> length d"
  shows "nat_bytes (snd (spec_add cfg env d sz url disk A)) \<le> unat (max_cache_size cfg)"
proof -
  let ?es = "element_size sz url" and ?max = "max_cache_size cfg"
  let ?B = "spec_fit ?max ?es A"
  from evict_loop_refines [OF assms(1)] obtain u where u: "refines u ?B" by blast
  have B: "nat_bytes ?B \<le> unat ?max"
    using nat_bytes_fit [OF refines_distinct [OF assms(1)], of ?max ?es] assms(2) by linarith
  have "nat_bytes (spec_insert (new_node env m sz url disk b) ?B) \<le> unat ?max"
    if "?es \<le> max_element_size cfg" "spec_bytes ?B + ?es \<le> ?max" for m b
  proof -
    have s: "unat (spec_bytes ?B) = nat_bytes ?B" using B assms(3) by (intro unat_spec_bytes) linarith
    have es: "unat ?es \<le> unat (max_element_size cfg)" using that(1) by (simp add: word_le_nat_alt)
    have "unat (spec_bytes ?B) + unat ?es < 2 ^ LENGTH(64)" using s es B assms(3) by simp
    then have "unat (spec_bytes ?B + ?es) = nat_bytes ?B + unat ?es" using s by (simp add: unat_plus_if')
    then show ?thesis
      using that(2) nat_bytes_insert [OF refines_next [OF u], of "new_node env m sz url disk b"]
      by (simp add: word_le_nat_alt)
  qed
  then show ?thesis using assms(2) B by (auto simp: spec_add_def Let_def not_less)
qed

lemma cache_step_fits:
  assumes "fits limit s" "op_fits limit x"
  shows "\<exists>t. cache_step x s = Some t \<and> fits limit t"
proof -
  from assms(1) obtain A where A: "refines s A" "nat_bytes A \<le> unat limit" by (auto simp: fits_def)
  show ?thesis
  proof (cases x)
    case (Op_add cfg env d sz url)
    with assms(2) have o: "0 \<le> sz" "nat sz \<le> length d" "max_cache_size cfg = limit"
      "unat limit + unat (max_element_size cfg) < 2 ^ 64" by auto
    from AddCache_refines [OF A(1) o(1,2)] obtain disk t where
      "AddCache cfg env d sz url s = Some (fst (spec_add cfg env d sz url disk A), t)"
      "refines t (snd (spec_add cfg env d sz url disk A))" by blast
    moreover have "nat_bytes (snd (spec_add cfg env d sz url disk A)) \<le> unat limit"
      using spec_add_bytes [OF A(1), of cfg sz d env url disk] A(2) o by simp
    ultimately show ?thesis using Op_add by (auto simp: fits_def)
  next
    case (Op_find now url)
    with FindCache_refines [OF A(1), of now url] spec_find_bytes [OF A(1), of now url] A(2)
    show ?thesis by (auto simp: fits_def intro: order_trans)
  next
    case (Op_purge url)
    with Cache_purge_refines [OF A(1), of url] spec_purge_bytes [OF A(1), of url] A(2)
    show ?thesis by (auto simp: fits_def intro: order_trans)
  next
    case Op_evict
    with RemoveCache_refines [OF A(1)] nat_bytes_evict [OF refines_distinct [OF A(1)]] A(2)
    show ?thesis by (auto simp: fits_def intro: order_trans)
  next
    case Op_clear
    have "nat_bytes (A\<lparr>evict_order := [], by_age := [], entries := \<lambda>_. None\<rparr>) \<le> unat limit"
      by (simp add: nat_bytes_def)
    with Op_clear Cache_clear_refines [OF A(1)] show ?thesis by (auto simp: fits_def)
  next
    case (Op_policy p)
    have "nat_bytes (A\<lparr>policy := p\<rparr>) = nat_bytes A" by (simp add: nat_bytes_def entry_bytes_def)
    with Op_policy policy_refines [OF A(1), of p] A(2) show ?thesis
      by (auto simp: fits_def intro!: exI [of _ "A\<lparr>policy := p\<rparr>"])
  qed
qed

interpretation cache_budget: safe_machine cache_step "op_fits limit" "fits limit" for limit
  by unfold_locales (rule cache_step_fits)

lemma fits_footprint:
  assumes "fits limit s"
  shows "(\<Sum>a \<in> dom (heap s). unat (node_size (heap s) a)) \<le> unat limit"
    "unat (CACHE_SIZE s) = (\<Sum>a \<in> dom (heap s). unat (node_size (heap s) a))"
proof -
  from assms obtain A where A: "refines s A" "nat_bytes A \<le> unat limit" by (auto simp: fits_def)
  have "node_size (heap s) = entry_bytes A"
    using refinesD(2) [OF A(1)] by (simp add: node_size_def [abs_def] entry_bytes_def [abs_def])
  then have e: "(\<Sum>a \<in> dom (heap s). unat (node_size (heap s) a)) = nat_bytes A"
    using refinesD(1) [OF A(1)] sum_list_distinct_conv_sum_set [OF refines_distinct [OF A(1)], of "\<lambda>a. unat (entry_bytes A a)"]
    by (simp add: nat_bytes_def rep_def)
  then show "(\<Sum>a \<in> dom (heap s). unat (node_size (heap s) a)) \<le> unat limit" using A(2) by simp
  have "unat limit < 2 ^ LENGTH(64)" by (rule unsigned_less)
  then have "nat_bytes A < 2 ^ 64" using A(2) by simp
  then show "unat (CACHE_SIZE s) = (\<Sum>a \<in> dom (heap s). unat (node_size (heap s) a))"
    using e refines_bytes [OF A(1)] by (simp add: unat_spec_bytes)
qed

section \<open>Eviction under LRU\<close>

lemma spec_fit_lru:
  "policy A = EVICT_LRU \<Longrightarrow> distinct (evict_order A) \<Longrightarrow>
     \<exists>k. evict_order (spec_fit limit es A) = drop k (evict_order A) \<and>
       (\<forall>j < k. limit < sum_list (map (entry_bytes A) (drop j (evict_order A))) + es)"
proof (induction limit es A rule: spec_fit.induct)
  case (1 limit es A)
  have sb: "spec_bytes A = sum_list (map (entry_bytes A) (evict_order A))"
    by (simp add: spec_bytes_def entry_bytes_def [abs_def])
  show ?case
  proof (cases "spec_bytes A + es > limit \<and> evict_order A \<noteq> []")
    case True
    then obtain x xs where x: "evict_order A = x # xs" by (cases "evict_order A") auto
    have ev: "evict_order (spec_evict A) = xs" using "1.prems"(1) x by (rule spec_evict_lru)
    have same: "map (entry_bytes (spec_evict A)) (drop j xs) = map (entry_bytes A) (drop j xs)" for j
    proof -
      have "x \<notin> set (drop j xs)" using "1.prems"(2) x set_drop_subset [of j xs] by auto
      then show ?thesis
        using x "1.prems"(1) by (auto simp: entry_bytes_def spec_evict_def spec_drop_def victim_of_def)
    qed
    from "1.IH" [OF True] "1.prems" x ev obtain k where
      k: "evict_order (spec_fit limit es (spec_evict A)) = drop k xs"
        "\<forall>j < k. limit < sum_list (map (entry_bytes (spec_evict A)) (drop j xs)) + es" by auto
    have "\<forall>j < Suc k. limit < sum_list (map (entry_bytes A) (drop j (evict_order A))) + es"
      using k(2) True sb x same by (auto simp: less_Suc_eq_0_disj simp del: map_eq_conv)
    moreover have "evict_order (spec_fit limit es A) = drop (Suc k) (evict_order A)"
      using True k(1) x by (subst spec_fit.simps) simp
    ultimately show ?thesis by blast
  next
    case False
    then show ?thesis by (subst spec_fit.simps) (auto intro: exI [of _ 0])
  qed
qed

section \<open>Concrete states\<close>

definition demo_env :: add_env where
  "demo_env = \<lparr>calloc_ok = True, malloc_ok = True, open_ok = True, write_result = 0, mmap_ok = True,
     time_path = 100, time_uptime = 100, time_expires = 100\<rparr>"

definition demo_config :: ProxyConfig where
  "demo_config = (config_init_defaults zero_config)\<lparr>max_cache_size := 300\<rparr>"

definition demo_node :: CacheModule where
  "demo_node = \<lparr>URL = ''u'', is_on_disk = False, disk_path = None, DATA = Heap_Data ''hi'', CLENGTH = 2,
     UPTIME = 5, access_count = 1, expires_at = 0, NEXT = None, prev_lru = None, next_lru = None\<rparr>"

definition demo_cache :: cache where
  "demo_cache = empty_cache\<lparr>heap := [0 \<mapsto> demo_node], fresh := 1,
     HASH_TABLE := [hash_url ''u'' \<mapsto> 0], list_head := Some 0, list_tail := Some 0, CACHE_SIZE := 92\<rparr>"

definition demo_spec :: spec_cache where
  "demo_spec = \<lparr>evict_order = [0], by_age = [0], entries = [0 \<mapsto> demo_node], next_addr = 1, policy = EVICT_LRU\<rparr>"

lemma demo_refines: "refines demo_cache demo_spec"
proof -
  have "payload (heap demo_cache) = [0 \<mapsto> demo_node]"
    by (simp add: demo_cache_def payload_def strip_def demo_node_def fun_eq_iff)
  then show ?thesis
    by (auto simp: refines_def rep_def dll_def hash_chains_def bucket_def node_url_def node_size_def
        demo_cache_def demo_spec_def empty_cache_def nextL_def prevL_def chainL_def demo_node_def element_size_def)
qed

lemma demo_add:
  "AddCache demo_config demo_env ''hello'' 5 ''u'' empty_cache =
     Some (1, the (map_option snd (AddCache demo_config demo_env ''hello'' 5 ''u'' empty_cache)))"
proof -
  have "map_option fst (AddCache demo_config demo_env ''hello'' 5 ''u'' empty_cache) = Some 1" by code_simp
  then show ?thesis by (auto simp: map_option_case split: option.splits)
qed

text \<open>A lookup before the expiry returns what was stored last.\<close>

lemma find_after_add:
  assumes inv: "cache_inv s" and sz: "0 \<le> sz" "nat sz \<le> length d"
    and add: "AddCache cfg env d sz url s = Some (1, t)"
    and now: "now \<le> time_expires env + (if max_age_of (c_str d) > 0 then max_age_of (c_str d) else 3600)"
  shows "\<exists>a u n. FindCache now url t = Some (Some a, u) \<and> heap u a = Some n \<and> URL n = url \<and>
    CLENGTH n = sz \<and> entry_data u n = take (nat sz) d"
proof -
  from inv obtain A where A: "refines s A" using inv_refines by blast
  from AddCache_refines [OF A sz, of cfg env url] add obtain disk where
    r: "fst (spec_add cfg env d sz url disk A) = 1"
      "refines t (snd (spec_add cfg env d sz url disk A))"
      "case disk of None \<Rightarrow> True | Some (p, i) \<Rightarrow> inodes t i = take (nat sz) d" by auto
  let ?n = "new_node env (max_age_of (c_str d)) sz url disk (take (nat sz) d)"
  define B where "B = snd (spec_add cfg env d sz url disk A)"
  from r(1) obtain C where B: "B = spec_insert ?n C"
    by (auto simp: spec_add_def B_def Let_def split: if_splits)
  let ?a = "next_addr C"
  have e: "entries B ?a = Some (strip ?n)" "spec_lookup url B = Some ?a"
    by (simp_all add: B spec_insert_def spec_lookup_def strip_def)
  have "spec_find now url B = (Some ?a, spec_touch now ?a B)"
    using now by (simp add: spec_find_def e) (simp add: strip_def new_node_def)
  with FindCache_refines [OF r(2), of now url] obtain u where
    u: "FindCache now url t = Some (Some ?a, u)" "refines u (spec_touch now ?a B)" "keeps t u"
    by (auto simp: B_def)
  have "?a \<in> set (evict_order (spec_touch now ?a B))" by (simp add: spec_touch_def B spec_insert_def)
  from refines_node [OF u(2) this] obtain n where
    n: "heap u ?a = Some n" "entries (spec_touch now ?a B) ?a = Some (strip n)" .
  from n(2) have eq: "URL n = url" "CLENGTH n = sz" "DATA n = DATA ?n"
    by (auto simp: spec_touch_def e strip_def dest: arg_cong [of _ _ URL] arg_cong [of _ _ CLENGTH]
        arg_cong [of _ _ DATA])
  have "entry_data u n = take (nat sz) d"
    using eq r(3) u(3) by (auto simp: entry_data_def new_node_def keeps_def split: option.splits)
  with u(1) n(1) eq show ?thesis by blast
qed

section \<open>Properties\<close>



text \<open>
  C7: The byte budget. While all insertions run under one configured limit and the configured
  sizes do not overflow 64 bits, after every sequence of operations the true number of bytes of
  the allocated entries (counted without wrap-around) is at most \<^verbatim>\<open>max_cache_size\<close>, and
  \<^verbatim>\<open>CACHE_SIZE\<close> is exactly that number.
\<close>
theorem cache_within_budget:
  "list_all (op_fits limit) ops \<Longrightarrow>
     \<exists>t. run_ops cache_step ops empty_cache = Some t \<and>
       (\<Sum>a \<in> dom (heap t). unat (node_size (heap t) a)) \<le> unat limit \<and>
       unat (CACHE_SIZE t) = (\<Sum>a \<in> dom (heap t). unat (node_size (heap t) a))"
proof -
  assume ok: "list_all (op_fits limit) ops"
  have "fits limit empty_cache"
    using empty_refines by (force simp: fits_def nat_bytes_def)
  from cache_budget.run_safe [OF this ok] show ?thesis using fits_footprint by blast
qed

theorem cache_within_budget_witness:
  "\<exists>t. run_ops cache_step [Op_add demo_config demo_env ''hello'' 5 ''u'', Op_find 200 ''u''] empty_cache = Some t \<and>
     (\<Sum>a \<in> dom (heap t). unat (node_size (heap t) a)) \<le> 300"
  using cache_within_budget [of 300 "[Op_add demo_config demo_env ''hello'' 5 ''u'', Op_find 200 ''u'']"]
  by (auto simp: demo_config_def config_init_defaults_def simp del: run_ops.simps)

text \<open>
  C8: A lookup returns what was stored. After an \<^verbatim>\<open>AddCache\<close> that reports success, \<^verbatim>\<open>FindCache\<close> of the
  same URL before the expiry time returns an entry of that URL and length whose data, in memory or
  in the mapped file, are the first \<^verbatim>\<open>SIZE\<close> bytes of the response.
\<close>
theorem AddCache_FindCache:
  assumes inv: "cache_inv s" and sz: "0 \<le> sz" "nat sz \<le> length d"
    and add: "AddCache cfg env d sz url s = Some (1, t)"
    and now: "now \<le> time_expires env + (if max_age_of (c_str d) > 0 then max_age_of (c_str d) else 3600)"
  shows "\<exists>a u n. FindCache now url t = Some (Some a, u) \<and> heap u a = Some n \<and> URL n = url \<and>
    CLENGTH n = sz \<and> entry_data u n = take (nat sz) d"
  using find_after_add [OF assms] .

theorem AddCache_FindCache_witness:
  "\<exists>t a u n. AddCache demo_config demo_env ''hello'' 5 ''u'' empty_cache = Some (1, t) \<and>
     FindCache 200 ''u'' t = Some (Some a, u) \<and> heap u a = Some n \<and> URL n = ''u'' \<and> CLENGTH n = 5 \<and>
     entry_data u n = ''hello''"
proof -
  have "200 \<le> time_expires demo_env + (if max_age_of (c_str ''hello'') > 0 then max_age_of (c_str ''hello'') else 3600)"
    by code_simp
  from AddCache_FindCache [OF refines_inv [OF empty_refines] _ _ demo_add this] demo_add show ?thesis
    by fastforce
qed

text \<open>
  C9: \<^verbatim>\<open>FindCache\<close> refines its contract. On a well-formed cache it returns; the answer is the newest
  entry of the URL, or none when there is none or the newest one has expired; an expired entry is
  unlinked and freed; a hit is touched and, under LRU only, moved to the end of the eviction order.
\<close>
theorem FindCache_contract:
  assumes "refines s A"
  shows "\<exists>t. FindCache now url s = Some (fst (spec_find now url A), t) \<and>
    refines t (snd (spec_find now url A))"
  using FindCache_refines [OF assms] by blast

theorem FindCache_contract_witness:
  "\<exists>t. FindCache 7 ''u'' demo_cache = Some (Some 0, t) \<and> refines t (spec_touch 7 0 demo_spec)"
  using FindCache_contract [OF demo_refines, of 7 "''u''"]
  by (simp add: spec_find_def spec_lookup_def demo_spec_def demo_node_def)

text \<open>
  C10: \<^verbatim>\<open>RemoveCache\<close> frees exactly one entry, the one the policy names: the head of the list under LRU,
  the first entry with the fewest accesses under LFU, the first with the earliest expiry under TTL;
  on an empty cache it does nothing.
\<close>
theorem RemoveCache_policy:
  assumes "refines s A"
  shows "\<exists>t. RemoveCache s = Some t \<and> refines t (spec_evict A) \<and>
    dom (heap t) = dom (heap s) -
      (if evict_order A = [] then {} else {victim_of (policy A) (entries A) (evict_order A)})"
proof -
  from RemoveCache_refines [OF assms] obtain t where
    t: "RemoveCache s = Some t" "refines t (spec_evict A)" by blast
  have "dom (heap t) = dom (entries (spec_evict A))" "dom (heap s) = dom (entries A)"
    using refinesD(2) [OF t(2)] refinesD(2) [OF assms] dom_payload by metis+
  with t show ?thesis by (auto simp: spec_evict_def spec_drop_def split: if_splits)
qed

theorem RemoveCache_policy_witness:
  "\<exists>t. RemoveCache demo_cache = Some t \<and> dom (heap t) = {}"
  using RemoveCache_policy [OF demo_refines]
  by (auto simp: demo_spec_def demo_cache_def victim_of_def)



text \<open>
  \<^verbatim>\<open>Cache_clear\<close> returns, frees every node of every chain exactly once, resets the size to zero, and
  every later lookup misses.
\<close>
theorem Cache_clear_empties:
  assumes "cache_inv s"
  shows "\<exists>t. Cache_clear s = Some t \<and> heap t = (\<lambda>_. None) \<and> CACHE_SIZE t = 0 \<and>
    (\<forall>now url. \<exists>u. FindCache now url t = Some (None, u))"
proof -
  from assms obtain A where A: "refines s A" using inv_refines by blast
  let ?B = "A\<lparr>evict_order := [], by_age := [], entries := (\<lambda>_. None)\<rparr>"
  from Cache_clear_refines [OF A] obtain t where t: "Cache_clear s = Some t" "refines t ?B" by blast
  have "dom (heap t) = {}" using refinesD(1) [OF t(2)] by (simp add: rep_def)
  moreover have "CACHE_SIZE t = 0" using refines_bytes [OF t(2)] by (simp add: spec_bytes_def)
  moreover have "\<exists>u. FindCache now url t = Some (None, u)" for now url
    using FindCache_refines [OF t(2), of now url] by (auto simp: spec_find_def spec_lookup_def)
  ultimately show ?thesis using t(1) by blast
qed

theorem Cache_clear_empties_witness:
  "\<exists>t. Cache_clear demo_cache = Some t \<and> heap t = (\<lambda>_. None) \<and> CACHE_SIZE t = 0"
  using Cache_clear_empties [OF refines_inv [OF demo_refines]] by blast

text \<open>
  Insertion does not replace. Adding a URL twice keeps both entries, and a purge of the URL
  removes only the newer one: the next lookup serves the older response again.
\<close>
theorem purge_exposes_older:
  "map_option (\<lambda>(r, u). map_option (entry_data u) (Option.bind r (heap u)))
     (Option.bind
       (run_ops cache_step [Op_add demo_config demo_env ''old'' 3 ''u'', Op_add demo_config demo_env ''new'' 3 ''u'',
          Op_purge ''u''] empty_cache)
       (FindCache 200 ''u'')) = Some (Some ''old'')"
  by code_simp

text \<open>
  The pointer \<^verbatim>\<open>FindCache\<close> returns is not protected after the lock is released. After a hit on an
  entry, the insertion of another URL evicts and frees that entry while the caller still holds its
  address.
\<close>
theorem found_entry_can_be_freed:
  "map_option (\<lambda>(r, u). (r, map_option (\<lambda>v. map_option URL (heap v 0))
       (run_ops cache_step [Op_add (demo_config\<lparr>max_cache_size := 100\<rparr>) demo_env ''b'' 1 ''v''] u)))
     (Option.bind (run_ops cache_step [Op_add (demo_config\<lparr>max_cache_size := 100\<rparr>) demo_env ''a'' 1 ''u''] empty_cache) (FindCache 200 ''u''))
   = Some (Some 0, Some None)"
  by code_simp

text \<open>
  Cache files are named by the hash bucket and the second only. When a large response is written
  under a name that an entry already in the cache has mapped, the entry's data become the bytes of
  the new response.
\<close>
theorem shared_cache_file:
  assumes "0 \<le> sz" "nat sz \<le> length d" "sz > 128 * 1024" "open_ok env" "write_result env = sz"
    and "hash_url url = hash_url url'" "files s (cache_file_name (g_cache_dir s) url' (time_path env)) = Some i"
    and "DATA n = Mapped_Data i" "0 \<le> CLENGTH n" "CLENGTH n \<le> sz"
  shows "\<exists>disk t. store_on_disk env d sz url s = Some (disk, t) \<and>
    entry_data t n = take (nat (CLENGTH n)) d"
  using assms by (simp add: store_on_disk_def read_buf_def cache_file_name_def entry_data_def min_def)

theorem shared_cache_file_witness:
  "\<exists>disk t. store_on_disk (demo_env\<lparr>write_result := 131073\<rparr>) (replicate 131073 CHR ''n'') 131073 ''u''
      (empty_cache\<lparr>files := [cache_file_name ''/tmp/proxy_cache'' ''u'' 100 \<mapsto> 7]\<rparr>) = Some (disk, t) \<and>
    entry_data t (demo_node\<lparr>DATA := Mapped_Data 7\<rparr>) = ''nn''"
proof -
  have "take 2 (replicate 131073 CHR ''n'') = ''nn''" by (simp add: numeral_2_eq_2)
  with shared_cache_file [of 131073 "replicate 131073 CHR ''n''" "demo_env\<lparr>write_result := 131073\<rparr>" "''u''" "''u''"
      "empty_cache\<lparr>files := [cache_file_name ''/tmp/proxy_cache'' ''u'' 100 \<mapsto> 7]\<rparr>" 7 "demo_node\<lparr>DATA := Mapped_Data 7\<rparr>"]
  show ?thesis by (simp add: demo_env_def demo_node_def empty_cache_def)
qed

end
