(* ===== verification/ProxyParse.thy ===== *)
theory ProxyParse
  imports Prelude
begin

text \<open>
  \<^verbatim>\<open>src/src/proxy_parse.h\<close> and \<^verbatim>\<open>src/src/proxy_parse.c\<close>: the HTTP request parser, its header table and
  the functions that print a request again.

  A \<^verbatim>\<open>char *\<close> field is a \<^verbatim>\<open>cptr\<close>: it may hold what \<^verbatim>\<open>malloc\<close> left there, NULL, an address that has
  been freed, or a string. \<^term>\<open>None\<close> as the result of an operation stands for undefined behaviour:
  a field that is not a string is read, a buffer is read or written outside its bounds. The
  allocator is taken to succeed, as the code takes it to (it checks no \<^verbatim>\<open>malloc\<close> but the one of the
  request object). \<^verbatim>\<open>pr_buf\<close> is the request line, which \<^verbatim>\<open>method\<close> and \<^verbatim>\<open>version\<close> point into.
\<close>

section \<open>State\<close>

datatype cptr = Uninit | Null | Dangling | Str string

fun deref :: "cptr \<Rightarrow> string option" where
  "deref (Str s) = Some s"
| "deref _ = None"

record ParsedHeader =
  h_key :: "string option" \<comment> \<open>\<^verbatim>\<open>NULL\<close> in a removed slot, whose value is never read again\<close>
  h_keylen :: nat
  h_value :: string
  h_valuelen :: nat

record ParsedRequest =
  pr_method :: cptr
  pr_protocol :: cptr
  pr_host :: cptr
  pr_port :: cptr
  pr_path :: cptr
  pr_version :: cptr
  pr_buf :: "string option"
  pr_buflen :: nat
  headers :: "ParsedHeader list" \<comment> \<open>the first \<^verbatim>\<open>headersused\<close> slots\<close>
  headerslen :: nat

definition headersused :: "ParsedRequest \<Rightarrow> nat" where
  "headersused pr = length (headers pr)"

section \<open>The header table\<close>

definition ParsedHeader_get :: "ParsedRequest \<Rightarrow> string \<Rightarrow> nat option" where
  "ParsedHeader_get pr key = find_pos (\<lambda>h. h_key h = Some key) (headers pr)"

definition ParsedHeader_remove :: "ParsedRequest \<Rightarrow> string \<Rightarrow> int \<times> ParsedRequest" where
  "ParsedHeader_remove pr key =
     (case ParsedHeader_get pr key of
        None \<Rightarrow> (-1, pr)
      | Some i \<Rightarrow> (0, pr\<lparr>headers := (headers pr)[i := (headers pr ! i)\<lparr>h_key := None\<rparr>]\<rparr>))"

definition ParsedHeader_set :: "ParsedRequest \<Rightarrow> string \<Rightarrow> string \<Rightarrow> (int \<times> ParsedRequest) option" where
  "ParsedHeader_set pr key v =
     (let pr = snd (ParsedHeader_remove pr key);
          pr = (if headerslen pr \<le> headersused pr + 1 then pr\<lparr>headerslen := headerslen pr * 2\<rparr> else pr);
          ph = \<lparr>h_key = Some key, h_keylen = length key + 1, h_value = v, h_valuelen = length v + 1\<rparr>
      in if headersused pr < headerslen pr then Some (0, pr\<lparr>headers := headers pr @ [ph]\<rparr>) else None)"

definition header_value :: "ParsedRequest \<Rightarrow> string \<Rightarrow> string option" where
  \<comment> \<open>what a caller reads through the pointer \<^verbatim>\<open>ParsedHeader_get\<close> returns\<close>
  "header_value pr key = map_option (\<lambda>i. h_value (headers pr ! i)) (ParsedHeader_get pr key)"

definition ParsedHeader_create :: "ParsedRequest \<Rightarrow> ParsedRequest" where
  "ParsedHeader_create pr = pr\<lparr>headers := [], headerslen := 8\<rparr>"

definition ParsedHeader_lineLen :: "ParsedHeader \<Rightarrow> nat" where
  "ParsedHeader_lineLen ph = (case h_key ph of Some k \<Rightarrow> length k + length (h_value ph) + 4 | None \<Rightarrow> 0)"

definition ParsedHeader_headersLen :: "ParsedRequest \<Rightarrow> nat" where
  "ParsedHeader_headersLen pr =
     (if pr_buf pr = None then 0 else sum_list (map ParsedHeader_lineLen (headers pr)) + 2)"

definition header_line :: "ParsedHeader \<Rightarrow> string" where
  "header_line ph = (case h_key ph of Some k \<Rightarrow> k @ '': '' @ h_value ph @ CRLF | None \<Rightarrow> [])"

definition ParsedHeader_printHeaders :: "ParsedRequest \<Rightarrow> nat \<Rightarrow> int \<times> char list" where
  \<comment> \<open>the return value and the bytes written to \<^verbatim>\<open>buf\<close>, the NUL included\<close>
  "ParsedHeader_printHeaders pr len =
     (if len < ParsedHeader_headersLen pr then (-1, [])
      else (0, concat (map header_line (headers pr)) @ CRLF @ [NUL]))"

definition ParsedHeader_destroyOne :: "ParsedHeader \<Rightarrow> ParsedHeader" where
  "ParsedHeader_destroyOne ph =
     (if h_key ph \<noteq> None then ph\<lparr>h_key := None, h_value := [], h_keylen := 0, h_valuelen := 0\<rparr> else ph)"

definition ParsedHeader_destroy :: "ParsedRequest \<Rightarrow> ParsedRequest" where
  \<comment> \<open>every used slot is destroyed, then \<^verbatim>\<open>headersused\<close> and \<^verbatim>\<open>headerslen\<close> are reset\<close>
  "ParsedHeader_destroy pr =
     (let slots = map ParsedHeader_destroyOne (headers pr)
      in pr\<lparr>headers := take 0 slots, headerslen := 0\<rparr>)"

definition ParsedHeader_parse :: "ParsedRequest \<Rightarrow> string \<Rightarrow> (int \<times> ParsedRequest) option" where
  \<comment> \<open>\<^verbatim>\<open>line\<close> is the rest of the request, not only its first line\<close>
  "ParsedHeader_parse pr line =
     (case strchr line (CHR '':'') of
        None \<Rightarrow> Some (-1, pr)
      | Some i \<Rightarrow>
          if i + 2 > length line then None
          else (case strstr (drop (i + 2) line) CRLF of
                  None \<Rightarrow> None
                | Some j \<Rightarrow>
                    (case ParsedHeader_set pr (take i line) (take j (drop (i + 2) line)) of
                       None \<Rightarrow> None
                     | Some (_, pr') \<Rightarrow> Some (0, pr'))))"

section \<open>Life cycle\<close>

definition ParsedRequest_create :: ParsedRequest where
  \<comment> \<open>\<^verbatim>\<open>port\<close> is the one field that is not assigned\<close>
  "ParsedRequest_create =
     \<lparr>pr_method = Null, pr_protocol = Null, pr_host = Null, pr_port = Uninit, pr_path = Null,
      pr_version = Null, pr_buf = None, pr_buflen = 0, headers = [], headerslen = 8\<rparr>"

definition ParsedRequest_destroy :: "ParsedRequest \<Rightarrow> unit option" where
  "ParsedRequest_destroy pr =
     (case pr_path pr of Str _ \<Rightarrow> Some () | Null \<Rightarrow> Some () | Uninit \<Rightarrow> None | Dangling \<Rightarrow> None)"

section \<open>The request line\<close>

fun dangle :: "cptr \<Rightarrow> cptr" where
  "dangle (Str _) = Dangling"
| "dangle p = p"

definition fail_line :: "ParsedRequest \<Rightarrow> int \<times> ParsedRequest" where
  \<comment> \<open>\<^verbatim>\<open>free(parse->buf); parse->buf = NULL; return -1\<close>: what points into the line dangles\<close>
  "fail_line pr =
     (-1, pr\<lparr>pr_buf := None, pr_method := dangle (pr_method pr), pr_version := dangle (pr_version pr)\<rparr>)"

definition parse_connect_addr :: "string \<Rightarrow> ParsedRequest \<Rightarrow> int \<times> ParsedRequest" where
  "parse_connect_addr full_addr pr =
     (let done = (\<lambda>pr. (0, pr\<lparr>pr_path := Str ''/'', pr_protocol := Null\<rparr>))
      in case full_addr of
           c # addr \<Rightarrow>
             if c = CHR ''[''
             then (case strchr addr (CHR '']'') of
                     None \<Rightarrow> fail_line pr
                   | Some i \<Rightarrow>
                       (let port_ptr = drop (i + 1) addr
                        in done (pr\<lparr>pr_host := Str (take i addr),
                                    pr_port := Str (case port_ptr of
                                                      d # p \<Rightarrow> if d = CHR '':'' then p else ''443''
                                                    | [] \<Rightarrow> ''443'')\<rparr>)))
             else (case strtok '':'' full_addr of
                     None \<Rightarrow> fail_line (pr\<lparr>pr_host := Null\<rparr>)
                   | Some (h, rest) \<Rightarrow>
                       done (pr\<lparr>pr_host := Str h,
                                pr_port := Str (if drop 1 rest \<noteq> [] then drop 1 rest else ''443'')\<rparr>))
         | [] \<Rightarrow> fail_line (pr\<lparr>pr_host := Null\<rparr>))"

definition split_host :: "bool \<Rightarrow> ParsedRequest \<Rightarrow> int \<times> ParsedRequest" where
  \<comment> \<open>the port of an absolute URI, cut off \<^verbatim>\<open>parse->host\<close>; \<^verbatim>\<open>einval\<close> says that \<^verbatim>\<open>errno\<close> is \<^verbatim>\<open>EINVAL\<close>\<close>
  "split_host einval pr =
     (case deref (pr_host pr) of
        None \<Rightarrow> (0, pr)
      | Some h \<Rightarrow>
          if take 1 h = ''[''
          then (case strchr h (CHR '']'') of
                  None \<Rightarrow> (0, pr)
                | Some e \<Rightarrow>
                    (let pr = (case strchr (drop e h) (CHR '':'') of
                                 Some c \<Rightarrow> pr\<lparr>pr_port := Str (drop (e + c + 1) h)\<rparr>
                               | None \<Rightarrow> pr)
                     in (0, pr\<lparr>pr_host := Str (take (e - 1) (drop 1 h))\<rparr>)))
          else (case strchr h (CHR '':'') of
                  None \<Rightarrow> (0, pr)
                | Some c \<Rightarrow>
                    (let p = drop (c + 1) h;
                         pr = pr\<lparr>pr_host := Str (take c h), pr_port := Str p\<rparr>
                     in if p \<noteq> [] \<and> atoi p = 0 \<and> einval
                        then fail_line (pr\<lparr>pr_path := Null\<rparr>) else (0, pr))))"

definition parse_get_addr :: "bool \<Rightarrow> string \<Rightarrow> ParsedRequest \<Rightarrow> int \<times> ParsedRequest" where
  "parse_get_addr einval full_addr pr =
     (let full_addr = (if prefix ''/http://'' full_addr \<or> prefix ''/https://'' full_addr
                       then drop 1 full_addr else full_addr)
      in case strstr full_addr ''://'' of
           Some i \<Rightarrow>
             (let pr = pr\<lparr>pr_protocol := Str (take i full_addr)\<rparr>; rem = drop (i + 3) full_addr
              in case strchr rem (CHR ''/'') of
                   None \<Rightarrow> fail_line pr
                 | Some n \<Rightarrow>
                     if n = 0 then fail_line pr
                     else split_host einval (pr\<lparr>pr_host := Str (take n rem), pr_path := Str (drop n rem)\<rparr>))
         | None \<Rightarrow>
             (0, pr\<lparr>pr_protocol := Str ''http'', pr_host := Null, pr_port := Null,
                    pr_path := Str (if take 1 full_addr = ''/'' then full_addr else ''/'' @ full_addr)\<rparr>))"

definition parse_request_line :: "bool \<Rightarrow> string \<Rightarrow> ParsedRequest \<Rightarrow> (int \<times> ParsedRequest) option" where
  "parse_request_line einval line pr =
     (case strtok '' '' line of
        None \<Rightarrow> Some (fail_line (pr\<lparr>pr_method := Null\<rparr>))
      | Some (m, rest) \<Rightarrow>
          (let pr = pr\<lparr>pr_method := Str m\<rparr>
           in if m \<noteq> ''GET'' \<and> m \<noteq> ''CONNECT'' then Some (fail_line pr)
              else (case strtok '' '' rest of
                      None \<Rightarrow> Some (fail_line pr)
                    | Some (full_addr, rest) \<Rightarrow>
                        (case rest of
                           [] \<Rightarrow> None \<comment> \<open>\<^verbatim>\<open>version\<close> points behind the terminator of the buffer\<close>
                         | _ # v \<Rightarrow>
                             (let pr = pr\<lparr>pr_version := Str v\<rparr>
                              in if \<not> prefix ''HTTP/'' v then Some (fail_line pr)
                                 else if m = ''CONNECT'' then Some (parse_connect_addr full_addr pr)
                                 else Some (parse_get_addr einval full_addr pr))))))"

section \<open>The headers of a request\<close>

function parse_headers :: "string \<Rightarrow> ParsedRequest \<Rightarrow> (int \<times> ParsedRequest) option" where
  "parse_headers cur pr =
     (if cur = [] \<or> prefix CRLF cur then Some (0, pr)
      else (case ParsedHeader_parse pr cur of
              None \<Rightarrow> None
            | Some (r, pr) \<Rightarrow>
                if r \<noteq> 0 then Some (-1, pr)
                else (case strstr cur CRLF of
                        None \<Rightarrow> Some (0, pr)
                      | Some i \<Rightarrow> parse_headers (drop (i + 2) cur) pr)))"
  by pat_completeness auto
termination
  by (relation "measure (\<lambda>(cur, pr). length cur)") (auto dest: strstr_bound)

declare parse_headers.simps [simp del]

definition parse_host_header :: "ParsedRequest \<Rightarrow> int \<times> ParsedRequest" where
  "parse_host_header pr =
     (case header_value pr ''Host'' of
        None \<Rightarrow> fail_line pr
      | Some hv \<Rightarrow>
          if take 1 hv = ''[''
          then (case strchr hv (CHR '']'') of
                  Some e \<Rightarrow>
                    (let pr = (case strchr (drop e hv) (CHR '':'') of
                                 Some c \<Rightarrow> pr\<lparr>pr_port := Str (drop (e + c + 1) hv)\<rparr>
                               | None \<Rightarrow> pr)
                     in (0, pr\<lparr>pr_host := Str (take (e - 1) (drop 1 hv))\<rparr>))
                | None \<Rightarrow> (0, pr\<lparr>pr_host := Str hv\<rparr>))
          else (case strchr hv (CHR '':'') of
                  Some c \<Rightarrow> (0, pr\<lparr>pr_host := Str (take c hv), pr_port := Str (drop (c + 1) hv)\<rparr>)
                | None \<Rightarrow> (0, pr\<lparr>pr_host := Str hv\<rparr>)))"

definition ParsedRequest_parse ::
  "bool \<Rightarrow> ParsedRequest \<Rightarrow> string \<Rightarrow> int \<Rightarrow> (int \<times> ParsedRequest) option" where
  "ParsedRequest_parse einval pr buf buflen =
     (if pr_buf pr \<noteq> None then Some (-1, pr)
      else if buflen < 4 \<or> buflen > 65535 then Some (-1, pr)
      else if nat buflen > length buf then None
      else
        let tmp = c_str (take (nat buflen) buf)
        in if strstr tmp (CRLF @ CRLF) = None then Some (-1, pr)
           else (case strstr tmp CRLF of
                   None \<Rightarrow> None
                 | Some i \<Rightarrow>
                     (case parse_request_line einval (take i tmp) (pr\<lparr>pr_buf := Some (take i tmp), pr_buflen := i + 1\<rparr>) of
                        None \<Rightarrow> None
                      | Some (r, pr) \<Rightarrow>
                          if r \<noteq> 0 then Some (-1, pr)
                          else (case parse_headers (drop (i + 2) tmp) pr of
                                  None \<Rightarrow> None
                                | Some (r, pr) \<Rightarrow>
                                    if r = 0 \<and> pr_host pr = Null \<and> pr_method pr \<noteq> Str ''CONNECT''
                                    then Some (parse_host_header pr) else Some (r, pr)))))"

section \<open>Printing\<close>

definition port_text :: "cptr \<Rightarrow> string option" where
  "port_text p = (case p of Null \<Rightarrow> Some [] | Str s \<Rightarrow> Some (CHR '':'' # s) | _ \<Rightarrow> None)"

definition ParsedRequest_requestLineLen :: "ParsedRequest \<Rightarrow> nat option" where
  "ParsedRequest_requestLineLen pr =
     (if pr_buf pr = None then Some 0
      else do {
        m \<leftarrow> deref (pr_method pr);
        proto \<leftarrow> deref (pr_protocol pr);
        h \<leftarrow> deref (pr_host pr);
        v \<leftarrow> deref (pr_version pr);
        port \<leftarrow> port_text (pr_port pr);
        p \<leftarrow> deref (pr_path pr);
        Some (length m + 1 + length proto + 3 + length h + 1 + length v + 2 + length port + length p)
      })"

definition ParsedRequest_printRequestLine :: "ParsedRequest \<Rightarrow> nat \<Rightarrow> (int \<times> string) option" where
  "ParsedRequest_printRequestLine pr buflen =
     do {
       n \<leftarrow> ParsedRequest_requestLineLen pr;
       (if buflen < n then Some (-1, [])
        else do {
          m \<leftarrow> deref (pr_method pr);
          proto \<leftarrow> deref (pr_protocol pr);
          h \<leftarrow> deref (pr_host pr);
          port \<leftarrow> port_text (pr_port pr);
          p \<leftarrow> deref (pr_path pr);
          v \<leftarrow> deref (pr_version pr);
          Some (0, m @ '' '' @ proto @ ''://'' @ h @ port @ p @ '' '' @ v @ CRLF)
        })
     }"

definition ParsedRequest_unparse :: "ParsedRequest \<Rightarrow> nat \<Rightarrow> (int \<times> char list) option" where
  "ParsedRequest_unparse pr buflen =
     (if pr_buf pr = None then Some (-1, [])
      else do {
        (r, line) \<leftarrow> ParsedRequest_printRequestLine pr buflen;
        (if r < 0 then Some (-1, line)
         else (case ParsedHeader_printHeaders pr (buflen - length line) of
                 (r, hs) \<Rightarrow> if r < 0 then Some (-1, line) else Some (0, line @ hs)))
      })"

definition ParsedRequest_unparse_headers :: "ParsedRequest \<Rightarrow> nat \<Rightarrow> int \<times> char list" where
  "ParsedRequest_unparse_headers pr buflen =
     (if pr_buf pr = None then (-1, [])
      else (case ParsedHeader_printHeaders pr buflen of (r, hs) \<Rightarrow> if r < 0 then (-1, hs) else (0, hs)))"

definition ParsedRequest_totalLen :: "ParsedRequest \<Rightarrow> nat option" where
  "ParsedRequest_totalLen pr =
     (if pr_buf pr = None then Some 0
      else do { n \<leftarrow> ParsedRequest_requestLineLen pr; Some (n + ParsedHeader_headersLen pr) })"

end
