(* ===== verification/String_Table.thy ===== *)
theory String_Table
  imports Main
begin

text \<open>
  The contract of a table from names to strings, as the request parser's header table provides it
  and the request handler uses it: what a lookup returns after a store and after a removal, and
  what follows for a sequence of stores.
\<close>

locale string_table =
  fixes ok :: "'s \<Rightarrow> bool"
    and look :: "'s \<Rightarrow> string \<Rightarrow> string option"
    and put :: "'s \<Rightarrow> string \<Rightarrow> string \<Rightarrow> 's option"
    and del :: "'s \<Rightarrow> string \<Rightarrow> 's"
  assumes put_ok: "ok s \<Longrightarrow> \<exists>t. put s k v = Some t \<and> ok t"
    and look_put: "ok s \<Longrightarrow> put s k v = Some t \<Longrightarrow> look t = (look s)(k \<mapsto> v)"
    and del_ok: "ok s \<Longrightarrow> ok (del s k)"
    and look_del: "ok s \<Longrightarrow> look (del s k) = (look s)(k := None)"
begin

fun puts :: "(string \<times> string) list \<Rightarrow> 's \<Rightarrow> 's option" where
  "puts [] s = Some s"
| "puts ((k, v) # kvs) s = (case put s k v of None \<Rightarrow> None | Some t \<Rightarrow> puts kvs t)"

lemma puts_look:
  "ok s \<Longrightarrow> \<exists>t. puts kvs s = Some t \<and> ok t \<and> look t = look s ++ map_of (rev kvs)"
proof (induction kvs s rule: puts.induct)
  case (2 k v kvs s)
  then obtain t where t: "put s k v = Some t" "ok t" using put_ok by blast
  with "2.IH" obtain u where "puts kvs t = Some u" "ok u" "look u = look t ++ map_of (rev kvs)" by blast
  with t look_put [OF "2.prems" t(1)] show ?case by (auto simp: map_add_def fun_eq_iff split: option.split)
qed simp

lemma put_twice:
  assumes "ok s" "put s k v = Some t" "put t k w = Some u"
  shows "look u = (look s)(k \<mapsto> w)"
proof -
  have "ok t" using put_ok [OF assms(1), of k v] assms(2) by auto
  with look_put [OF this assms(3)] look_put [OF assms(1,2)] show ?thesis by simp
qed

lemma del_put: "ok s \<Longrightarrow> put s k v = Some t \<Longrightarrow> look (del t k) = (look s)(k := None)"
  using put_ok [of s k v] look_put [of s k v t] look_del [of t k] by auto

end

end
