(* ===== verification/ProxyParse_Laws.thy ===== *)
theory ProxyParse_Laws
  imports ProxyParse String_Table
begin

text \<open>
  The laws of the request parser: the header table keeps its bounds and behaves as a map, what is
  printed has the announced length, printed headers and printed requests are parsed back, and the
  inputs on which the parser leaves defined behaviour.
\<close>

section \<open>The header table\<close>

definition live_keys :: "ParsedHeader list \<Rightarrow> string list" where
  "live_keys hs = List.map_filter h_key hs"

definition headers_ok :: "ParsedRequest \<Rightarrow> bool" where
  "headers_ok pr \<longleftrightarrow> headersused pr < headerslen pr \<and> distinct (live_keys (headers pr))"

lemma live_keys_simps [simp]:
  "live_keys [] = []" "live_keys (xs @ ys) = live_keys xs @ live_keys ys"
  "live_keys (h # hs) = (case h_key h of None \<Rightarrow> live_keys hs | Some k \<Rightarrow> k # live_keys hs)"
  by (auto simp: live_keys_def map_filter_def split: option.split)

fun slots_value :: "ParsedHeader list \<Rightarrow> string \<Rightarrow> string option" where
  "slots_value [] k = None"
| "slots_value (h # hs) k = (if h_key h = Some k then Some (h_value h) else slots_value hs k)"

lemma header_value_slots: "header_value pr k = slots_value (headers pr) k"
proof -
  have "map_option (\<lambda>i. h_value (hs ! i)) (find_pos (\<lambda>h. h_key h = Some k) hs) = slots_value hs k" for hs
    by (induction hs) (auto simp: option.map_comp comp_def)
  then show ?thesis by (simp add: header_value_def ParsedHeader_get_def)
qed

lemma slots_value_append: "slots_value (xs @ ys) k = (case slots_value xs k of None \<Rightarrow> slots_value ys k | Some v \<Rightarrow> Some v)"
  by (induction xs) auto

lemma slots_value_None: "slots_value hs k = None \<longleftrightarrow> k \<notin> set (live_keys hs)"
  by (induction hs) (auto split: option.split)

fun clear_slot :: "ParsedHeader list \<Rightarrow> string \<Rightarrow> ParsedHeader list" where
  "clear_slot [] k = []"
| "clear_slot (h # hs) k = (if h_key h = Some k then h\<lparr>h_key := None\<rparr> # hs else h # clear_slot hs k)"

lemma remove_headers: "headers (snd (ParsedHeader_remove pr k)) = clear_slot (headers pr) k"
proof -
  have "(case find_pos (\<lambda>h. h_key h = Some k) hs of None \<Rightarrow> hs | Some i \<Rightarrow> hs[i := (hs ! i)\<lparr>h_key := None\<rparr>])
      = clear_slot hs k" for hs
    by (induction hs) (auto split: option.splits)
  from this [of "headers pr"] show ?thesis
    by (auto simp: ParsedHeader_remove_def ParsedHeader_get_def split: option.split)
qed

lemma length_clear_slot [simp]: "length (clear_slot hs k) = length hs"
  by (induction hs) auto

lemma live_keys_clear: "live_keys (clear_slot hs k) = remove1 k (live_keys hs)"
  by (induction hs) (auto split: option.split)

lemma slots_value_clear:
  "distinct (live_keys hs) \<Longrightarrow> slots_value (clear_slot hs k) = (slots_value hs)(k := None)"
proof (induction hs)
  case (Cons h hs)
  then show ?case
    by (cases "h_key h") (auto simp: fun_eq_iff slots_value_None)
qed auto

lemma clear_slot_absent: "k \<notin> set (live_keys hs) \<Longrightarrow> clear_slot hs k = hs"
  by (induction hs) (auto split: option.splits)

definition new_slot :: "string \<Rightarrow> string \<Rightarrow> ParsedHeader" where
  "new_slot k v = \<lparr>h_key = Some k, h_keylen = length k + 1, h_value = v, h_valuelen = length v + 1\<rparr>"

lemma new_slot_sel [simp]: "h_key (new_slot k v) = Some k" "h_value (new_slot k v) = v"
  by (simp_all add: new_slot_def)

lemma remove_frame [frame]:
  "headerslen (snd (ParsedHeader_remove pr k)) = headerslen pr" "pr_method (snd (ParsedHeader_remove pr k)) = pr_method pr"
  "pr_protocol (snd (ParsedHeader_remove pr k)) = pr_protocol pr" "pr_host (snd (ParsedHeader_remove pr k)) = pr_host pr"
  "pr_port (snd (ParsedHeader_remove pr k)) = pr_port pr" "pr_path (snd (ParsedHeader_remove pr k)) = pr_path pr"
  "pr_version (snd (ParsedHeader_remove pr k)) = pr_version pr" "pr_buf (snd (ParsedHeader_remove pr k)) = pr_buf pr"
  "pr_buflen (snd (ParsedHeader_remove pr k)) = pr_buflen pr"
  by (auto simp: ParsedHeader_remove_def split: option.split)

lemma set_headers:
  assumes "headersused pr < headerslen pr"
  shows "\<exists>n. ParsedHeader_set pr k v = Some (0, pr\<lparr>headers := clear_slot (headers pr) k @ [new_slot k v], headerslen := n\<rparr>) \<and>
    headersused pr + 1 < n"
proof -
  let ?r = "snd (ParsedHeader_remove pr k)"
  have r: "?r = pr\<lparr>headers := clear_slot (headers pr) k\<rparr>"
    using remove_headers [of pr k] remove_frame [of pr k]
    by (intro ParsedRequest.equality) simp_all
  show ?thesis
    using assms unfolding ParsedHeader_set_def r
    by (intro exI [of _ "if headerslen pr \<le> headersused pr + 1 then headerslen pr * 2 else headerslen pr"])
      (auto simp: headersused_def new_slot_def Let_def)
qed

lemma set_ok:
  assumes "headers_ok pr"
  shows "\<exists>t. ParsedHeader_set pr k v = Some (0, t) \<and> headers_ok t"
proof -
  from set_headers [of pr k v] assms obtain n where
    "ParsedHeader_set pr k v = Some (0, pr\<lparr>headers := clear_slot (headers pr) k @ [new_slot k v], headerslen := n\<rparr>)"
    "headersused pr + 1 < n" by (auto simp: headers_ok_def)
  with assms show ?thesis
    by (auto simp: headers_ok_def headersused_def live_keys_clear)
qed

lemma set_value:
  assumes "headers_ok pr" "ParsedHeader_set pr k v = Some (r, t)"
  shows "header_value t = (header_value pr)(k \<mapsto> v)"
proof -
  from set_headers [of pr k v] assms obtain n where
    "t = pr\<lparr>headers := clear_slot (headers pr) k @ [new_slot k v], headerslen := n\<rparr>" by (auto simp: headers_ok_def)
  moreover have "distinct (live_keys (headers pr))" using assms(1) by (simp add: headers_ok_def)
  ultimately show ?thesis
    by (auto simp: fun_eq_iff header_value_slots slots_value_append slots_value_clear split: option.split)
qed

interpretation header_table: string_table headers_ok header_value
    "\<lambda>pr k v. map_option snd (ParsedHeader_set pr k v)" "\<lambda>pr k. snd (ParsedHeader_remove pr k)"
proof
  fix pr k v t
  assume ok: "headers_ok pr"
  show "\<exists>t. map_option snd (ParsedHeader_set pr k v) = Some t \<and> headers_ok t"
    using set_ok [OF ok, of k v] by auto
  show "headers_ok (snd (ParsedHeader_remove pr k))"
    using ok by (simp add: headers_ok_def headersused_def remove_headers live_keys_clear remove_frame)
  show "header_value (snd (ParsedHeader_remove pr k)) = (header_value pr)(k := None)"
    using ok by (auto simp: header_value_slots fun_eq_iff remove_headers slots_value_clear headers_ok_def)
  assume "map_option snd (ParsedHeader_set pr k v) = Some t"
  then show "header_value t = (header_value pr)(k \<mapsto> v)" using set_value [OF ok] by auto
qed

section \<open>Lengths\<close>

lemma header_line_length: "length (header_line h) = ParsedHeader_lineLen h"
  by (auto simp: header_line_def ParsedHeader_lineLen_def split: option.split)

lemma concat_header_lines: "length (concat (map header_line hs)) = sum_list (map ParsedHeader_lineLen hs)"
  by (induction hs) (simp_all add: header_line_length)

section \<open>Parsing what was printed\<close>

lemma strstr_append:
  "p \<notin> set us \<Longrightarrow> strstr (us @ p # ps @ vs) (p # ps) = Some (length us)"
  by (induction us) auto

definition line_text :: "string \<times> string \<Rightarrow> string" where
  "line_text kv = fst kv @ '': '' @ snd kv @ CRLF"

definition line_safe :: "string \<times> string \<Rightarrow> bool" where
  \<comment> \<open>a name without colon, name and value without carriage return\<close>
  "line_safe kv \<longleftrightarrow> CHR '':'' \<notin> set (fst kv) \<and> CR \<notin> set (fst kv) \<and> CR \<notin> set (snd kv)"

lemma header_parse_line:
  assumes "line_safe (k, v)"
  shows "ParsedHeader_parse pr (line_text (k, v) @ rest) =
    map_option (\<lambda>(_, t). (0, t)) (ParsedHeader_set pr k v)"
proof -
  have c: "strchr (k @ CHR '':'' # CHR '' '' # v @ CR # LF # rest) (CHR '':'') = Some (length k)"
    using assms by (intro strchr_append) (simp add: line_safe_def)
  have "strstr (v @ CR # LF # rest) CRLF = Some (length v)"
    using assms by (intro strstr_CRLF_append) (simp add: line_safe_def)
  with c show ?thesis
    by (simp add: ParsedHeader_parse_def line_text_def split: option.split)
qed

lemma parse_headers_step:
  "cur \<noteq> [] \<Longrightarrow> \<not> prefix CRLF cur \<Longrightarrow> ParsedHeader_parse pr cur = Some (0, t) \<Longrightarrow> strstr cur CRLF = Some n \<Longrightarrow>
     parse_headers cur pr = parse_headers (drop (n + 2) cur) t"
  by (subst parse_headers.simps) simp

lemma parse_headers_line:
  assumes "line_safe (k, v)" "ParsedHeader_set pr k v = Some (r, t)"
  shows "parse_headers (line_text (k, v) @ rest) pr = parse_headers rest t"
proof -
  have "strstr ((k @ '': '' @ v) @ CR # LF # rest) CRLF = Some (length (k @ '': '' @ v))"
    using assms(1) by (intro strstr_CRLF_append) (simp add: line_safe_def)
  then have n: "strstr (line_text (k, v) @ rest) CRLF = Some (length k + length v + 2)"
    by (simp add: line_text_def)
  have ne: "line_text (k, v) @ rest \<noteq> []" "\<not> prefix CRLF (line_text (k, v) @ rest)"
    using assms(1) by (cases k; simp add: line_text_def line_safe_def)+
  have "length (line_text (k, v)) = length k + length v + 2 + 2" by (simp add: line_text_def)
  then have "drop (length k + length v + 2 + 2) (line_text (k, v) @ rest) = rest"
    by (metis append_eq_conv_conj)
  moreover have "ParsedHeader_parse pr (line_text (k, v) @ rest) = Some (0, t)"
    using header_parse_line [OF assms(1), of pr rest] assms(2) by simp
  ultimately show ?thesis using parse_headers_step [OF ne _ n] by simp
qed

lemma parse_headers_end: "parse_headers (CRLF @ rest) pr = Some (0, pr)"
  by (subst parse_headers.simps) simp

text \<open>A sequence of printed lines is read as the sequence of stores.\<close>

lemma parse_headers_puts:
  "headers_ok pr \<Longrightarrow> list_all line_safe kvs \<Longrightarrow>
     parse_headers (concat (map line_text kvs) @ CRLF @ rest) pr =
       map_option (Pair 0) (header_table.puts kvs pr)"
proof (induction kvs arbitrary: pr)
  case Nil
  then show ?case using parse_headers_end [of rest pr] by simp
next
  case (Cons kv kvs)
  obtain k v where kv: "kv = (k, v)" by (cases kv)
  from set_ok [OF Cons.prems(1), of k v] obtain t where t: "ParsedHeader_set pr k v = Some (0, t)" "headers_ok t" by blast
  from parse_headers_line [OF _ t(1), of "concat (map line_text kvs) @ CRLF @ rest"] Cons.prems(2) kv
  have "parse_headers (concat (map line_text (kv # kvs)) @ CRLF @ rest) pr =
      parse_headers (concat (map line_text kvs) @ CRLF @ rest) t" by simp
  with Cons.IH [OF t(2)] Cons.prems(2) t(1) kv show ?case by simp
qed

lemma puts_fresh:
  "headers_ok pr \<Longrightarrow> distinct (map fst kvs) \<Longrightarrow> set (map fst kvs) \<inter> set (live_keys (headers pr)) = {} \<Longrightarrow>
     \<exists>n. header_table.puts kvs pr =
       Some (pr\<lparr>headers := headers pr @ map (\<lambda>(k, v). new_slot k v) kvs, headerslen := n\<rparr>)"
proof (induction kvs arbitrary: pr)
  case Nil
  then show ?case by (intro exI [of _ "headerslen pr"]) simp
next
  case (Cons kv kvs)
  obtain k v where kv: "kv = (k, v)" by (cases kv)
  have cl: "clear_slot (headers pr) k = headers pr" using Cons.prems(3) kv by (intro clear_slot_absent) auto
  from set_headers [of pr k v] Cons.prems(1) cl obtain n where
    n: "ParsedHeader_set pr k v = Some (0, pr\<lparr>headers := headers pr @ [new_slot k v], headerslen := n\<rparr>)"
    by (auto simp: headers_ok_def)
  have ok: "headers_ok (pr\<lparr>headers := headers pr @ [new_slot k v], headerslen := n\<rparr>)"
    using set_ok [OF Cons.prems(1), of k v] n by auto
  from Cons.IH [OF ok] Cons.prems kv obtain m where
    "header_table.puts kvs (pr\<lparr>headers := headers pr @ [new_slot k v], headerslen := n\<rparr>) =
       Some (pr\<lparr>headers := headers pr @ new_slot k v # map (\<lambda>(k, v). new_slot k v) kvs, headerslen := m\<rparr>)"
    by auto
  with n kv show ?case by auto
qed

section \<open>The request line\<close>

lemma strtok_word:
  assumes "w \<noteq> []" "CHR '' '' \<notin> set w"
  shows "strtok '' '' (w @ CHR '' '' # rest) = Some (w, CHR '' '' # rest)"
    "strtok '' '' (CHR '' '' # w @ CHR '' '' # rest) = Some (w, CHR '' '' # rest)"
proof -
  have d: "dropWhile (\<lambda>c. c \<in> set '' '') (w @ CHR '' '' # rest) = w @ CHR '' '' # rest"
    using assms by (cases w) auto
  have t: "takeWhile (\<lambda>c. c \<notin> set '' '') (w @ CHR '' '' # rest) = w"
    "dropWhile (\<lambda>c. c \<notin> set '' '') (w @ CHR '' '' # rest) = CHR '' '' # rest"
    using assms(2) by (auto simp: takeWhile_append dropWhile_append)
  show "strtok '' '' (w @ CHR '' '' # rest) = Some (w, CHR '' '' # rest)"
    using assms(1) d t by (simp add: strtok_def Let_def)
  then show "strtok '' '' (CHR '' '' # w @ CHR '' '' # rest) = Some (w, CHR '' '' # rest)"
    by (simp add: strtok_def)
qed

lemma request_line_get:
  assumes "a \<noteq> []" "CHR '' '' \<notin> set a" "prefix ''HTTP/'' v"
  shows "parse_request_line e (''GET '' @ a @ '' '' @ v) pr =
    Some (parse_get_addr e a (pr\<lparr>pr_method := Str ''GET'', pr_version := Str v\<rparr>))"
proof -
  have 1: "strtok '' '' (''GET '' @ a @ '' '' @ v) = Some (''GET'', CHR '' '' # a @ CHR '' '' # v)"
    using strtok_word(1) [of "''GET''" "a @ CHR '' '' # v"] by simp
  have 2: "strtok '' '' (CHR '' '' # a @ CHR '' '' # v) = Some (a, CHR '' '' # v)"
    by (rule strtok_word(2) [OF assms(1,2)])
  show ?thesis
    unfolding parse_request_line_def 1 option.case prod.case Let_def 2 list.case
    using assms(3) by simp
qed

definition uri_text :: "string \<Rightarrow> string \<Rightarrow> string option \<Rightarrow> string \<Rightarrow> string" where
  "uri_text proto h port p =
     proto @ ''://'' @ h @ (case port of None \<Rightarrow> [] | Some q \<Rightarrow> CHR '':'' # q) @ p"

definition uri_safe :: "string \<Rightarrow> string \<Rightarrow> string option \<Rightarrow> string \<Rightarrow> bool" where
  \<comment> \<open>the parts of an absolute URI that the parser splits unambiguously\<close>
  "uri_safe proto h port p \<longleftrightarrow>
     CHR '':'' \<notin> set proto \<and> CHR ''/'' \<notin> set proto \<and> h \<noteq> [] \<and> CHR ''/'' \<notin> set h \<and> CHR '':'' \<notin> set h \<and>
     take 1 h \<noteq> ''['' \<and> (case port of None \<Rightarrow> True | Some q \<Rightarrow> CHR ''/'' \<notin> set q) \<and> take 1 p = ''/''"

lemma get_addr_uri:
  assumes "uri_safe proto h port p"
  shows "parse_get_addr False (uri_text proto h port p) pr =
    (0, pr\<lparr>pr_protocol := Str proto, pr_host := Str h,
           pr_port := (case port of None \<Rightarrow> pr_port pr | Some q \<Rightarrow> Str q), pr_path := Str p\<rparr>)"
proof -
  define hp where "hp = h @ (case port of None \<Rightarrow> [] | Some q \<Rightarrow> CHR '':'' # q)"
  obtain p' where p: "p = CHR ''/'' # p'" using assms by (cases p) (auto simp: uri_safe_def)
  have u: "uri_text proto h port p = proto @ CHR '':'' # ''//'' @ hp @ CHR ''/'' # p'"
    by (simp add: uri_text_def hp_def p)
  have "take 1 (uri_text proto h port p) \<noteq> ''/''"
    unfolding u using assms by (cases proto) (auto simp: uri_safe_def)
  then have np: "\<not> prefix ''/http://'' (uri_text proto h port p)" "\<not> prefix ''/https://'' (uri_text proto h port p)"
    by (cases "uri_text proto h port p"; auto)+
  have i: "strstr (uri_text proto h port p) ''://'' = Some (length proto)"
    unfolding u using assms strstr_append [of "CHR '':''" proto "''//''" "hp @ CHR ''/'' # p'"] by (simp add: uri_safe_def)
  have r: "drop (length proto + 3) (uri_text proto h port p) = hp @ CHR ''/'' # p'"
    by (simp add: u numeral_3_eq_3)
  have n: "strchr (hp @ CHR ''/'' # p') (CHR ''/'') = Some (length hp)"
    using assms by (intro strchr_append) (auto simp: hp_def uri_safe_def split: option.splits)
  have hn: "length hp \<noteq> 0" using assms by (simp add: hp_def uri_safe_def)
  have tp: "take (length proto) (uri_text proto h port p) = proto" by (simp add: u)
  have sp: "split_host False (pr\<lparr>pr_protocol := Str proto, pr_host := Str hp, pr_path := Str p\<rparr>) =
      (0, pr\<lparr>pr_protocol := Str proto, pr_host := Str h,
           pr_port := (case port of None \<Rightarrow> pr_port pr | Some q \<Rightarrow> Str q), pr_path := Str p\<rparr>)"
  proof (cases port)
    case None
    then have hp: "hp = h" by (simp add: hp_def)
    have "strchr h (CHR '':'') = None" "take 1 h \<noteq> ''[''" using assms by (simp_all add: uri_safe_def)
    with None hp show ?thesis by (simp add: split_host_def del: strchr_None_iff)
  next
    case (Some q)
    then have hp: "hp = h @ CHR '':'' # q" by (simp add: hp_def)
    have t1: "take 1 hp \<noteq> ''[''" using assms hp by (cases h) (auto simp: uri_safe_def)
    have "strchr hp (CHR '':'') = Some (length h)"
      unfolding hp using assms by (intro strchr_append) (simp add: uri_safe_def)
    with Some t1 hp show ?thesis by (simp add: split_host_def Let_def)
  qed
  show ?thesis
    using np i r n hn tp sp p by (simp add: parse_get_addr_def Let_def)
qed

definition request_text ::
  "string \<Rightarrow> string \<Rightarrow> string option \<Rightarrow> string \<Rightarrow> string \<Rightarrow> (string \<times> string) list \<Rightarrow> string" where
  "request_text proto h port p v kvs =
     ''GET '' @ uri_text proto h port p @ '' '' @ v @ CRLF @ concat (map line_text kvs) @ CRLF"

definition request_safe ::
  "string \<Rightarrow> string \<Rightarrow> string option \<Rightarrow> string \<Rightarrow> string \<Rightarrow> (string \<times> string) list \<Rightarrow> bool" where
  "request_safe proto h port p v kvs \<longleftrightarrow>
     uri_safe proto h port p \<and> prefix ''HTTP/'' v \<and> list_all line_safe kvs \<and> distinct (map fst kvs) \<and>
     CHR '' '' \<notin> set (uri_text proto h port p) \<and> CR \<notin> set (uri_text proto h port p @ v) \<and>
     is_cstr (request_text proto h port p v kvs) \<and> length (request_text proto h port p v kvs) \<le> 65535"

definition request_of ::
  "string \<Rightarrow> string \<Rightarrow> string option \<Rightarrow> string \<Rightarrow> string \<Rightarrow> (string \<times> string) list \<Rightarrow> nat \<Rightarrow> ParsedRequest" where
  "request_of proto h port p v kvs n =
     \<lparr>pr_method = Str ''GET'', pr_protocol = Str proto, pr_host = Str h,
      pr_port = (case port of None \<Rightarrow> Uninit | Some q \<Rightarrow> Str q), pr_path = Str p, pr_version = Str v,
      pr_buf = Some (''GET '' @ uri_text proto h port p @ '' '' @ v),
      pr_buflen = length (uri_text proto h port p) + length v + 6,
      headers = map (\<lambda>(k, v). new_slot k v) kvs, headerslen = n\<rparr>"

lemma CRLFCRLF_found:
  assumes "list_all line_safe kvs" "CR \<notin> set l"
  shows "strstr (l @ CRLF @ concat (map line_text kvs) @ CRLF) (CRLF @ CRLF) \<noteq> None"
proof -
  have "\<exists>us. l @ CRLF @ concat (map line_text kvs) @ CRLF = us @ (CRLF @ CRLF)"
  proof (cases kvs rule: rev_cases)
    case Nil
    then show ?thesis by (intro exI [of _ l]) simp
  next
    case (snoc kvs' kv)
    then show ?thesis
      by (intro exI [of _ "l @ CRLF @ concat (map line_text kvs') @ fst kv @ '': '' @ snd kv"])
        (simp add: line_text_def)
  qed
  then obtain us where u: "l @ CRLF @ concat (map line_text kvs) @ CRLF = us @ (CRLF @ CRLF)" by blast
  have "sublist (CRLF @ CRLF) (us @ (CRLF @ CRLF))" by (simp add: sublist_def) (metis append_Nil2)
  then have "sublist (CRLF @ CRLF) (l @ CRLF @ concat (map line_text kvs) @ CRLF)" unfolding u .
  then show ?thesis unfolding strstr_None_iff by blast
qed

lemma take_line: "take (length l) (l @ a # b # r) = l"
  by simp

lemma drop_line: "drop (length l + 2) (l @ a # b # r) = r"
  by simp

lemma parse_request_text:
  assumes s: "request_safe proto h port p v kvs"
  shows "\<exists>n. ParsedRequest_parse False ParsedRequest_create (request_text proto h port p v kvs)
      (int (length (request_text proto h port p v kvs))) = Some (0, request_of proto h port p v kvs n)"
proof -
  let ?t = "request_text proto h port p v kvs" and ?u = "uri_text proto h port p"
  let ?line = "''GET '' @ ?u @ '' '' @ v" and ?hs = "concat (map line_text kvs) @ CRLF"
  have t: "?t = ?line @ CR # LF # ?hs" by (simp add: request_text_def)
  have cr: "CR \<notin> set ?line" using s by (simp add: request_safe_def)
  have i: "strstr ?t CRLF = Some (length ?line)" unfolding t by (rule strstr_CRLF_append [OF cr])
  have e: "strstr ?t (CRLF @ CRLF) \<noteq> None"
    using CRLFCRLF_found [OF _ cr, of kvs] s by (simp add: request_text_def request_safe_def)
  have len: "4 \<le> int (length ?t)" "int (length ?t) \<le> 65535" using s by (simp_all add: t request_safe_def)
  have tmp: "c_str (take (nat (int (length ?t))) ?t) = ?t" using s by (simp add: c_str_id request_safe_def)
  let ?p0 = "ParsedRequest_create\<lparr>pr_buf := Some ?line, pr_buflen := length ?line + 1\<rparr>"
  let ?p1 = "?p0\<lparr>pr_method := Str ''GET'', pr_version := Str v, pr_protocol := Str proto, pr_host := Str h,
      pr_port := (case port of None \<Rightarrow> Uninit | Some q \<Rightarrow> Str q), pr_path := Str p\<rparr>"
  have up: "pr_port (?p0\<lparr>pr_method := Str ''GET'', pr_version := Str v\<rparr>) = Uninit"
    by (simp add: ParsedRequest_create_def)
  have us: "?u \<noteq> []" "CHR '' '' \<notin> set ?u" "prefix ''HTTP/'' v" "uri_safe proto h port p"
    using s by (simp_all add: request_safe_def uri_text_def)
  have rl: "parse_request_line False ?line ?p0 = Some (0, ?p1)"
    unfolding request_line_get [OF us(1-3)] get_addr_uri [OF us(4)] up by simp
  have ok: "headers_ok ?p1" by (simp add: headers_ok_def headersused_def ParsedRequest_create_def)
  have lines: "list_all line_safe kvs" "distinct (map fst kvs)" using s by (simp_all add: request_safe_def)
  from puts_fresh [OF ok lines(2)] obtain n where
    n: "header_table.puts kvs ?p1 = Some (?p1\<lparr>headers := map (\<lambda>(k, v). new_slot k v) kvs, headerslen := n\<rparr>)"
    by (auto simp: ParsedRequest_create_def)
  have ph: "parse_headers ?hs ?p1 = Some (0, request_of proto h port p v kvs n)"
    using parse_headers_puts [OF ok lines(1), of "[]"] n
    by (simp add: request_of_def ParsedRequest_create_def)
  have dr: "take (length ?line) ?t = ?line" "drop (length ?line + 2) ?t = ?hs"
    unfolding t by (rule take_line, rule drop_line)
  have nb: "pr_buf ParsedRequest_create = None" by (simp add: ParsedRequest_create_def)
  have hn: "pr_host (request_of proto h port p v kvs n) \<noteq> Null" by (simp add: request_of_def)
  have "ParsedRequest_parse False ParsedRequest_create ?t (int (length ?t)) = Some (0, request_of proto h port p v kvs n)"
    unfolding ParsedRequest_parse_def Let_def tmp i option.case dr rl prod.case ph
    using nb len e hn by simp
  then show ?thesis by blast
qed

lemma header_lines_new: "concat (map header_line (map (\<lambda>(k, v). new_slot k v) kvs)) = concat (map line_text kvs)"
  by (induction kvs) (auto simp: header_line_def line_text_def)

lemma unparse_request_of:
  assumes "length (request_text proto h (Some q) p v kvs) \<le> k"
  shows "ParsedRequest_unparse (request_of proto h (Some q) p v kvs n) k =
    Some (0, request_text proto h (Some q) p v kvs @ [NUL])"
proof -
  let ?r = "request_of proto h (Some q) p v kvs n"
  let ?line = "''GET '' @ uri_text proto h (Some q) p @ '' '' @ v @ CRLF"
  have t: "request_text proto h (Some q) p v kvs = ?line @ concat (map line_text kvs) @ CRLF"
    by (simp add: request_text_def)
  have ll: "ParsedRequest_requestLineLen ?r = Some (length ?line)"
    by (simp add: ParsedRequest_requestLineLen_def request_of_def port_text_def uri_text_def)
  have hl: "ParsedHeader_headersLen ?r = length (concat (map line_text kvs) @ CRLF)"
    using concat_header_lines [of "map (\<lambda>(k, v). new_slot k v) kvs"] header_lines_new [of kvs]
    by (simp add: ParsedHeader_headersLen_def request_of_def)
  have pl: "ParsedRequest_printRequestLine ?r k = Some (0, ?line)"
    using assms ll t
    by (simp add: ParsedRequest_printRequestLine_def)
      (simp add: request_of_def port_text_def uri_text_def)
  have "ParsedHeader_printHeaders ?r (k - length ?line) = (0, concat (map line_text kvs) @ CRLF @ [NUL])"
  proof -
    have "headers ?r = map (\<lambda>(k, v). new_slot k v) kvs" by (simp add: request_of_def)
    then have "concat (map header_line (headers ?r)) = concat (map line_text kvs)" by (simp only: header_lines_new)
    moreover have "\<not> k - length ?line < ParsedHeader_headersLen ?r" using assms hl t by simp
    ultimately show ?thesis unfolding ParsedHeader_printHeaders_def by (simp del: map_map)
  qed
  moreover have "pr_buf ?r \<noteq> None" by (simp add: request_of_def)
  ultimately show ?thesis unfolding ParsedRequest_unparse_def t using pl by simp
qed

end
