(* ===== verification/ProxyParse_Props.thy ===== *)
theory ProxyParse_Props
  imports ProxyParse_Laws
begin

text \<open>The properties of the request parser.\<close>

section \<open>What a parse leaves behind\<close>

definition path_ok :: "ParsedRequest \<Rightarrow> bool" where
  "path_ok pr \<longleftrightarrow> pr_path pr \<noteq> Uninit \<and> pr_path pr \<noteq> Dangling"

lemma header_parse_keeps:
  assumes "headers_ok pr" "ParsedHeader_parse pr line = Some (r, t)"
  shows "headers_ok t \<and> pr_path t = pr_path pr"
proof -
  have "headers_ok u \<and> pr_path u = pr_path pr" if "ParsedHeader_set pr k v = Some (q, u)" for k v q u
    using that set_ok [OF assms(1), of k v] set_headers [of pr k v] assms(1) by (auto simp: headers_ok_def)
  with assms show ?thesis
    by (auto simp: ParsedHeader_parse_def split: option.splits if_splits)
qed

lemma parse_headers_keeps:
  "headers_ok pr \<Longrightarrow> parse_headers cur pr = Some (r, t) \<Longrightarrow> headers_ok t \<and> pr_path t = pr_path pr"
proof (induction cur pr arbitrary: r t rule: parse_headers.induct)
  case (1 cur pr)
  show ?case
  proof (cases "cur = [] \<or> prefix CRLF cur")
    case True
    with "1.prems" show ?thesis by (auto simp: parse_headers.simps [of cur])
  next
    case False
    with "1.prems" obtain q u where u: "ParsedHeader_parse pr cur = Some (q, u)"
      by (auto simp: parse_headers.simps [of cur] split: option.splits)
    note k = header_parse_keeps [OF "1.prems"(1) u]
    show ?thesis
    proof (cases "q = 0 \<and> strstr cur CRLF \<noteq> None")
      case True
      then obtain i where i: "strstr cur CRLF = Some i" "q = 0" by blast
      with "1.prems"(2) False u have "parse_headers (drop (i + 2) cur) u = Some (r, t)"
        by (simp add: parse_headers.simps [of cur])
      with "1.IH" [OF False u refl _ i(1)] k i(2) show ?thesis by simp
    next
      case notrec: False
      with "1.prems"(2) False u have "t = u" by (auto simp: parse_headers.simps [of cur] split: if_splits option.splits)
      with k show ?thesis by simp
    qed
  qed
qed

lemma fail_line_keeps [simp]:
  "headers_ok (snd (fail_line pr)) = headers_ok pr" "path_ok (snd (fail_line pr)) = path_ok pr"
  by (simp_all add: fail_line_def headers_ok_def headersused_def path_ok_def)

lemma headers_ok_frame [simp]:
  "headers_ok (pr\<lparr>pr_method := x\<rparr>) = headers_ok pr" "headers_ok (pr\<lparr>pr_version := x\<rparr>) = headers_ok pr"
  "headers_ok (pr\<lparr>pr_host := x\<rparr>) = headers_ok pr" "headers_ok (pr\<lparr>pr_port := x\<rparr>) = headers_ok pr"
  "headers_ok (pr\<lparr>pr_path := x\<rparr>) = headers_ok pr" "headers_ok (pr\<lparr>pr_protocol := x\<rparr>) = headers_ok pr"
  "headers_ok (pr\<lparr>pr_buf := b\<rparr>) = headers_ok pr" "headers_ok (pr\<lparr>pr_buflen := n\<rparr>) = headers_ok pr"
  by (simp_all add: headers_ok_def headersused_def)

lemma path_ok_frame [simp]:
  "path_ok (pr\<lparr>pr_method := x\<rparr>) = path_ok pr" "path_ok (pr\<lparr>pr_version := x\<rparr>) = path_ok pr"
  "path_ok (pr\<lparr>pr_host := x\<rparr>) = path_ok pr" "path_ok (pr\<lparr>pr_port := x\<rparr>) = path_ok pr"
  "path_ok (pr\<lparr>pr_protocol := x\<rparr>) = path_ok pr" "path_ok (pr\<lparr>pr_path := Str s\<rparr>)"
  "path_ok (pr\<lparr>pr_path := Null\<rparr>)" "path_ok (pr\<lparr>pr_buf := b\<rparr>) = path_ok pr"
  "path_ok (pr\<lparr>pr_buflen := n\<rparr>) = path_ok pr"
  by (simp_all add: path_ok_def)

lemma connect_addr_keeps:
  "headers_ok pr \<and> path_ok pr \<Longrightarrow> headers_ok (snd (parse_connect_addr a pr)) \<and> path_ok (snd (parse_connect_addr a pr))"
  by (simp add: parse_connect_addr_def Let_def split: list.split option.split prod.split)

lemma split_host_keeps:
  "headers_ok pr \<and> path_ok pr \<Longrightarrow> headers_ok (snd (split_host e pr)) \<and> path_ok (snd (split_host e pr))"
  by (simp add: split_host_def Let_def split: option.split)

lemma get_addr_keeps:
  "headers_ok pr \<and> path_ok pr \<Longrightarrow> headers_ok (snd (parse_get_addr e a pr)) \<and> path_ok (snd (parse_get_addr e a pr))"
  by (simp add: parse_get_addr_def Let_def split_host_keeps split: option.split)

definition keeps_ok :: "int \<times> ParsedRequest \<Rightarrow> bool" where
  "keeps_ok x \<longleftrightarrow> headers_ok (snd x) \<and> path_ok (snd x)"

lemma request_line_keeps:
  assumes ok: "headers_ok pr \<and> path_ok pr" and s: "parse_request_line e line pr = Some (r, t)"
  shows "headers_ok t \<and> path_ok t"
proof -
  have k: "keeps_ok (fail_line (pr\<lparr>pr_method := m\<rparr>))"
    "keeps_ok (fail_line (pr\<lparr>pr_method := m, pr_version := v\<rparr>))"
    "keeps_ok (parse_connect_addr a (pr\<lparr>pr_method := m, pr_version := v\<rparr>))"
    "keeps_ok (parse_get_addr e a (pr\<lparr>pr_method := m, pr_version := v\<rparr>))" for m v a
    using ok by (simp_all add: keeps_ok_def connect_addr_keeps get_addr_keeps)
  have "pred_option keeps_ok (parse_request_line e line pr)"
    using k by (auto simp: parse_request_line_def Let_def split: option.split list.split)
  with s show ?thesis by (simp add: keeps_ok_def)
qed

lemma host_header_keeps:
  "headers_ok pr \<and> path_ok pr \<Longrightarrow> headers_ok (snd (parse_host_header pr)) \<and> path_ok (snd (parse_host_header pr))"
  by (simp add: parse_host_header_def Let_def split: option.split)

lemma parse_keeps:
  assumes c: "headers_ok pr \<and> path_ok pr" and s: "ParsedRequest_parse e pr buf n = Some (r, t)"
  shows "headers_ok t \<and> path_ok t"
proof (cases "pr_buf pr \<noteq> None \<or> n < 4 \<or> n > 65535 \<or> nat n > length buf \<or>
    strstr (c_str (take (nat n) buf)) (CRLF @ CRLF) = None")
  case True
  with c s show ?thesis by (auto simp: ParsedRequest_parse_def Let_def split: if_splits)
next
  case False
  let ?tmp = "c_str (take (nat n) buf)"
  from False s obtain i where i: "strstr ?tmp CRLF = Some i"
    by (cases "strstr ?tmp CRLF") (auto simp: ParsedRequest_parse_def Let_def)
  let ?p0 = "pr\<lparr>pr_buf := Some (take i ?tmp), pr_buflen := i + 1\<rparr>"
  from False s i obtain q u where u: "parse_request_line e (take i ?tmp) ?p0 = Some (q, u)"
    by (cases "parse_request_line e (take i ?tmp) ?p0") (auto simp: ParsedRequest_parse_def Let_def)
  have ku: "headers_ok u \<and> path_ok u" using c by (intro request_line_keeps [OF _ u]) simp
  show ?thesis
  proof (cases "q = 0")
    case False': False
    with False s i u have "t = u" by (auto simp: ParsedRequest_parse_def Let_def)
    with ku show ?thesis by simp
  next
    case True
    with False s i u obtain q' w where w: "parse_headers (drop (i + 2) ?tmp) u = Some (q', w)"
      by (cases "parse_headers (drop (i + 2) ?tmp) u") (auto simp: ParsedRequest_parse_def Let_def)
    have kw: "headers_ok w \<and> path_ok w" using ku parse_headers_keeps [OF _ w] by (simp add: path_ok_def)
    have "(r, t) = (if q' = 0 \<and> pr_host w = Null \<and> pr_method w \<noteq> Str ''CONNECT'' then parse_host_header w else (q', w))"
      using False s i u True w by (auto simp: ParsedRequest_parse_def Let_def)
    with kw host_header_keeps [OF kw] show ?thesis by (metis snd_conv)
  qed
qed

section \<open>Properties\<close>

text \<open>
  The header table is a map with bounds. On a well-formed table \<^verbatim>\<open>ParsedHeader_set\<close> succeeds and
  writes inside the allocated slots, afterwards the key has the new value and every other key its
  old one; \<^verbatim>\<open>ParsedHeader_remove\<close> deletes exactly its key; both keep the table well formed (used slots
  below the capacity, no key twice).
\<close>
theorem header_table_laws:
  assumes "headers_ok pr"
  shows "(\<exists>t. ParsedHeader_set pr k v = Some (0, t) \<and> headers_ok t \<and> header_value t = (header_value pr)(k \<mapsto> v)) \<and>
    headers_ok (snd (ParsedHeader_remove pr k)) \<and>
    header_value (snd (ParsedHeader_remove pr k)) = (header_value pr)(k := None)"
  using set_ok [OF assms, of k v] set_value [OF assms, of k v] header_table.del_ok [OF assms, of k]
    header_table.look_del [OF assms, of k] by blast

theorem header_table_laws_witness:
  "\<exists>t. ParsedHeader_set ParsedRequest_create ''Host'' ''a'' = Some (0, t) \<and> headers_ok t \<and>
     header_value t ''Host'' = Some ''a''"
proof -
  have "headers_ok ParsedRequest_create" by (simp add: headers_ok_def headersused_def ParsedRequest_create_def)
  from header_table_laws [OF this, of "''Host''" "''a''"] show ?thesis by auto
qed

text \<open>
  Printed headers are parsed back. The parser reads the lines \<^verbatim>\<open>key: value\<close> of any list of headers
  whose names have no colon and whose names and values have no carriage return, up to the empty
  line; a key's value is the last one given for it, keys not mentioned keep their value.
\<close>
theorem parse_headers_printed:
  assumes "headers_ok pr" "list_all line_safe kvs"
  shows "\<exists>t. parse_headers (concat (map line_text kvs) @ CRLF @ rest) pr = Some (0, t) \<and> headers_ok t \<and>
    header_value t = header_value pr ++ map_of (rev kvs)"
  using parse_headers_puts [OF assms] header_table.puts_look [OF assms(1), of kvs] by auto

theorem parse_headers_printed_witness:
  "\<exists>t. parse_headers (concat (map line_text [(''A'', ''1''), (''A'', ''2'')]) @ CRLF @ []) ParsedRequest_create = Some (0, t) \<and>
     header_value t ''A'' = Some ''2''"
proof -
  have "headers_ok ParsedRequest_create" by (simp add: headers_ok_def headersused_def ParsedRequest_create_def)
  moreover have "list_all line_safe [(''A'', ''1''), (''A'', ''2'')]" by (simp add: line_safe_def)
  ultimately show ?thesis
    using parse_headers_printed [of ParsedRequest_create "[(''A'', ''1''), (''A'', ''2'')]" "[]"]
    by (auto simp: map_add_def)
qed

text \<open>
  C12: Parsing then printing gives the request back. For a GET request with an absolute URI that names
  a port, unambiguous parts and headers with different names, \<^verbatim>\<open>ParsedRequest_parse\<close> succeeds with
  exactly those parts, and \<^verbatim>\<open>ParsedRequest_unparse\<close> into a buffer of at least the request's length
  writes the same text, followed by a NUL.
\<close>
theorem parse_unparse:
  assumes "request_safe proto h (Some q) p v kvs" "length (request_text proto h (Some q) p v kvs) \<le> k"
  shows "\<exists>pr. ParsedRequest_parse False ParsedRequest_create (request_text proto h (Some q) p v kvs)
      (int (length (request_text proto h (Some q) p v kvs))) = Some (0, pr) \<and>
    pr_method pr = Str ''GET'' \<and> pr_protocol pr = Str proto \<and> pr_host pr = Str h \<and> pr_port pr = Str q \<and>
    pr_path pr = Str p \<and> pr_version pr = Str v \<and>
    ParsedRequest_unparse pr k = Some (0, request_text proto h (Some q) p v kvs @ [NUL])"
proof -
  from parse_request_text [OF assms(1)] obtain n where
    n: "ParsedRequest_parse False ParsedRequest_create (request_text proto h (Some q) p v kvs)
      (int (length (request_text proto h (Some q) p v kvs))) = Some (0, request_of proto h (Some q) p v kvs n)" by blast
  with unparse_request_of [OF assms(2), of n] show ?thesis by (auto simp: request_of_def)
qed

theorem parse_unparse_witness:
  "\<exists>pr. ParsedRequest_parse False ParsedRequest_create (request_text ''http'' ''h'' (Some ''80'') ''/x'' ''HTTP/1.1'' [(''A'', ''b'')])
      (int (length (request_text ''http'' ''h'' (Some ''80'') ''/x'' ''HTTP/1.1'' [(''A'', ''b'')]))) = Some (0, pr) \<and>
    pr_host pr = Str ''h'' \<and> pr_port pr = Str ''80''"
proof -
  have "request_safe ''http'' ''h'' (Some ''80'') ''/x'' ''HTTP/1.1'' [(''A'', ''b'')]"
    by (simp add: request_safe_def uri_safe_def uri_text_def request_text_def line_text_def line_safe_def)
  from parse_unparse [OF this order_refl] show ?thesis by blast
qed



text \<open>
  The announced length is exact and the writer needs one byte more. A buffer of
  \<^verbatim>\<open>ParsedHeader_headersLen\<close> bytes is accepted, one byte less is refused; the text of the headers has
  exactly that length, but a NUL is written behind it, one byte outside a buffer of that size.
\<close>
theorem print_headers_length:
  assumes "pr_buf pr \<noteq> None"
  shows "fst (ParsedHeader_printHeaders pr (ParsedHeader_headersLen pr - 1)) = -1 \<and>
    (\<exists>text. ParsedHeader_printHeaders pr (ParsedHeader_headersLen pr) = (0, text @ [NUL]) \<and>
       length text = ParsedHeader_headersLen pr)"
proof -
  let ?t = "concat (map header_line (headers pr)) @ CRLF"
  have "length ?t = ParsedHeader_headersLen pr"
    using assms by (simp add: ParsedHeader_headersLen_def concat_header_lines)
  moreover have "0 < ParsedHeader_headersLen pr" using assms by (auto simp: ParsedHeader_headersLen_def)
  ultimately show ?thesis
    by (auto simp: ParsedHeader_printHeaders_def intro!: exI [of _ ?t])
qed

theorem print_headers_length_witness:
  "\<exists>text. ParsedHeader_printHeaders (ParsedRequest_create\<lparr>pr_buf := Some ''x''\<rparr>) 2 = (0, text @ [NUL]) \<and> length text = 2"
  using print_headers_length [of "ParsedRequest_create\<lparr>pr_buf := Some ''x''\<rparr>"]
  by (simp add: ParsedHeader_headersLen_def ParsedRequest_create_def numeral_2_eq_2)

text \<open>
  A header value must be preceded by exactly one character after the colon. For a line
  \<^verbatim>\<open>key:value\<close> without a space the first character of the value is lost, whatever it is.
\<close>
theorem header_without_space:
  assumes "headers_ok pr" "line_safe (k, c # v)"
  shows "\<exists>t. ParsedHeader_parse pr (k @ '':'' @ c # v @ CRLF @ rest) = Some (0, t) \<and> header_value t k = Some v"
proof -
  have "strchr (k @ CHR '':'' # c # v @ CR # LF # rest) (CHR '':'') = Some (length k)"
    using assms by (intro strchr_append) (simp add: line_safe_def)
  moreover have "strstr (v @ CR # LF # rest) CRLF = Some (length v)"
    using assms by (intro strstr_CRLF_append) (simp add: line_safe_def)
  moreover obtain t where "ParsedHeader_set pr k v = Some (0, t)" "header_value t k = Some v"
    using set_ok [OF assms(1), of k v] set_value [OF assms(1), of k v] by auto
  ultimately show ?thesis by (simp add: ParsedHeader_parse_def)
qed

theorem header_without_space_witness:
  "\<exists>t. ParsedHeader_parse ParsedRequest_create (''Host:example.org'' @ CRLF) = Some (0, t) \<and>
     header_value t ''Host'' = Some ''xample.org''"
proof -
  have "headers_ok ParsedRequest_create" by (simp add: headers_ok_def headersused_def ParsedRequest_create_def)
  from header_without_space [OF this, of "''Host''" "CHR ''e''" "''xample.org''" "[]"] show ?thesis
    by (simp add: line_safe_def)
qed

text \<open>
  A request without a port leaves \<^verbatim>\<open>port\<close> uninitialised. For a GET request with an absolute URI and
  no port the parse succeeds and the field holds what \<^verbatim>\<open>malloc\<close> left there, so the test against NULL
  in its users reads an indeterminate value.
\<close>
theorem port_left_uninitialised:
  assumes "request_safe proto h None p v kvs"
  shows "\<exists>pr. ParsedRequest_parse False ParsedRequest_create (request_text proto h None p v kvs)
      (int (length (request_text proto h None p v kvs))) = Some (0, pr) \<and> pr_host pr = Str h \<and>
    pr_port pr = Uninit \<and> ParsedRequest_totalLen pr = None"
proof -
  from parse_request_text [OF assms] obtain n where
    n: "ParsedRequest_parse False ParsedRequest_create (request_text proto h None p v kvs)
      (int (length (request_text proto h None p v kvs))) = Some (0, request_of proto h None p v kvs n)" by blast
  then show ?thesis
    by (auto simp: request_of_def ParsedRequest_totalLen_def ParsedRequest_requestLineLen_def port_text_def)
qed

theorem port_left_uninitialised_witness:
  "\<exists>pr. ParsedRequest_parse False ParsedRequest_create (request_text ''http'' ''h'' None ''/'' ''HTTP/1.0'' [])
      (int (length (request_text ''http'' ''h'' None ''/'' ''HTTP/1.0'' []))) = Some (0, pr) \<and> pr_port pr = Uninit"
proof -
  have "request_safe ''http'' ''h'' None ''/'' ''HTTP/1.0'' []"
    by (simp add: request_safe_def uri_safe_def uri_text_def request_text_def)
  from port_left_uninitialised [OF this] show ?thesis by blast
qed

text \<open>
  Remote requests reach undefined behaviour. A header line without a colon makes the search run
  on into the body; with a colon there and no line end after it, \<^verbatim>\<open>strstr\<close> returns NULL and the
  difference to it is used as a length. A request line of two words makes \<^verbatim>\<open>version\<close> point behind
  the buffer.
\<close>
theorem parse_leaves_defined_behaviour:
  "ParsedRequest_parse False ParsedRequest_create (''GET / HTTP/1.0'' @ CRLF @ ''x'' @ CRLF @ CRLF @ ''a:b'') 24 = None \<and>
   ParsedRequest_parse False ParsedRequest_create (''GET /index.html'' @ CRLF @ CRLF) 19 = None"
proof -
  have "map_option fst (ParsedRequest_parse False ParsedRequest_create
      (''GET / HTTP/1.0'' @ CRLF @ ''x'' @ CRLF @ CRLF @ ''a:b'') 24) = None"
    "map_option fst (ParsedRequest_parse False ParsedRequest_create (''GET /index.html'' @ CRLF @ CRLF) 19) = None"
    by code_simp+
  then show ?thesis by simp
qed

text \<open>
  A tunnel request cannot be printed. After the parse of a CONNECT request \<^verbatim>\<open>protocol\<close> is NULL, and
  \<^verbatim>\<open>ParsedRequest_totalLen\<close> takes the length of it.
\<close>
theorem connect_not_printable:
  "map_option (\<lambda>(r, pr). (r, pr_host pr, pr_port pr, pr_protocol pr, ParsedRequest_totalLen pr))
     (ParsedRequest_parse False ParsedRequest_create (''CONNECT [::1]:8443 HTTP/1.1'' @ CRLF @ CRLF) 31) =
   Some (0, Str ''::1'', Str ''8443'', Null, None)"
  by code_simp

end
