(* ===== verification/Line_Tables.thy ===== *)
theory Line_Tables
  imports Prelude
begin

text \<open>
  The loop that the list loaders of \<^verbatim>\<open>auth.c\<close> and \<^verbatim>\<open>filter.c\<close> share: read a file line by line into a
  table of fixed size, skipping blank lines and comments, trimming the rest and dropping what does
  not convert.
\<close>

fun load_table :: "nat \<Rightarrow> (string \<Rightarrow> 'a option) \<Rightarrow> string list \<Rightarrow> 'a list \<Rightarrow> 'a list" where
  "load_table cap conv [] acc = acc"
| "load_table cap conv (line # lines) acc =
     (if length acc < cap
      then (case strip_line line of
              None \<Rightarrow> load_table cap conv lines acc
            | Some p \<Rightarrow>
                (case conv p of
                   None \<Rightarrow> load_table cap conv lines acc
                 | Some e \<Rightarrow> load_table cap conv lines (acc @ [e])))
      else acc)"

definition table_entries :: "(string \<Rightarrow> 'a option) \<Rightarrow> string list \<Rightarrow> 'a list" where
  "table_entries conv lines = List.map_filter (\<lambda>l. Option.bind (strip_line l) conv) lines"

lemma table_entries_simps [simp]:
  "table_entries conv [] = []"
  "table_entries conv (l # ls) =
     (case strip_line l of
        None \<Rightarrow> table_entries conv ls
      | Some p \<Rightarrow> (case conv p of None \<Rightarrow> table_entries conv ls | Some e \<Rightarrow> e # table_entries conv ls))"
  by (auto simp: table_entries_def map_filter_def split: option.split)

lemma load_table_eq:
  "load_table cap conv lines acc = acc @ take (cap - length acc) (table_entries conv lines)"
proof (induction lines arbitrary: acc)
  case (Cons l ls)
  show ?case
  proof (cases "length acc < cap")
    case True
    then obtain n where n: "cap - length acc = Suc n" by (cases "cap - length acc") auto
    then have "cap - Suc (length acc) = n" by simp
    with n Cons.IH True show ?thesis by (auto split: option.split)
  qed simp
qed simp

lemma load_table_length: "length acc \<le> cap \<Longrightarrow> length (load_table cap conv lines acc) \<le> cap"
  by (simp add: load_table_eq)

lemma load_table_sound:
  "e \<in> set (load_table cap conv lines acc) \<Longrightarrow>
     e \<in> set acc \<or> (\<exists>l \<in> set lines. \<exists>p. strip_line l = Some p \<and> conv p = Some e)"
  by (induction cap conv lines acc rule: load_table.induct) (auto split: option.splits if_splits)

lemma load_table_complete:
  "l \<in> set lines \<Longrightarrow> strip_line l = Some p \<Longrightarrow> conv p = Some e \<Longrightarrow>
     length acc + length (table_entries conv lines) \<le> cap \<Longrightarrow> e \<in> set (load_table cap conv lines acc)"
proof -
  assume a: "l \<in> set lines" "strip_line l = Some p" "conv p = Some e"
    "length acc + length (table_entries conv lines) \<le> cap"
  have "e \<in> set (table_entries conv lines)"
    using a(1-3) by (induction lines) (auto split: option.split)
  then show ?thesis using a(4) by (simp add: load_table_eq)
qed

end
