(* ===== verification/Auth.thy ===== *)
theory Auth
  imports Config Line_Tables
begin

text \<open>
  \<^verbatim>\<open>src/src/auth.h\<close> and \<^verbatim>\<open>src/src/auth.c\<close>: the client address lists and proxy authentication.

  \<^term>\<open>None\<close> as a result stands for undefined behaviour (an index outside \<^verbatim>\<open>b64index\<close>, a read
  behind the terminator of the input, a write outside a local buffer). \<^verbatim>\<open>char\<close> is signed on the
  platform the makefile builds for. The stack memory in which \<^verbatim>\<open>check_basic_auth\<close> declares its
  decode buffer is an argument, because the code compares it even where nothing was decoded.
\<close>

section \<open>State\<close>

record auth_state =
  allow_ips :: "string list"
  deny_ips :: "string list"
  auth_users :: "string list"
  auth_enabled :: bool

abbreviation (input) MAX_IPS :: nat where "MAX_IPS \<equiv> 1024"
abbreviation (input) MAX_USERS :: nat where "MAX_USERS \<equiv> 1024"
abbreviation (input) MAX_CREDS_LEN :: nat where "MAX_CREDS_LEN \<equiv> 256"
abbreviation (input) MAX_IP_LEN :: nat where "MAX_IP_LEN \<equiv> 64"

section \<open>Base64\<close>

definition b64index_table :: "nat list" where
  \<comment> \<open>the rows for the characters below 128; the other rows are all zero and out of reach\<close>
  "b64index_table =
     replicate 43 0 @ [62, 63, 62, 62, 63] @ [52, 53, 54, 55, 56, 57, 58, 59, 60, 61] @ replicate 7 0 @
     [0, 1, 2, 3, 4, 5, 6, 7, 8, 9, 10, 11, 12, 13, 14, 15, 16, 17, 18, 19, 20, 21, 22, 23, 24, 25] @
     replicate 6 0 @
     [26, 27, 28, 29, 30, 31, 32, 33, 34, 35, 36, 37, 38, 39, 40, 41, 42, 43, 44, 45, 46, 47, 48, 49, 50, 51] @
     replicate 5 0"

definition b64index :: "char \<Rightarrow> nat option" where
  \<comment> \<open>\<^verbatim>\<open>b64index[(int)c]\<close>, outside the table for a negative \<^verbatim>\<open>c\<close>\<close>
  "b64index c = (if code c < 128 then Some (b64index_table ! code c) else None)"

definition b64_at :: "string \<Rightarrow> nat \<Rightarrow> nat option" where
  \<comment> \<open>\<^verbatim>\<open>b64index[(int)in[i]]\<close>: the terminator may be read, what follows it may not\<close>
  "b64_at s i = (if i < length s then b64index (s ! i) else if i = length s then b64index NUL else None)"

definition b64_quad :: "string \<Rightarrow> nat option" where
  "b64_quad s =
     do {
       a \<leftarrow> b64_at s 0;
       b \<leftarrow> b64_at s 1;
       c \<leftarrow> b64_at s 2;
       d \<leftarrow> b64_at s 3;
       Some (push_bit 18 a OR push_bit 12 b OR push_bit 6 c OR d)
     }"

definition byte :: "nat \<Rightarrow> char" where
  \<comment> \<open>the conversion to \<^verbatim>\<open>unsigned char\<close>\<close>
  "byte n = char_of (n mod 256)"

function b64_loop :: "nat \<Rightarrow> nat \<Rightarrow> string \<Rightarrow> string \<Rightarrow> string option" where
  "b64_loop pad out_max inp out =
     (if inp = [] \<or> \<not> length out < out_max then Some out
      else (case b64_quad inp of
              None \<Rightarrow> None
            | Some n \<Rightarrow>
                (let out = out @ [byte (drop_bit 16 n)];
                     out = (if length out < out_max \<and> 4 - pad > 1 then out @ [byte (drop_bit 8 n AND 255)] else out);
                     out = (if length out < out_max \<and> 4 - pad > 2 then out @ [byte (n AND 255)] else out)
                 in b64_loop pad out_max (drop 4 inp) out)))"
  by pat_completeness auto
termination
  by (relation "measure (\<lambda>(pad, out_max, inp, out). length inp)") auto

declare b64_loop.simps [simp del]

definition b64_pad :: "string \<Rightarrow> nat option" where
  "b64_pad s =
     (if last s = CHR ''=''
      then (if length s < 2 then None else Some (if s ! (length s - 2) = CHR ''='' then 2 else 1))
      else Some 0)"

definition b64decode :: "string \<Rightarrow> nat \<Rightarrow> (nat \<times> char list) option" where
  \<comment> \<open>the return value and the bytes written to \<^verbatim>\<open>out\<close>\<close>
  "b64decode s out_max =
     (if s = [] then Some (0, [])
      else do {
        pad \<leftarrow> b64_pad s;
        out \<leftarrow> b64_loop pad out_max s [];
        Some (length out, if length out < out_max then out @ [NUL] else out)
      })"

section \<open>Loading the lists\<close>

definition load_list :: "file_system \<Rightarrow> string \<Rightarrow> string list \<Rightarrow> nat \<Rightarrow> string list" where
  "load_list fs filename dest max_items =
     (if filename = [] then dest
      else (case fs filename of
              None \<Rightarrow> dest
            | Some content \<Rightarrow>
                load_table max_items (\<lambda>p. Some (strncpy_term MAX_IP_LEN p)) (fgets_lines 256 content) dest))"

definition auth_init :: "file_system \<Rightarrow> ProxyConfig \<Rightarrow> auth_state \<Rightarrow> auth_state" where
  "auth_init fs cfg st =
     (let st = st\<lparr>allow_ips := [], deny_ips := [], auth_users := [], auth_enabled := enable_auth cfg\<rparr>;
          st = (if allow_ip_file cfg \<noteq> []
                then st\<lparr>allow_ips := load_list fs (allow_ip_file cfg) (allow_ips st) MAX_IPS\<rparr> else st);
          st = (if deny_ip_file cfg \<noteq> []
                then st\<lparr>deny_ips := load_list fs (deny_ip_file cfg) (deny_ips st) MAX_IPS\<rparr> else st)
      in if auth_enabled st \<and> auth_file cfg \<noteq> []
         then (case fs (auth_file cfg) of
                 None \<Rightarrow> st
               | Some content \<Rightarrow>
                   st\<lparr>auth_users := load_table MAX_USERS (\<lambda>p. Some (strncpy_term MAX_CREDS_LEN p))
                        (fgets_lines 256 content) (auth_users st)\<rparr>)
         else st)"

section \<open>Address rules\<close>

definition ip_matches :: "string \<Rightarrow> string \<Rightarrow> bool option" where
  "ip_matches ip rule =
     (if ip = rule then Some True
      else (case strchr rule (CHR ''/'') of
              None \<Rightarrow> Some False
            | Some slash \<Rightarrow>
                if slash \<ge> 64 then None
                else
                  (let subnet_str = take slash rule; prefix = atoi (drop (slash + 1) rule)
                   in if prefix < 0 \<or> prefix > 32 then Some False
                      else (case (inet_pton4 ip, inet_pton4 subnet_str) of
                              (Some ip_int, Some subnet_int) \<Rightarrow>
                                (let mask = (if prefix = 0 then 0 else push_bit (nat (32 - prefix)) (NOT 0))
                                 in Some (ip_int AND mask = subnet_int AND mask))
                            | _ \<Rightarrow> Some False))))"

fun any_match :: "string \<Rightarrow> string list \<Rightarrow> bool option" where
  "any_match ip [] = Some False"
| "any_match ip (r # rs) =
     (case ip_matches ip r of None \<Rightarrow> None | Some True \<Rightarrow> Some True | Some False \<Rightarrow> any_match ip rs)"

definition check_ip_allowed :: "auth_state \<Rightarrow> string \<Rightarrow> bool option" where
  "check_ip_allowed st ip =
     (case any_match ip (deny_ips st) of
        None \<Rightarrow> None
      | Some True \<Rightarrow> Some False
      | Some False \<Rightarrow> if allow_ips st \<noteq> [] then any_match ip (allow_ips st) else Some True)"

section \<open>Credentials\<close>

definition strcmp_eq :: "char list \<Rightarrow> string \<Rightarrow> bool" where
  \<comment> \<open>\<^verbatim>\<open>strcmp(buf, u) == 0\<close> for a buffer longer than the string \<^verbatim>\<open>u\<close>\<close>
  "strcmp_eq buf u \<longleftrightarrow> take (length u + 1) buf = u @ [NUL]"

definition overlay :: "'a list \<Rightarrow> 'a list \<Rightarrow> 'a list" where
  "overlay written mem = written @ drop (length written) mem"

definition check_basic_auth :: "char list \<Rightarrow> auth_state \<Rightarrow> string option \<Rightarrow> bool option" where
  "check_basic_auth stack st auth_header =
     (if \<not> auth_enabled st then Some True
      else (case auth_header of
              None \<Rightarrow> Some False
            | Some h \<Rightarrow>
                if \<not> prefix ''Basic '' h then Some False
                else do {
                  (_, out) \<leftarrow> b64decode (dropWhile (\<lambda>c. c = CHR '' '') (drop 6 h)) MAX_CREDS_LEN;
                  let decoded = overlay out stack;
                  Some (list_ex (strcmp_eq decoded) (auth_users st))
                }))"

definition auth_cleanup :: "auth_state \<Rightarrow> auth_state" where
  "auth_cleanup st = st\<lparr>allow_ips := [], deny_ips := [], auth_users := []\<rparr>"

end
