(* ===== verification/Auth_Laws.thy ===== *)
theory Auth_Laws
  imports Auth
begin

text \<open>
  Correctness of the address lists and of proxy authentication: the lists stay inside their tables,
  a rule in CIDR form compares the leading bits, the deny list wins, and a header made with the
  standard Base64 encoding of a name and password is accepted exactly when they are in the list,
  for the lengths on which the decoder works.
\<close>

section \<open>The loaded tables\<close>

definition auth_ok :: "auth_state \<Rightarrow> bool" where
  "auth_ok st \<longleftrightarrow>
     length (allow_ips st) \<le> MAX_IPS \<and> length (deny_ips st) \<le> MAX_IPS \<and> length (auth_users st) \<le> MAX_USERS \<and>
     (\<forall>r \<in> set (allow_ips st) \<union> set (deny_ips st). length r < MAX_IP_LEN) \<and>
     (\<forall>u \<in> set (auth_users st). length u < MAX_CREDS_LEN)"

lemma load_list_ok:
  assumes "length dest \<le> n" "\<forall>r \<in> set dest. length r < 64"
  shows "length (load_list fs f dest n) \<le> n \<and> (\<forall>r \<in> set (load_list fs f dest n). length r < 64)"
proof (cases "f = [] \<or> fs f = None")
  case False
  then obtain content where c: "fs f = Some content" "f \<noteq> []" by auto
  have "length r < 64" if "r \<in> set (load_list fs f dest n)" for r
    using load_table_sound [of r n "\<lambda>p. Some (strncpy_term 64 p)" "fgets_lines 256 content" dest] that c assms(2)
      length_strncpy_term [of 64] by (auto simp: load_list_def)
  moreover have "length (load_list fs f dest n) \<le> n"
    using c load_table_length [OF assms(1)] by (simp add: load_list_def)
  ultimately show ?thesis by blast
qed (use assms in \<open>auto simp: load_list_def\<close>)

lemma auth_init_ok: "auth_ok (auth_init fs cfg st)"
proof -
  have l: "length (load_list fs f [] 1024) \<le> 1024" "\<forall>r \<in> set (load_list fs f [] 1024). length r < 64" for f
    using load_list_ok [of "[]" 1024 fs f] by auto
  have u: "length (load_table 1024 (\<lambda>p. Some (strncpy_term 256 p)) ls []) \<le> 1024"
    "\<forall>u \<in> set (load_table 1024 (\<lambda>p. Some (strncpy_term 256 p)) ls []). length u < 256" for ls
    using load_table_length [of "[]" 1024 "\<lambda>p. Some (strncpy_term 256 p)" ls] length_strncpy_term [of 256]
      load_table_sound [of _ 1024 "\<lambda>p. Some (strncpy_term 256 p)" ls "[]"]
    by auto
  show ?thesis
    using l u by (simp add: auth_ok_def auth_init_def Let_def ball_Un split: option.split)
qed

section \<open>Address rules\<close>

lemma ip_matches_defined: "length r < 64 \<Longrightarrow> \<exists>b. ip_matches ip r = Some b"
  using strchr_SomeD [of r "CHR ''/''"]
  by (fastforce simp: ip_matches_def Let_def split: option.split)

definition matches_any :: "string \<Rightarrow> string list \<Rightarrow> bool" where
  "matches_any ip rs \<longleftrightarrow> (\<exists>r \<in> set rs. ip_matches ip r = Some True)"

lemma any_match_eq:
  "\<forall>r \<in> set rs. length r < 64 \<Longrightarrow> any_match ip rs = Some (matches_any ip rs)"
proof (induction rs)
  case (Cons r rs)
  then obtain b where "ip_matches ip r = Some b" using ip_matches_defined [of r ip] by auto
  with Cons show ?case by (cases b) (auto simp: matches_any_def)
qed (simp add: matches_any_def)

lemma mask_compare:
  fixes a b :: u32
  assumes "n \<le> 32"
  shows "(a AND (if n = 0 then 0 else push_bit (32 - n) (NOT 0))) = (b AND (if n = 0 then 0 else push_bit (32 - n) (NOT 0))) \<longleftrightarrow>
    drop_bit (32 - n) a = drop_bit (32 - n) b"
proof (cases "n = 0")
  case True
  have "drop_bit 32 x = 0" for x :: u32 by (rule bit_eqI) (auto simp: bit_drop_bit_eq dest: bit_imp_le_length)
  with True show ?thesis by simp
next
  case False
  let ?k = "32 - n"
  have "a AND push_bit ?k (NOT 0) = b AND push_bit ?k (NOT 0) \<longleftrightarrow> (\<forall>i < 32. ?k \<le> i \<longrightarrow> bit a i = bit b i)"
    by (auto simp: bit_eq_iff bit_and_iff bit_push_bit_iff bit_not_iff bit_mask_iff)
  also have "\<dots> \<longleftrightarrow> drop_bit ?k a = drop_bit ?k b"
  proof
    assume h: "\<forall>i < 32. ?k \<le> i \<longrightarrow> bit a i = bit b i"
    show "drop_bit ?k a = drop_bit ?k b"
    proof (rule bit_eqI)
      fix i
      show "bit (drop_bit ?k a) i = bit (drop_bit ?k b) i"
        using h [rule_format, of "?k + i"] bit_imp_le_length [of a "?k + i"] bit_imp_le_length [of b "?k + i"]
        by (auto simp: bit_drop_bit_eq)
    qed
  next
    assume e: "drop_bit ?k a = drop_bit ?k b"
    show "\<forall>i < 32. ?k \<le> i \<longrightarrow> bit a i = bit b i"
    proof (intro allI impI)
      fix i assume "i < 32" "?k \<le> i"
      then have "bit a i = bit (drop_bit ?k a) (i - ?k)" "bit b i = bit (drop_bit ?k b) (i - ?k)"
        by (simp_all add: bit_drop_bit_eq)
      with e show "bit a i = bit b i" by simp
    qed
  qed
  finally show ?thesis using False by simp
qed

lemma strtol_show_nat: "n < 2 ^ 63 \<Longrightarrow> strtol (show_nat n) = int n"
proof -
  assume n: "n < 2 ^ 63"
  obtain c r where c: "show_nat n = c # r" "isdigit c"
    using show_nat_nonempty [of n] show_nat_digits [of n] by (cases "show_nat n") auto
  have sp: "\<not> isspace c" "c \<noteq> CHR ''-''" "c \<noteq> CHR ''+''"
    using c(2) by (auto simp: isspace_def isdigit_def code_def)
  have "takeWhile isdigit (show_nat n) = show_nat n" using show_nat_digits by (simp add: takeWhile_eq_all_conv)
  moreover have "dropWhile isspace (show_nat n) = show_nat n" using c(1) sp by simp
  ultimately have "strtol (show_nat n) = clamp (- (2 ^ 63)) (2 ^ 63 - 1) (int (digits_value (show_nat n)))"
    using c(1) sp by (simp add: strtol_def Let_def)
  with n show_nat_value [of n] show ?thesis by (simp add: clamp_def)
qed

lemma atoi_show_nat: "n < 2 ^ 31 \<Longrightarrow> atoi (show_nat n) = int n"
proof -
  assume n: "n < 2 ^ 31"
  then have "sint (word_of_int (int n) :: i32) = int n"
    by (subst sint_sbintrunc') (simp add: signed_take_bit_int_eq_self)
  moreover have "strtol (show_nat n) = int n" using n by (intro strtol_show_nat) simp
  ultimately show ?thesis unfolding atoi_def by simp
qed

section \<open>Base64\<close>

definition b64chars :: string where
  "b64chars = ''ABCDEFGHIJKLMNOPQRSTUVWXYZabcdefghijklmnopqrstuvwxyz0123456789+/''"

definition enc :: "nat \<Rightarrow> char" where
  "enc i = b64chars ! (i mod 64)"

fun b64encode :: "string \<Rightarrow> string" where
  \<comment> \<open>the standard encoding (RFC 4648), the reference for the decoder\<close>
  "b64encode [] = []"
| "b64encode [x] = (let n = code x * 65536 in [enc (n div 262144), enc (n div 4096), CHR ''='', CHR ''=''])"
| "b64encode [x, y] =
     (let n = code x * 65536 + code y * 256
      in [enc (n div 262144), enc (n div 4096), enc (n div 64), CHR ''=''])"
| "b64encode (x # y # z # s) =
     (let n = code x * 65536 + code y * 256 + code z
      in [enc (n div 262144), enc (n div 4096), enc (n div 64), enc n] @ b64encode s)"

lemma b64index_enc: "b64index (enc i) = Some (i mod 64)"
proof -
  have p1: "list_all (\<lambda>i. b64index (b64chars ! i) = Some i) [0..<22]" by code_simp
  have p2: "list_all (\<lambda>i. b64index (b64chars ! i) = Some i) [22..<44]" by code_simp
  have p3: "list_all (\<lambda>i. b64index (b64chars ! i) = Some i) [44..<64]" by code_simp
  have "b64index (b64chars ! i) = Some i" if "i < 64" for i
  proof -
    from that have "i \<in> {0..<22} \<or> i \<in> {22..<44} \<or> i \<in> {44..<64}" by auto
    with p1 p2 p3 show ?thesis unfolding list_all_iff set_upt by blast
  qed
  then show ?thesis by (simp add: enc_def)
qed

lemma enc_not: "enc i \<noteq> CHR ''=''" "enc i \<noteq> CHR '' ''"
proof -
  have "list_all (\<lambda>i. b64chars ! i \<noteq> CHR ''='' \<and> b64chars ! i \<noteq> CHR '' '') [0..<64]" by code_simp
  then have "\<forall>i < 64. b64chars ! i \<noteq> CHR ''='' \<and> b64chars ! i \<noteq> CHR '' ''" by (simp add: list_all_iff)
  then show "enc i \<noteq> CHR ''=''" "enc i \<noteq> CHR '' ''" by (simp_all add: enc_def)
qed

lemma b64index_eq: "b64index (CHR ''='') = Some 0"
  by code_simp

lemma or_low: "y < 2 ^ k \<Longrightarrow> push_bit k x OR y = x * 2 ^ k + (y :: nat)"
proof -
  assume y: "y < 2 ^ k"
  have "\<not> bit y n" if "k \<le> n" for n
  proof -
    have "y < 2 ^ n" using y that by (meson less_le_trans one_le_numeral power_increasing)
    then show ?thesis by (simp add: bit_iff_odd)
  qed
  then have "push_bit k x + y = push_bit k x OR y"
    by (intro disjunctive_add) (auto simp: bit_push_bit_iff)
  then show ?thesis by (simp add: push_bit_eq_mult)
qed

lemma quad_value:
  assumes "b < 64" "c < 64" "d < 64"
  shows "push_bit 18 a OR push_bit 12 b OR push_bit 6 c OR d = a * 262144 + b * 4096 + c * 64 + (d :: nat)"
proof -
  have 1: "push_bit 6 c OR d = c * 64 + d" using or_low [of d 6 c] assms by simp
  have 2: "push_bit 12 b OR (c * 64 + d) = b * 4096 + (c * 64 + d)" using or_low [of "c * 64 + d" 12 b] assms by simp
  have 3: "push_bit 18 a OR (b * 4096 + (c * 64 + d)) = a * 262144 + (b * 4096 + (c * 64 + d))"
    using or_low [of "b * 4096 + (c * 64 + d)" 18 a] assms by simp
  show ?thesis unfolding 1 2 3 by simp
qed

lemma quad_digits:
  fixes n :: nat
  assumes "n < 16777216"
  shows "push_bit 18 (n div 262144 mod 64) OR push_bit 12 (n div 4096 mod 64) OR push_bit 6 (n div 64 mod 64) OR (n mod 64) = n"
proof -
  have 1: "n div 262144 * 64 + n div 4096 mod 64 = n div 4096"
    using div_mult_mod_eq [of "n div 4096" 64] by (simp add: div_mult2_eq [symmetric])
  have 2: "n div 4096 * 64 + n div 64 mod 64 = n div 64"
    using div_mult_mod_eq [of "n div 64" 64] by (simp add: div_mult2_eq [symmetric])
  have 3: "n div 64 * 64 + n mod 64 = n" by (rule div_mult_mod_eq)
  have 4: "n div 262144 mod 64 = n div 262144" using assms by simp
  show ?thesis
    unfolding 4 by (subst quad_value) (use 1 2 3 in \<open>simp_all, linarith\<close>)
qed

lemma code_bound: "code c < 256"
  by (simp add: code_def)

lemma byte_code [simp]: "byte (code c) = c"
  by (simp add: byte_def code_def)

lemma bytes_of_quad:
  fixes x y z :: char
  defines "n \<equiv> code x * 65536 + code y * 256 + code z"
  shows "byte (drop_bit 16 n) = x" "byte (drop_bit 8 n AND 255) = y" "byte (n AND 255) = z" "n < 16777216"
proof -
  note b = code_bound [of x] code_bound [of y] code_bound [of z]
  have m: "k AND 255 = k mod 256" for k :: nat using take_bit_eq_mask [of 8 k] by (simp add: take_bit_eq_mod mask_eq_exp_minus_1)
  have n: "n = (code x * 256 + code y) * 256 + code z" by (simp add: n_def)
  then have d: "n div 256 = code x * 256 + code y" "n mod 256 = code z"
    using b(3) div_mult_self3 [of 256 "code x * 256 + code y" "code z"] mod_mult_self3 [of "code x * 256 + code y" 256 "code z"]
    by simp_all
  have "n div 65536 = n div 256 div 256" by (simp add: div_mult2_eq [symmetric])
  then have "n div 65536 = code x" "n div 256 mod 256 = code y" "n mod 256 = code z"
    using d b(2) by simp_all
  then show "byte (drop_bit 16 n) = x" "byte (drop_bit 8 n AND 255) = y" "byte (n AND 255) = z"
    by (simp_all add: m drop_bit_eq_div)
  show "n < 16777216" using b by (simp add: n_def)
qed

lemma b64_at_simps [simp]:
  "b64_at (a # s) 0 = b64index a" "b64_at (a # b # s) (Suc 0) = b64index b"
  "b64_at (a # b # c # s) 2 = b64index c" "b64_at (a # b # c # d # s) 3 = b64index d"
  by (simp_all add: b64_at_def numeral_2_eq_2 numeral_3_eq_3)

lemma b64_quad_enc:
  "n < 16777216 \<Longrightarrow> b64_quad (enc (n div 262144) # enc (n div 4096) # enc (n div 64) # enc n # s) = Some n"
  using quad_digits [of n] by (simp add: b64_quad_def b64index_enc)

lemma b64_loop_nil [simp]: "b64_loop pad mx [] out = Some out"
  by (subst b64_loop.simps) simp

lemma b64_loop_block:
  assumes "length out + 3 \<le> mx" "pad < 2"
  shows "b64_loop pad mx (b64encode (x # y # z # s)) out = b64_loop pad mx (b64encode s) (out @ [x, y, z])"
proof -
  let ?n = "code x * 65536 + code y * 256 + code z"
  note b = bytes_of_quad [of x y z]
  have "b64_quad (b64encode (x # y # z # s)) = Some ?n"
    using b64_quad_enc [OF b(4), of "b64encode s"] by (simp add: Let_def)
  moreover have "b64encode (x # y # z # s) \<noteq> []" "drop 4 (b64encode (x # y # z # s)) = b64encode s"
    by (simp_all add: Let_def)
  moreover have "4 - pad > 1" "4 - pad > 2" using assms(2) by auto
  ultimately show ?thesis
    using assms(1) b(1-3) by (subst b64_loop.simps) (simp add: Let_def del: b64encode.simps)
qed

lemma b64_loop_full:
  "length s mod 3 = 0 \<Longrightarrow> length out + length s \<le> mx \<Longrightarrow> pad < 2 \<Longrightarrow>
     b64_loop pad mx (b64encode s) out = Some (out @ s)"
proof (induction s arbitrary: out rule: b64encode.induct)
  case 1
  then show ?case by simp
next
  case (4 x y z s)
  have "length s mod 3 = 0" using "4.prems"(1) by simp
  with "4.IH" [OF refl this, of "out @ [x, y, z]"] "4.prems" show ?case
    using b64_loop_block [of out mx pad x y z s] by simp
qed simp_all

lemma b64_loop_two:
  "length s mod 3 = 2 \<Longrightarrow> length out + length s < mx \<Longrightarrow>
     b64_loop 1 mx (b64encode s) out = Some (out @ s @ [NUL])"
proof (induction s arbitrary: out rule: b64encode.induct)
  case (3 x y)
  let ?n = "code x * 65536 + code y * 256"
  have z: "code NUL = 0" by (simp add: code_def)
  note b = bytes_of_quad [of x y NUL, unfolded z, simplified]
  have q: "b64_quad (enc (?n div 262144) # enc (?n div 4096) # enc (?n div 64) # CHR ''='' # []) = Some ?n"
    using quad_digits [OF b(4)] by (simp add: b64_quad_def b64index_enc b64index_eq)
  have e: "b64encode [x, y] = [enc (?n div 262144), enc (?n div 4096), enc (?n div 64), CHR ''='']"
    by (simp add: Let_def)
  have "length out + 2 < mx" using "3.prems" by simp
  with q b(1-3) show ?case
    unfolding e by (subst b64_loop.simps) (simp add: Let_def)
next
  case (4 x y z s)
  have "length s mod 3 = 2" using "4.prems"(1) by simp
  with "4.IH" [OF refl this, of "out @ [x, y, z]"] "4.prems" show ?case
    using b64_loop_block [of out mx 1 x y z s] by simp
qed simp_all

lemma b64_pad_append: "2 \<le> length r \<Longrightarrow> b64_pad (xs @ r) = b64_pad r"
proof -
  assume r: "2 \<le> length r"
  then have "(xs @ r) ! (length (xs @ r) - 2) = r ! (length r - 2)" by (auto simp: nth_append)
  moreover have "last (xs @ r) = last r" using r by (cases r) auto
  ultimately show ?thesis using r by (simp add: b64_pad_def)
qed

lemma length_b64encode: "s \<noteq> [] \<Longrightarrow> 4 \<le> length (b64encode s)"
  by (induction s rule: b64encode.induct) (simp_all add: Let_def)

lemma b64_pad_encode:
  "s \<noteq> [] \<Longrightarrow> b64_pad (b64encode s) = Some (if length s mod 3 = 0 then 0 else if length s mod 3 = 2 then 1 else 2)"
proof (induction s rule: b64encode.induct)
  case (4 x y z s)
  show ?case
  proof (cases "s = []")
    case True
    then show ?thesis by (simp add: b64_pad_def Let_def enc_not)
  next
    case False
    then have "2 \<le> length (b64encode s)" using length_b64encode [of s] by simp
    moreover have "\<exists>q. b64encode (x # y # z # s) = q @ b64encode s"
      by (simp only: b64encode.simps Let_def) blast
    ultimately have "b64_pad (b64encode (x # y # z # s)) = b64_pad (b64encode s)"
      using b64_pad_append [of "b64encode s"] by (elim exE) simp
    with False "4.IH" [OF refl False] show ?thesis by (simp del: b64encode.simps)
  qed
qed (simp_all add: b64_pad_def Let_def enc_not)

definition decodable :: "string \<Rightarrow> bool" where
  \<comment> \<open>the lengths on which \<^verbatim>\<open>b64decode\<close> inverts the encoding\<close>
  "decodable s \<longleftrightarrow> s \<noteq> [] \<and> length s < 256 \<and> (length s mod 3 \<noteq> 1 \<or> length s = 1)"

lemma b64_loop_one: "b64_loop 2 256 (b64encode [x]) [] = Some [x, NUL]"
proof -
  let ?n = "code x * 65536"
  have z: "code NUL = 0" by (simp add: code_def)
  note b = bytes_of_quad [of x NUL NUL, unfolded z, simplified]
  have e: "b64encode [x] = [enc (?n div 262144), enc (?n div 4096), CHR ''='', CHR ''='']"
    by (simp add: Let_def)
  have lt: "?n < 16777216" using code_bound [of x] by simp
  have "?n div 64 mod 64 = 0" by simp
  then have "b64_quad (b64encode [x]) = Some ?n"
    using quad_digits [OF lt] unfolding e by (simp add: b64_quad_def b64index_enc b64index_eq)
  then show ?thesis
    using b(1,2) unfolding e by (subst b64_loop.simps) (simp add: Let_def)
qed

lemma b64decode_encode:
  assumes "decodable s"
  shows "\<exists>n out. b64decode (b64encode s) 256 = Some (n, out) \<and> prefix (s @ [NUL]) out"
proof -
  have ne: "s \<noteq> []" "b64encode s \<noteq> []" using assms length_b64encode [of s] by (auto simp: decodable_def)
  note pad = b64_pad_encode [OF ne(1)]
  consider (zero) "length s mod 3 = 0" | (two) "length s mod 3 = 2" | (one) "length s mod 3 = 1" by linarith
  then show ?thesis
  proof cases
    case zero
    with assms b64_loop_full [of s "[]" 256 0] ne pad show ?thesis by (auto simp: b64decode_def decodable_def)
  next
    case two
    with assms b64_loop_two [of s "[]" 256] ne pad show ?thesis by (auto simp: b64decode_def decodable_def)
  next
    case one
    with assms obtain x where "s = [x]" by (auto simp: decodable_def length_Suc_conv)
    with one ne pad b64_loop_one [of x] show ?thesis by (simp add: b64decode_def del: b64encode.simps)
  qed
qed

section \<open>Credentials\<close>

lemma strcmp_eq_iff:
  assumes "prefix (s @ [NUL]) buf" "is_cstr s" "is_cstr u"
  shows "strcmp_eq buf u \<longleftrightarrow> u = s"
proof
  assume "strcmp_eq buf u"
  then have "prefix (u @ [NUL]) buf" unfolding strcmp_eq_def by (metis take_is_prefix)
  with assms(1) consider "prefix (u @ [NUL]) (s @ [NUL])" | "prefix (s @ [NUL]) (u @ [NUL])"
    by (metis prefix_same_cases)
  then show "u = s"
    using assms(2,3) by cases (auto simp: is_cstr_def dest: set_mono_prefix)
next
  assume "u = s"
  with assms(1) show "strcmp_eq buf u" by (auto simp: strcmp_eq_def prefix_def)
qed

lemma dropWhile_encode: "s \<noteq> [] \<Longrightarrow> dropWhile (\<lambda>c. c = CHR '' '') (b64encode s) = b64encode s"
  by (cases s rule: b64encode.cases) (simp_all add: Let_def enc_not)

section \<open>Properties\<close>



text \<open>
  C18: The address check is the documented policy. After \<^verbatim>\<open>auth_init\<close> with any files, the tables are inside
  their bounds, and \<^verbatim>\<open>check_ip_allowed\<close> is defined for every address: it refuses an address that a deny
  rule matches, accepts any other when there is no allow list, and otherwise accepts exactly what an
  allow rule matches.
\<close>
theorem ip_policy:
  fixes fs cfg st0 ip
  defines "st \<equiv> auth_init fs cfg st0"
  shows "auth_ok st \<and>
    check_ip_allowed st ip =
      Some (\<not> matches_any ip (deny_ips st) \<and> (allow_ips st = [] \<or> matches_any ip (allow_ips st)))"
proof -
  have ok: "auth_ok st" unfolding st_def by (rule auth_init_ok)
  then have "any_match ip (deny_ips st) = Some (matches_any ip (deny_ips st))"
    "any_match ip (allow_ips st) = Some (matches_any ip (allow_ips st))"
    by (auto simp: auth_ok_def intro!: any_match_eq)
  with ok show ?thesis by (auto simp: check_ip_allowed_def split: bool.split)
qed

text \<open>
  A rule in CIDR form compares the leading bits. For an address and a network in dotted-quad form and
  a prefix length of at most 32, the rule \<^verbatim>\<open>network/length\<close> matches exactly when the two 32-bit values
  agree after dropping the host bits; length 0 matches every address.
\<close>
theorem cidr_rule_bits:
  assumes "inet_pton4 ip = Some a" "inet_pton4 subnet = Some b" "n \<le> 32"
    "CHR ''/'' \<notin> set subnet" "CHR ''/'' \<notin> set ip" "length subnet < 64"
  shows "ip_matches ip (subnet @ ''/'' @ show_nat n) = Some (drop_bit (32 - n) a = drop_bit (32 - n) b)"
proof -
  let ?r = "subnet @ CHR ''/'' # show_nat n"
  have ne: "ip \<noteq> ?r" using assms(5) by auto
  have c: "strchr ?r (CHR ''/'') = Some (length subnet)" using assms(4) by (rule strchr_append)
  have p: "atoi (show_nat n) = int n" using assms(3) by (intro atoi_show_nat) simp
  have m: "nat (32 - int n) = 32 - n" using assms(3) by simp
  show ?thesis
    using assms(1-3,6) ne c p m mask_compare [OF assms(3), of a b]
    by (cases "n = 0") (simp_all add: ip_matches_def Let_def)
qed

theorem cidr_rule_bits_witness:
  "ip_matches ''10.1.2.3'' (''10.1.0.0'' @ ''/'' @ show_nat 16) = Some True"
proof -
  have "inet_pton4 ''10.1.2.3'' = Some 167838211" "inet_pton4 ''10.1.0.0'' = Some 167837696"
    by (simp_all add: inet_pton4_def dec_octet_def digits_value_def code_def isdigit_def)
  with cidr_rule_bits [of "''10.1.2.3''" 167838211 "''10.1.0.0''" 167837696 16] show ?thesis by simp
qed

text \<open>
  Credentials of length one more than a multiple of three are refused. With padding \<^verbatim>\<open>==\<close> the decoder
  drops the third byte of every block, not only of the last one: the correct header for \<^verbatim>\<open>a:bc\<close> is
  refused although the user is in the list.
\<close>
theorem padded_credentials_refused:
  "b64encode ''a:bc'' = ''YTpiYw=='' \<and>
   check_basic_auth stack \<lparr>allow_ips = [], deny_ips = [], auth_users = [''a:bc''], auth_enabled = True\<rparr>
     (Some ''Basic YTpiYw=='') = Some False"
proof -
  have "b64encode ''a:bc'' = ''YTpiYw==''" by (simp add: Let_def enc_def b64chars_def code_def)
  moreover have "b64decode ''YTpiYw=='' 256 = Some (4, [CHR ''a'', CHR '':'', CHR ''c'', NUL, NUL])"
    by (simp add: b64decode_def b64_pad_def b64_loop.simps b64_quad_def b64_at_def b64index_def code_def
        b64index_table_def nth_append byte_def) code_simp
  ultimately show ?thesis by (simp add: check_basic_auth_def overlay_def strcmp_eq_def)
qed

text \<open>
  Empty credentials compare uninitialised memory. For the header \<^verbatim>\<open>Basic\<close> with nothing after it the
  decoder writes nothing, and the check accepts exactly when the stack memory happens to hold a
  user's name and password, for instance from an earlier successful check.
\<close>
theorem empty_credentials_compare_stack:
  assumes "auth_enabled st"
  shows "check_basic_auth stack st (Some ''Basic '') = Some (list_ex (strcmp_eq stack) (auth_users st)) \<and>
    (u \<in> set (auth_users st) \<longrightarrow> check_basic_auth (u @ [NUL]) st (Some ''Basic '') = Some True)"
proof -
  have "strcmp_eq (u @ [NUL]) u" by (simp add: strcmp_eq_def)
  with assms show ?thesis by (auto simp: check_basic_auth_def b64decode_def overlay_def list_ex_iff)
qed

theorem empty_credentials_compare_stack_witness:
  "check_basic_auth (''user:pass'' @ [NUL])
     \<lparr>allow_ips = [], deny_ips = [], auth_users = [''user:pass''], auth_enabled = True\<rparr> (Some ''Basic '') = Some True"
  using empty_credentials_compare_stack
    [of "\<lparr>allow_ips = [], deny_ips = [], auth_users = [''user:pass''], auth_enabled = True\<rparr>" "[]" "''user:pass''"]
  by simp

end
