(* ===== verification/Content_Filter.thy ===== *)
theory Content_Filter
  imports Config Line_Tables
begin

text \<open>
  \<^verbatim>\<open>src/src/filter.h\<close> and \<^verbatim>\<open>src/src/filter.c\<close>: the content filter with its domain trie, address blocks, URL
  patterns, content types and block page.

  \<^verbatim>\<open>regcomp\<close> and \<^verbatim>\<open>regexec\<close> are arguments of the operations that use them, over a type of compiled
  patterns of their own. IPv4 addresses and masks are kept in host order: the code keeps both sides
  of every comparison in network order, which is the same up to a permutation of bits. The locks
  make every query and every reload one step; the inotify descriptors are left out.
\<close>

section \<open>State\<close>

datatype TrieNode = TrieNode (children: "char \<Rightarrow> TrieNode option") (is_end_of_domain: bool)

record CidrBlock =
  cb_addr :: u32
  cb_mask :: u32
  cb_is_ipv6 :: bool
  cb_addr6 :: "u8 list"
  cb_mask6 :: "u8 list"

datatype sockaddr = Sockaddr_in u32 | Sockaddr_in6 "u8 list" | Sockaddr_other

record 'r filter_state =
  domain_trie_root :: "TrieNode option"
  f_allow_ips :: "CidrBlock list"
  f_deny_ips :: "CidrBlock list"
  url_patterns :: "'r list"
  content_type_blocklist :: "string list"
  block_page_html :: string
  filter_enabled :: bool
  saved_cfg :: ProxyConfig
  hot_reload_running :: bool

abbreviation (input) MAX_URL_PATTERNS :: nat where "MAX_URL_PATTERNS \<equiv> 1000"
abbreviation (input) MAX_IP_BLOCKS :: nat where "MAX_IP_BLOCKS \<equiv> 1000"
abbreviation (input) MAX_IP_ALLOWS :: nat where "MAX_IP_ALLOWS \<equiv> 1000"
abbreviation (input) MAX_CONTENT_TYPES :: nat where "MAX_CONTENT_TYPES \<equiv> 100"

definition default_block_page :: string where
  "default_block_page =
     ''<HTML><HEAD><TITLE>403 Forbidden</TITLE></HEAD>'' @ [LF] @
     ''<BODY><H1>403 Forbidden</H1><br>Permission Denied'' @ [LF] @ ''</BODY></HTML>''"

section \<open>The domain trie\<close>

definition trie_create_node :: TrieNode where
  "trie_create_node = TrieNode (\<lambda>_. None) False"

fun trie_put :: "string \<Rightarrow> TrieNode \<Rightarrow> TrieNode" where
  \<comment> \<open>the loop of \<^verbatim>\<open>trie_insert\<close> along the characters it visits\<close>
  "trie_put [] t = TrieNode (children t) True"
| "trie_put (c # cs) t =
     TrieNode ((children t)(c \<mapsto> trie_put cs (case children t c of None \<Rightarrow> trie_create_node | Some u \<Rightarrow> u)))
       (is_end_of_domain t)"

definition trie_insert :: "TrieNode \<Rightarrow> string \<Rightarrow> TrieNode" where
  "trie_insert root domain = trie_put (map tolower (rev domain)) root"

fun trie_walk :: "TrieNode \<Rightarrow> string \<Rightarrow> bool" where
  \<comment> \<open>the loop of \<^verbatim>\<open>filter_is_domain_blocked\<close> over the reversed domain\<close>
  "trie_walk t [] = False"
| "trie_walk t (c # cs) =
     (case children t (tolower c) of
        None \<Rightarrow> False
      | Some u \<Rightarrow>
          if is_end_of_domain u \<and> (case cs of [] \<Rightarrow> True | d # _ \<Rightarrow> d = CHR ''.'') then True
          else trie_walk u cs)"

section \<open>Address blocks\<close>

definition hex_value :: "char \<Rightarrow> nat option" where
  "hex_value c =
     (let n = code (tolower c)
      in if 48 \<le> n \<and> n \<le> 57 then Some (n - 48) else if 97 \<le> n \<and> n \<le> 102 then Some (n - 87) else None)"

definition hex_group :: "string \<Rightarrow> u8 list option" where
  \<comment> \<open>one to four hexadecimal digits as two bytes\<close>
  "hex_group g =
     (if g = [] \<or> length g > 4 \<or> \<not> list_all (\<lambda>c. hex_value c \<noteq> None) g then None
      else (let v = foldl (\<lambda>a c. a * 16 + the (hex_value c)) 0 g in Some [of_nat (v div 256), of_nat (v mod 256)]))"

fun hex_groups :: "bool \<Rightarrow> string list \<Rightarrow> u8 list option" where
  \<comment> \<open>the bytes of colon-separated groups; the last one may be a dotted quad where that is allowed\<close>
  "hex_groups quad [] = Some []"
| "hex_groups quad [g] =
     (case hex_group g of
        Some b \<Rightarrow> Some b
      | None \<Rightarrow>
          if quad
          then map_option (\<lambda>a. [ucast (drop_bit 24 a), ucast (drop_bit 16 a), ucast (drop_bit 8 a), ucast a]) (inet_pton4 g)
          else None)"
| "hex_groups quad (g # gs) =
     (case (hex_group g, hex_groups quad gs) of (Some b, Some bs) \<Rightarrow> Some (b @ bs) | _ \<Rightarrow> None)"

definition inet_pton6 :: "string \<Rightarrow> u8 list option" where
  \<comment> \<open>the sixteen bytes of an address in text, \<^verbatim>\<open>None\<close> where \<^verbatim>\<open>inet_pton(AF_INET6, ...)\<close> does not return 1\<close>
  "inet_pton6 s =
     (case strstr s ''::'' of
        None \<Rightarrow>
          (case hex_groups True (split_on (CHR '':'') s) of
             Some b \<Rightarrow> if length b = 16 then Some b else None
           | None \<Rightarrow> None)
      | Some i \<Rightarrow>
          (let l = take i s; r = drop (i + 2) s
           in case (if l = [] then Some [] else hex_groups False (split_on (CHR '':'') l),
                    if r = [] then Some [] else hex_groups True (split_on (CHR '':'') r)) of
                (Some a, Some b) \<Rightarrow>
                  if length a + length b < 16 then Some (a @ replicate (16 - length a - length b) 0 @ b) else None
              | _ \<Rightarrow> None))"

definition mask4 :: "int \<Rightarrow> u32" where
  \<comment> \<open>\<^verbatim>\<open>~((1ULL << (32 - prefix)) - 1)\<close>, cut to 32 bits\<close>
  "mask4 plen = ucast (NOT (push_bit (nat (32 - plen)) 1 - 1 :: u64))"

definition mask6 :: "int \<Rightarrow> u8 list" where
  "mask6 plen =
     (let full = nat (plen div 8);
          m = replicate full 255 @ replicate (16 - full) 0
      in if plen mod 8 \<noteq> 0 then m[full := ucast (push_bit (nat (8 - plen mod 8)) 255 :: i32)] else m)"

definition parse_cidr :: "string \<Rightarrow> CidrBlock option" where
  "parse_cidr str =
     (let copy = strncpy_term 256 str;
          (copy, prefix) = (case strchr copy (CHR ''/'') of
                              Some slash \<Rightarrow> (take slash copy, atoi (drop (slash + 1) copy))
                            | None \<Rightarrow> (copy, -1))
      in case inet_pton4 copy of
           Some a \<Rightarrow>
             (let prefix = (if prefix < 0 \<or> prefix > 32 then 32 else prefix);
                  m = mask4 prefix
              in Some \<lparr>cb_addr = a AND m, cb_mask = m, cb_is_ipv6 = False, cb_addr6 = [], cb_mask6 = []\<rparr>)
         | None \<Rightarrow>
             (case inet_pton6 copy of
                Some b \<Rightarrow>
                  (let prefix = (if prefix < 0 \<or> prefix > 128 then 128 else prefix);
                       m = mask6 prefix
                   in Some \<lparr>cb_addr = 0, cb_mask = 0, cb_is_ipv6 = True, cb_addr6 = map2 (AND) b m, cb_mask6 = m\<rparr>)
              | None \<Rightarrow> None))"

definition block_matches :: "sockaddr \<Rightarrow> CidrBlock \<Rightarrow> bool" where
  \<comment> \<open>the test that both loops of \<^verbatim>\<open>filter_is_ip_blocked\<close> make on an entry\<close>
  "block_matches sa blk =
     (case sa of
        Sockaddr_in a \<Rightarrow> \<not> cb_is_ipv6 blk \<and> a AND cb_mask blk = cb_addr blk
      | Sockaddr_in6 b \<Rightarrow> cb_is_ipv6 blk \<and> list_all (\<lambda>j. b ! j AND cb_mask6 blk ! j = cb_addr6 blk ! j) [0..<16]
      | Sockaddr_other \<Rightarrow> False)"

section \<open>Loading\<close>

definition load_domain_list :: "file_system \<Rightarrow> string \<Rightarrow> TrieNode \<Rightarrow> TrieNode" where
  "load_domain_list fs path root =
     (if path = [] then root
      else (case fs path of
              None \<Rightarrow> root
            | Some content \<Rightarrow> foldl trie_insert root (List.map_filter strip_line (fgets_lines 512 content))))"

definition load_ip_list :: "file_system \<Rightarrow> string \<Rightarrow> CidrBlock list \<Rightarrow> nat \<Rightarrow> CidrBlock list" where
  "load_ip_list fs path arr max_size =
     (if path = [] then arr
      else (case fs path of
              None \<Rightarrow> arr
            | Some content \<Rightarrow> load_table max_size parse_cidr (fgets_lines 256 content) arr))"

definition load_content_type_list :: "file_system \<Rightarrow> string \<Rightarrow> string list \<Rightarrow> string list" where
  \<comment> \<open>the count is reset only when the file opens\<close>
  "load_content_type_list fs path old =
     (if path = [] then old
      else (case fs path of
              None \<Rightarrow> old
            | Some content \<Rightarrow>
                load_table MAX_CONTENT_TYPES (\<lambda>p. Some (strncpy_term 128 p)) (fgets_lines 128 content) []))"

definition load_url_list :: "file_system \<Rightarrow> (string \<Rightarrow> 'r option) \<Rightarrow> string \<Rightarrow> 'r list \<Rightarrow> 'r list" where
  "load_url_list fs regcomp path pats =
     (if path = [] then pats
      else (case fs path of
              None \<Rightarrow> pats
            | Some content \<Rightarrow> load_table MAX_URL_PATTERNS regcomp (fgets_lines 1024 content) pats))"

definition load_block_page :: "file_system \<Rightarrow> string \<Rightarrow> string" where
  "load_block_page fs path =
     (if path = [] then strncpy_term 8192 default_block_page
      else (case fs path of
              None \<Rightarrow> strncpy_term 8192 default_block_page
            | Some content \<Rightarrow> c_str (take 8191 content)))"

definition filter_clear :: "'r filter_state \<Rightarrow> 'r filter_state" where
  "filter_clear st =
     st\<lparr>domain_trie_root := Some trie_create_node, f_allow_ips := [], f_deny_ips := [], url_patterns := []\<rparr>"

definition filter_load :: "file_system \<Rightarrow> (string \<Rightarrow> 'r option) \<Rightarrow> ProxyConfig \<Rightarrow> 'r filter_state \<Rightarrow> 'r filter_state" where
  \<comment> \<open>the calls that \<^verbatim>\<open>filter_init\<close> and \<^verbatim>\<open>filter_reload\<close> share\<close>
  "filter_load fs regcomp cfg st =
     (let st = filter_clear st;
          st = st\<lparr>domain_trie_root := map_option (load_domain_list fs (blocklist_file cfg)) (domain_trie_root st)\<rparr>;
          st = st\<lparr>f_allow_ips := load_ip_list fs (allow_ip_file cfg) (f_allow_ips st) MAX_IP_ALLOWS\<rparr>;
          st = st\<lparr>f_deny_ips := load_ip_list fs (deny_ip_file cfg) (f_deny_ips st) MAX_IP_BLOCKS\<rparr>;
          st = st\<lparr>url_patterns := load_url_list fs regcomp (url_blocklist_file cfg) (url_patterns st)\<rparr>;
          st = st\<lparr>content_type_blocklist :=
                    load_content_type_list fs (content_type_blocklist_file cfg) (content_type_blocklist st)\<rparr>
      in st\<lparr>block_page_html := load_block_page fs (block_page_file cfg)\<rparr>)"

definition filter_init :: "file_system \<Rightarrow> (string \<Rightarrow> 'r option) \<Rightarrow> ProxyConfig \<Rightarrow> 'r filter_state \<Rightarrow> 'r filter_state" where
  "filter_init fs regcomp cfg st =
     (let st = st\<lparr>saved_cfg := cfg, filter_enabled := enable_filter cfg\<rparr>
      in if \<not> filter_enabled st then st else (filter_load fs regcomp cfg st)\<lparr>hot_reload_running := True\<rparr>)"

definition filter_reload :: "file_system \<Rightarrow> (string \<Rightarrow> 'r option) \<Rightarrow> 'r filter_state \<Rightarrow> 'r filter_state" where
  "filter_reload fs regcomp st =
     (if \<not> filter_enabled st then st else filter_load fs regcomp (saved_cfg st) st)"

definition filter_cleanup :: "'r filter_state \<Rightarrow> 'r filter_state" where
  "filter_cleanup st =
     (let st = st\<lparr>hot_reload_running := False\<rparr>
      in if \<not> filter_enabled st then st else st\<lparr>domain_trie_root := None, url_patterns := []\<rparr>)"

section \<open>Queries\<close>

definition filter_is_domain_blocked :: "'r filter_state \<Rightarrow> string \<Rightarrow> bool" where
  "filter_is_domain_blocked st domain =
     (case domain_trie_root st of
        None \<Rightarrow> False
      | Some root \<Rightarrow> filter_enabled st \<and> trie_walk root (rev domain))"

definition filter_is_url_blocked :: "('r \<Rightarrow> string \<Rightarrow> bool) \<Rightarrow> 'r filter_state \<Rightarrow> string \<Rightarrow> bool" where
  "filter_is_url_blocked regexec st url \<longleftrightarrow> filter_enabled st \<and> list_ex (\<lambda>r. regexec r url) (url_patterns st)"

definition filter_is_ip_blocked :: "'r filter_state \<Rightarrow> sockaddr \<Rightarrow> bool" where
  "filter_is_ip_blocked st sa =
     (if \<not> filter_enabled st then False
      else if sa = Sockaddr_other then False
      else if list_ex (block_matches sa) (f_allow_ips st) then False
      else list_ex (block_matches sa) (f_deny_ips st))"

function tokens :: "char list \<Rightarrow> string \<Rightarrow> string list" where
  \<comment> \<open>the successive results of \<^verbatim>\<open>strtok\<close>\<close>
  "tokens delims s = (case strtok delims s of None \<Rightarrow> [] | Some (t, rest) \<Rightarrow> t # tokens delims rest)"
  by pat_completeness auto
termination
proof (relation "measure (\<lambda>(delims, s). length s)", goal_cases)
  case (2 delims s x t rest)
  let ?d = "dropWhile (\<lambda>c. c \<in> set delims) s"
  from 2 have ne: "?d \<noteq> []" and r: "rest = dropWhile (\<lambda>c. c \<notin> set delims) ?d"
    by (auto simp: strtok_def Let_def split: if_splits)
  have "hd ?d \<notin> set delims" using hd_dropWhile [OF ne] by blast
  with ne r have "length rest < length ?d"
    by (cases ?d) (auto simp: le_imp_less_Suc length_dropWhile_le)
  with length_dropWhile_le [of "\<lambda>c. c \<in> set delims" s] show ?case by simp
qed simp

declare tokens.simps [simp del]

definition filter_is_content_type_blocked :: "'r filter_state \<Rightarrow> string \<Rightarrow> bool" where
  "filter_is_content_type_blocked st content_type =
     (if \<not> filter_enabled st \<or> content_type_blocklist st = [] then False
      else list_ex (\<lambda>token. let trim = rtrim (dropWhile isspace token)
                           in list_ex (\<lambda>entry. strstr trim entry \<noteq> None) (content_type_blocklist st))
             (tokens '','' (strncpy_term 128 content_type)))"

definition filter_get_block_page :: "'r filter_state \<Rightarrow> string" where
  "filter_get_block_page st = (if \<not> filter_enabled st then default_block_page else block_page_html st)"

section \<open>A configuration reload\<close>

definition config_hot_reload ::
  "file_system \<Rightarrow> bool \<Rightarrow> (string \<Rightarrow> string option) \<Rightarrow> (string \<Rightarrow> 'r option) \<Rightarrow> string \<Rightarrow> ProxyConfig \<Rightarrow>
   ProxyConfig \<times> 'r filter_state \<Rightarrow> ProxyConfig \<times> 'r filter_state" where
  \<comment> \<open>\<^verbatim>\<open>hot_reload_thread\<close> after a change of the file: merge into \<^verbatim>\<open>g_config\<close>, then \<^verbatim>\<open>filter_reload()\<close>\<close>
  "config_hot_reload fs enoent getenv regcomp path junk gst =
     (case gst of (g, st) \<Rightarrow>
        (case hot_reload_config fs enoent getenv path junk g of
           (g', None) \<Rightarrow> (g', st)
         | (g', Some _) \<Rightarrow> (g', filter_reload fs regcomp st)))"

end
