(* ===== verification/Filter_Laws.thy ===== *)
theory Filter_Laws
  imports Content_Filter Auth_Laws
begin

text \<open>
  Correctness of the content filter: the trie is a set of words and its lookup is suffix matching at
  label boundaries, address blocks compare leading bits, and the lists answer as their files say.
\<close>

section \<open>Sets of words\<close>

locale word_set =
  fixes empty :: 's
    and add :: "'s \<Rightarrow> string \<Rightarrow> 's"
    and has :: "'s \<Rightarrow> string \<Rightarrow> bool"
  assumes has_empty: "\<not> has empty w"
    and has_add: "has (add s v) w \<longleftrightarrow> w = v \<or> has s w"
begin

lemma has_adds: "has (foldl add s ws) w \<longleftrightarrow> w \<in> set ws \<or> has s w"
  by (induction ws arbitrary: s) (auto simp: has_add)

lemma has_from_empty: "has (foldl add empty ws) w \<longleftrightarrow> w \<in> set ws"
  by (simp add: has_adds has_empty)

end

fun trie_has :: "TrieNode \<Rightarrow> string \<Rightarrow> bool" where
  "trie_has t [] = is_end_of_domain t"
| "trie_has t (c # cs) = (case children t c of None \<Rightarrow> False | Some u \<Rightarrow> trie_has u cs)"

lemma trie_has_create [simp]: "\<not> trie_has trie_create_node w"
  by (cases w) (simp_all add: trie_create_node_def)

lemma trie_has_put: "trie_has (trie_put v t) w \<longleftrightarrow> w = v \<or> trie_has t w"
proof (induction v arbitrary: t w)
  case Nil
  then show ?case by (cases w) auto
next
  case (Cons c v)
  then show ?case by (cases w) (auto split: option.split)
qed

interpretation trie: word_set trie_create_node "\<lambda>t w. trie_put w t" trie_has
  by unfold_locales (simp_all add: trie_has_put)

lemma foldl_insert: "foldl trie_insert t ds = foldl (\<lambda>t w. trie_put w t) t (map (\<lambda>d. map tolower (rev d)) ds)"
  by (induction ds arbitrary: t) (simp_all add: trie_insert_def)

lemma trie_walk_iff:
  "trie_walk t ds \<longleftrightarrow>
     (\<exists>k. 0 < k \<and> k \<le> length ds \<and> trie_has t (map tolower (take k ds)) \<and> (k = length ds \<or> ds ! k = CHR ''.''))"
proof (induction ds arbitrary: t)
  case Nil
  then show ?case by simp
next
  case (Cons c ds)
  show ?case
  proof (cases "children t (tolower c)")
    case None
    then have "\<not> trie_has t (map tolower (take k (c # ds)))" if "0 < k" for k
      using that by (cases k) auto
    with None show ?thesis by auto
  next
    case (Some u)
    let ?P = "\<lambda>k. k \<le> length ds \<and> trie_has u (map tolower (take k ds)) \<and> (k = length ds \<or> ds ! k = CHR ''.'')"
    have "(\<exists>k. 0 < k \<and> k \<le> length (c # ds) \<and> trie_has t (map tolower (take k (c # ds))) \<and>
        (k = length (c # ds) \<or> (c # ds) ! k = CHR ''.'')) \<longleftrightarrow> (\<exists>k. ?P k)"
      using Some by (auto simp: gr0_conv_Suc intro: exI [of _ "Suc _"])
    also have "\<dots> \<longleftrightarrow> ?P 0 \<or> (\<exists>k. 0 < k \<and> ?P k)" by (metis gr0I)
    finally show ?thesis
      using Some Cons.IH [of u] by (auto split: list.split)
  qed
qed

definition domain_suffix :: "string \<Rightarrow> string \<Rightarrow> bool" where
  \<comment> \<open>the listed domain is the queried one, or a suffix of it at a label boundary, without case\<close>
  "domain_suffix d domain \<longleftrightarrow>
     (\<exists>pre x. domain = pre @ x \<and> x \<noteq> [] \<and> map tolower x = map tolower d \<and> (pre = [] \<or> last pre = CHR ''.''))"

lemma last_take_nth: "0 < m \<Longrightarrow> m \<le> length s \<Longrightarrow> last (take m s) = s ! (m - 1)"
  by (subst last_conv_nth) auto

lemma rev_split:
  "0 < k \<Longrightarrow> k \<le> length s \<Longrightarrow>
     take k (rev s) = rev (drop (length s - k) s) \<and>
     (k = length s \<or> rev s ! k = CHR ''.'') = (take (length s - k) s = [] \<or> last (take (length s - k) s) = CHR ''.'')"
proof -
  assume k: "0 < k" "k \<le> length s"
  have "rev s ! k = last (take (length s - k) s)" if "k < length s"
    using that last_take_nth [of "length s - k" s] by (simp add: rev_nth)
  with k show ?thesis by (cases "k = length s") (auto simp: take_rev)
qed

lemma trie_walk_domains:
  "trie_walk (foldl trie_insert trie_create_node ds) (rev domain) \<longleftrightarrow> (\<exists>d \<in> set ds. domain_suffix d domain)"
proof
  assume "trie_walk (foldl trie_insert trie_create_node ds) (rev domain)"
  then obtain k where k: "0 < k" "k \<le> length domain"
    "map tolower (take k (rev domain)) \<in> set (map (\<lambda>d. map tolower (rev d)) ds)"
    "k = length domain \<or> rev domain ! k = CHR ''.''"
    by (auto simp: trie_walk_iff foldl_insert trie.has_from_empty)
  let ?x = "drop (length domain - k) domain" and ?pre = "take (length domain - k) domain"
  from k(3) rev_split [OF k(1,2)] obtain d where d: "d \<in> set ds" "map tolower (rev ?x) = map tolower (rev d)" by auto
  from d(2) have "map tolower ?x = map tolower d" by (simp add: rev_map [symmetric])
  moreover have "domain = ?pre @ ?x" "?x \<noteq> []" using k by simp_all
  moreover have "?pre = [] \<or> last ?pre = CHR ''.''" using k(4) rev_split [OF k(1,2)] by blast
  ultimately have "domain_suffix d domain" unfolding domain_suffix_def by blast
  with d(1) show "\<exists>d \<in> set ds. domain_suffix d domain" by blast
next
  assume "\<exists>d \<in> set ds. domain_suffix d domain"
  then obtain d pre x where d: "d \<in> set ds" "domain = pre @ x" "x \<noteq> []" "map tolower x = map tolower d"
    "pre = [] \<or> last pre = CHR ''.''" by (auto simp: domain_suffix_def)
  let ?k = "length x"
  have k: "0 < ?k" "?k \<le> length domain" using d by auto
  have "take ?k (rev domain) = rev x" using d(2) by simp
  then have "map tolower (take ?k (rev domain)) = map tolower (rev d)" using d(4) by (simp add: rev_map [symmetric])
  then have "map tolower (take ?k (rev domain)) \<in> set (map (\<lambda>d. map tolower (rev d)) ds)" using d(1) by auto
  moreover have "?k = length domain \<or> rev domain ! ?k = CHR ''.''"
    using rev_split [OF k] d(2,5) by simp
  ultimately show "trie_walk (foldl trie_insert trie_create_node ds) (rev domain)"
    using k by (auto simp: trie_walk_iff foldl_insert trie.has_from_empty)
qed

section \<open>Address blocks\<close>

lemma bit_mask4: "n \<le> 32 \<Longrightarrow> bit (mask4 (int n)) i \<longleftrightarrow> i < 32 \<and> 32 - n \<le> i"
proof -
  assume n: "n \<le> 32"
  have k: "nat (32 - int n) = 32 - n" using n by simp
  have "push_bit (32 - n) 1 - 1 = (mask (32 - n) :: u64)" by (simp add: mask_eq_exp_minus_1 push_bit_eq_mult)
  then show ?thesis
    unfolding mask4_def k by (auto simp: bit_ucast_iff bit_not_iff bit_mask_iff)
qed

lemma masked_eq_iff:
  fixes a b m :: "'a::len word"
  shows "a AND m = b AND m \<longleftrightarrow> (\<forall>i < LENGTH('a). bit m i \<longrightarrow> bit a i = bit b i)"
  by (auto simp: bit_eq_iff bit_and_iff)

lemma drop_bit_eq_iff:
  fixes a b :: "'a::len word"
  shows "drop_bit k a = drop_bit k b \<longleftrightarrow> (\<forall>i < LENGTH('a). k \<le> i \<longrightarrow> bit a i = bit b i)"
proof
  assume e: "drop_bit k a = drop_bit k b"
  show "\<forall>i < LENGTH('a). k \<le> i \<longrightarrow> bit a i = bit b i"
  proof (intro allI impI)
    fix i assume "k \<le> i"
    then have "bit a i = bit (drop_bit k a) (i - k)" "bit b i = bit (drop_bit k b) (i - k)"
      by (simp_all add: bit_drop_bit_eq)
    with e show "bit a i = bit b i" by simp
  qed
next
  assume h: "\<forall>i < LENGTH('a). k \<le> i \<longrightarrow> bit a i = bit b i"
  show "drop_bit k a = drop_bit k b"
  proof (rule bit_eqI)
    fix i
    show "bit (drop_bit k a) i = bit (drop_bit k b) i"
      using h [rule_format, of "k + i"] bit_imp_le_length [of a "k + i"] bit_imp_le_length [of b "k + i"]
      by (auto simp: bit_drop_bit_eq)
  qed
qed

definition bit6 :: "u8 list \<Rightarrow> nat \<Rightarrow> bool" where
  \<comment> \<open>bit \<^verbatim>\<open>p\<close> of an IPv6 address, counted from the most significant one\<close>
  "bit6 b p = bit (b ! (p div 8)) (7 - p mod 8)"

lemma bit_255: "bit (255 :: 'a::len word) i \<longleftrightarrow> i < 8 \<and> i < LENGTH('a)"
proof -
  have "(255 :: 'a word) = mask 8" by (simp add: mask_eq_exp_minus_1)
  then show ?thesis unfolding \<open>(255 :: 'a word) = mask 8\<close> bit_mask_iff by auto
qed

lemma length_mask6 [simp]: "n \<le> 128 \<Longrightarrow> length (mask6 (int n)) = 16"
  by (auto simp: mask6_def Let_def)

lemma bit_mask6:
  assumes "n \<le> 128" "j < 16" "i < 8"
  shows "bit (mask6 (int n) ! j) i \<longleftrightarrow> 8 * j + (7 - i) < n"
proof -
  define q r where "q = n div 8" and "r = n mod 8"
  have n: "n = 8 * q + r" "r < 8" by (simp_all add: q_def r_def)
  have nat: "nat (int n div 8) = q" "int n mod 8 = int r"
    by (simp_all add: q_def r_def nat_div_distrib zmod_int)
  have "nat (8 - int r) = 8 - r" using n(2) by simp
  note nat = nat this
  have q: "q \<le> 16" using assms(1) n by simp
  show ?thesis
  proof (cases "j = q \<and> r \<noteq> 0")
    case True
    have "bit (ucast (push_bit (8 - r) 255 :: i32) :: u8) i \<longleftrightarrow> 8 - r \<le> i"
      unfolding bit_ucast_iff bit_push_bit_iff bit_255 using assms(3) by auto
    with True assms n nat show ?thesis by (auto simp: mask6_def Let_def)
  next
    case False
    then have "mask6 (int n) ! j = (if j < q then 255 else 0)"
      using assms(2) q nat by (auto simp: mask6_def Let_def nth_append nth_list_update)
    moreover have "j < q \<longleftrightarrow> 8 * j + (7 - i) < n" using False assms(3) n by (cases "r = 0") auto
    moreover have "bit (255 :: u8) i" unfolding bit_255 using assms(3) by simp
    ultimately show ?thesis by (cases "j < q") simp_all
  qed
qed

lemma masked6_iff:
  assumes "n \<le> 128"
  shows "(\<forall>j < 16. a ! j AND mask6 (int n) ! j = b ! j AND mask6 (int n) ! j) \<longleftrightarrow> (\<forall>p < n. bit6 a p = bit6 b p)"
proof
  assume h: "\<forall>j < 16. a ! j AND mask6 (int n) ! j = b ! j AND mask6 (int n) ! j"
  show "\<forall>p < n. bit6 a p = bit6 b p"
  proof (intro allI impI)
    fix p assume p: "p < n"
    then have "p div 8 < 16" using assms by simp
    moreover have "8 * (p div 8) + (7 - (7 - p mod 8)) = p" by simp
    ultimately have "bit (mask6 (int n) ! (p div 8)) (7 - p mod 8)" using p bit_mask6 [OF assms, of "p div 8" "7 - p mod 8"] by simp
    with h \<open>p div 8 < 16\<close> show "bit6 a p = bit6 b p" by (auto simp: masked_eq_iff bit6_def)
  qed
next
  assume h: "\<forall>p < n. bit6 a p = bit6 b p"
  show "\<forall>j < 16. a ! j AND mask6 (int n) ! j = b ! j AND mask6 (int n) ! j"
  proof (intro allI impI)
    fix j :: nat assume j: "j < 16"
    have "bit (a ! j) i = bit (b ! j) i" if i: "i < 8" and m: "bit (mask6 (int n) ! j) i" for i
    proof -
      define p where "p = 8 * j + (7 - i)"
      have "p < n" using bit_mask6 [OF assms j i] m by (simp add: p_def)
      moreover have "p div 8 = j" using i by (simp add: p_def)
      moreover have "p mod 8 = 7 - i" using i mod_mult_self4 [of 8 j "7 - i"] unfolding p_def by simp
      then have "7 - p mod 8 = i" using i by simp
      ultimately show ?thesis using h by (auto simp: bit6_def)
    qed
    then show "a ! j AND mask6 (int n) ! j = b ! j AND mask6 (int n) ! j" by (simp add: masked_eq_iff)
  qed
qed

end
