(* ===== verification/Filter_Props.thy ===== *)
theory Filter_Props
  imports Filter_Laws
begin

text \<open>The properties of the content filter.\<close>

section \<open>Blocks from text\<close>

lemma cidr_copy:
  assumes "CHR ''/'' \<notin> set subnet" "length subnet < 200" "n < 1000"
  shows "strncpy_term 256 (subnet @ CHR ''/'' # show_nat n) = subnet @ CHR ''/'' # show_nat n"
    "strchr (subnet @ CHR ''/'' # show_nat n) (CHR ''/'') = Some (length subnet)"
proof -
  have "length (show_nat n) \<le> 3" using assms(3) by (intro show_nat_length) simp_all
  then show "strncpy_term 256 (subnet @ CHR ''/'' # show_nat n) = subnet @ CHR ''/'' # show_nat n"
    using assms(2) by (intro strncpy_term_id) simp
  show "strchr (subnet @ CHR ''/'' # show_nat n) (CHR ''/'') = Some (length subnet)"
    using assms(1) by (rule strchr_append)
qed

lemma length_hex_group: "hex_group g = Some b \<Longrightarrow> length b = 2"
  by (auto simp: hex_group_def Let_def split: if_splits)

lemma length_inet_pton6: "inet_pton6 s = Some b \<Longrightarrow> length b = 16"
  by (auto simp: inet_pton6_def Let_def split: option.splits if_splits)

lemma parse_cidr4:
  assumes "inet_pton4 subnet = Some b" "CHR ''/'' \<notin> set subnet" "length subnet < 200" "n \<le> 32"
  shows "parse_cidr (subnet @ CHR ''/'' # show_nat n) =
    Some \<lparr>cb_addr = b AND mask4 (int n), cb_mask = mask4 (int n), cb_is_ipv6 = False, cb_addr6 = [], cb_mask6 = []\<rparr>"
  using cidr_copy [OF assms(2,3), of n] assms(1,4) atoi_show_nat [of n]
  by (simp add: parse_cidr_def Let_def)

lemma parse_cidr6:
  assumes "inet_pton4 subnet = None" "inet_pton6 subnet = Some b" "CHR ''/'' \<notin> set subnet"
    "length subnet < 200" "n \<le> 128"
  shows "parse_cidr (subnet @ CHR ''/'' # show_nat n) =
    Some \<lparr>cb_addr = 0, cb_mask = 0, cb_is_ipv6 = True, cb_addr6 = map2 (AND) b (mask6 (int n)), cb_mask6 = mask6 (int n)\<rparr>"
  using cidr_copy [OF assms(3,4), of n] assms(1,2,5) atoi_show_nat [of n]
  by (simp add: parse_cidr_def Let_def)

lemma cidr4_matches:
  "n \<le> 32 \<Longrightarrow> a AND mask4 (int n) = b AND mask4 (int n) \<longleftrightarrow> drop_bit (32 - n) a = drop_bit (32 - n) b"
  by (auto simp: masked_eq_iff drop_bit_eq_iff bit_mask4)

section \<open>Properties\<close>

text \<open>
  C14: The domain filter blocks exactly the listed domains and their subdomains. After \<^verbatim>\<open>filter_init\<close> with
  a readable block list, a domain is blocked if and only if some line of the file, trimmed and not a
  comment, equals it or is a suffix of it that starts after a dot, without regard to case.
\<close>
theorem domain_filter_exact:
  assumes "enable_filter cfg" "blocklist_file cfg \<noteq> []" "fs (blocklist_file cfg) = Some content"
  shows "filter_is_domain_blocked (filter_init fs regcomp cfg st) domain \<longleftrightarrow>
    (\<exists>l \<in> set (fgets_lines 512 content). \<exists>d. strip_line l = Some d \<and> domain_suffix d domain)"
proof -
  have mem: "(\<exists>d \<in> set (List.map_filter strip_line ls). P d) \<longleftrightarrow> (\<exists>l \<in> set ls. \<exists>d. strip_line l = Some d \<and> P d)"
    for ls P by (induction ls) (auto simp: map_filter_def split: option.splits)
  show ?thesis
    using assms trie_walk_domains [of "List.map_filter strip_line (fgets_lines 512 content)" domain]
    by (simp add: filter_is_domain_blocked_def filter_init_def filter_load_def filter_clear_def
        load_domain_list_def Let_def mem)
qed

theorem domain_filter_exact_witness:
  "filter_is_domain_blocked (filter_init (\<lambda>_. Some (''ads.example'' @ [LF])) (\<lambda>_. None :: unit option)
     (zero_config\<lparr>enable_filter := True, blocklist_file := ''b''\<rparr>)
     \<lparr>domain_trie_root = None, f_allow_ips = [], f_deny_ips = [], url_patterns = [], content_type_blocklist = [],
      block_page_html = [], filter_enabled = False, saved_cfg = zero_config, hot_reload_running = False\<rparr>)
     ''x.ADS.example''"
proof -
  have l: "fgets_lines 512 (''ads.example'' @ [LF]) = [''ads.example'' @ [LF]]"
    by code_simp
  have "strip_line (''ads.example'' @ [LF]) = Some ''ads.example''" by code_simp
  moreover have "map tolower ''ADS.example'' = map tolower ''ads.example''" by code_simp
  then have "domain_suffix ''ads.example'' ''x.ADS.example''"
    unfolding domain_suffix_def by (intro exI [of _ "''x.''"] exI [of _ "''ADS.example''"]) simp
  ultimately have "\<exists>l \<in> set (fgets_lines 512 (''ads.example'' @ [LF])). \<exists>d. strip_line l = Some d \<and> domain_suffix d ''x.ADS.example''"
    unfolding l by auto
  then show ?thesis
    by (subst domain_filter_exact [where content = "''ads.example'' @ [LF]"]) simp_all
qed

text \<open>
  C15: The address filter is allow over deny over files. After \<^verbatim>\<open>filter_init\<close> with readable lists of at
  most 1000 valid entries each, an address is blocked if and only if a valid line of the deny file
  matches it and no valid line of the allow file does.
\<close>
theorem ip_filter_policy:
  assumes "enable_filter cfg" "allow_ip_file cfg \<noteq> []" "deny_ip_file cfg \<noteq> []"
    "fs (allow_ip_file cfg) = Some allow" "fs (deny_ip_file cfg) = Some deny"
    "length (table_entries parse_cidr (fgets_lines 256 allow)) \<le> 1000"
    "length (table_entries parse_cidr (fgets_lines 256 deny)) \<le> 1000"
  defines "listed \<equiv> \<lambda>content sa. \<exists>l \<in> set (fgets_lines 256 content). \<exists>p blk. strip_line l = Some p \<and>
      parse_cidr p = Some blk \<and> block_matches sa blk"
  shows "filter_is_ip_blocked (filter_init fs regcomp cfg st) sa \<longleftrightarrow> listed deny sa \<and> \<not> listed allow sa"
proof -
  have t: "list_ex (block_matches sa) (load_table 1000 parse_cidr (fgets_lines 256 content) []) \<longleftrightarrow> listed content sa"
    if "length (table_entries parse_cidr (fgets_lines 256 content)) \<le> 1000" for content
  proof
    assume "list_ex (block_matches sa) (load_table 1000 parse_cidr (fgets_lines 256 content) [])"
    then obtain blk where "block_matches sa blk" "blk \<in> set (load_table 1000 parse_cidr (fgets_lines 256 content) [])"
      by (auto simp: list_ex_iff)
    with load_table_sound [OF this(2)] show "listed content sa" by (auto simp: listed_def)
  next
    assume "listed content sa"
    then obtain l p blk where b: "l \<in> set (fgets_lines 256 content)" "strip_line l = Some p"
      "parse_cidr p = Some blk" "block_matches sa blk" by (auto simp: listed_def)
    have "blk \<in> set (load_table 1000 parse_cidr (fgets_lines 256 content) [])"
      by (rule load_table_complete [OF b(1,2), of parse_cidr]) (simp_all add: b(3) that)
    with b(4) show "list_ex (block_matches sa) (load_table 1000 parse_cidr (fgets_lines 256 content) [])"
      by (auto simp: list_ex_iff)
  qed
  have o: "\<not> listed deny Sockaddr_other" by (auto simp: listed_def block_matches_def)
  show ?thesis
    using assms(1-5) t [OF assms(6)] t [OF assms(7)] o
    by (auto simp: filter_is_ip_blocked_def filter_init_def filter_load_def filter_clear_def load_ip_list_def Let_def)
qed

definition demo_filter :: "unit filter_state" where
  "demo_filter =
     \<lparr>domain_trie_root = None, f_allow_ips = [], f_deny_ips = [], url_patterns = [], content_type_blocklist = [],
      block_page_html = [], filter_enabled = False, saved_cfg = zero_config, hot_reload_running = False\<rparr>"

theorem ip_filter_policy_witness:
  "\<not> filter_is_ip_blocked (filter_init (\<lambda>f. Some []) (\<lambda>_. None)
     (zero_config\<lparr>enable_filter := True, allow_ip_file := ''a'', deny_ip_file := ''d''\<rparr>) demo_filter) (Sockaddr_in 1)"
  using ip_filter_policy [of "zero_config\<lparr>enable_filter := True, allow_ip_file := ''a'', deny_ip_file := ''d''\<rparr>"
      "\<lambda>f. Some []" "[]" "[]" "\<lambda>_. None" demo_filter "Sockaddr_in 1"]
  by (simp add: fgets_lines.simps)

text \<open>
  An IPv4 block compares the leading bits. For a dotted-quad network and a prefix length of at most
  32, the entry \<^verbatim>\<open>network/length\<close> is accepted and matches exactly the IPv4 addresses that agree with the
  network on the leading bits, and no IPv6 address.
\<close>
theorem cidr4_block:
  assumes "inet_pton4 subnet = Some b" "CHR ''/'' \<notin> set subnet" "length subnet < 200" "n \<le> 32"
  shows "\<exists>blk. parse_cidr (subnet @ CHR ''/'' # show_nat n) = Some blk \<and>
    (\<forall>a. block_matches (Sockaddr_in a) blk \<longleftrightarrow> drop_bit (32 - n) a = drop_bit (32 - n) b) \<and>
    (\<forall>a. \<not> block_matches (Sockaddr_in6 a) blk)"
  using parse_cidr4 [OF assms] cidr4_matches [OF assms(4)] by (simp add: block_matches_def)

theorem cidr4_block_witness:
  "\<exists>blk. parse_cidr (''10.0.0.0'' @ CHR ''/'' # show_nat 8) = Some blk \<and> block_matches (Sockaddr_in 167772161) blk"
proof -
  have "inet_pton4 ''10.0.0.0'' = Some 167772160"
    by (simp add: inet_pton4_def dec_octet_def digits_value_def code_def isdigit_def)
  from cidr4_block [OF this, of 8] obtain blk where
    "parse_cidr (''10.0.0.0'' @ CHR ''/'' # show_nat 8) = Some blk"
    "block_matches (Sockaddr_in 167772161) blk \<longleftrightarrow> drop_bit 24 (167772161 :: u32) = drop_bit 24 167772160" by auto
  then show ?thesis by simp
qed

text \<open>
  C16: An IPv6 block compares the leading bits. For a network in IPv6 form and a prefix length of at most
  128, the entry \<^verbatim>\<open>network/length\<close> is accepted, and an IPv6 address matches it exactly when its first
  bits, counted from the most significant one, agree with the network's, also where the length is not
  a multiple of eight.
\<close>
theorem cidr6_block:
  assumes "inet_pton4 subnet = None" "inet_pton6 subnet = Some b" "CHR ''/'' \<notin> set subnet"
    "length subnet < 200" "n \<le> 128"
  shows "\<exists>blk. parse_cidr (subnet @ CHR ''/'' # show_nat n) = Some blk \<and>
    (\<forall>a. block_matches (Sockaddr_in6 a) blk \<longleftrightarrow> (\<forall>p < n. bit6 a p = bit6 b p)) \<and>
    (\<forall>a. \<not> block_matches (Sockaddr_in a) blk)"
proof -
  have l: "length b = 16" using assms(2) by (rule length_inet_pton6)
  have "list_all (\<lambda>j. a ! j AND mask6 (int n) ! j = map2 (AND) b (mask6 (int n)) ! j) [0..<16] \<longleftrightarrow>
      (\<forall>j < 16. a ! j AND mask6 (int n) ! j = b ! j AND mask6 (int n) ! j)" for a
    using l assms(5) by (auto simp: list_all_iff)
  with parse_cidr6 [OF assms] masked6_iff [OF assms(5)] show ?thesis by (simp add: block_matches_def)
qed

theorem cidr6_block_witness:
  "\<exists>blk. parse_cidr (''fe80::'' @ CHR ''/'' # show_nat 10) = Some blk \<and>
     block_matches (Sockaddr_in6 ([254, 128] @ replicate 14 1)) blk"
proof -
  have p: "inet_pton4 ''fe80::'' = None" by code_simp
  have "inet_pton6 ''fe80::'' = Some (254 # 128 # replicate 14 0)"
    by (simp add: inet_pton6_def Let_def hex_group_def hex_value_def tolower_def code_def)
  from cidr6_block [OF p this, of 10] obtain blk where
    "parse_cidr (''fe80::'' @ CHR ''/'' # show_nat 10) = Some blk"
    "block_matches (Sockaddr_in6 ([254, 128] @ replicate 14 1)) blk \<longleftrightarrow>
       (\<forall>p < 10. bit6 ([254, 128] @ replicate 14 1) p = bit6 (254 # 128 # replicate 14 0) p)" by auto
  moreover have "bit6 ([254, 128] @ replicate 14 1) p = bit6 (254 # 128 # replicate 14 0) p" if "p < 10" for p
  proof -
    have "p div 8 = 0 \<or> p div 8 = 1" using that by auto
    then show ?thesis by (auto simp: bit6_def)
  qed
  ultimately show ?thesis by blast
qed

text \<open>
  A URL is blocked exactly when a compiled pattern matches it. For any regular expression library,
  after \<^verbatim>\<open>filter_init\<close> with a readable list of at most 1000 compilable patterns, a URL is blocked if and
  only if some line of the file compiles and its pattern matches; lines that do not compile are
  skipped.
\<close>
theorem url_filter_exact:
  assumes "enable_filter cfg" "url_blocklist_file cfg \<noteq> []" "fs (url_blocklist_file cfg) = Some content"
    "length (table_entries regcomp (fgets_lines 1024 content)) \<le> 1000"
  shows "filter_is_url_blocked regexec (filter_init fs regcomp cfg st) url \<longleftrightarrow>
    (\<exists>l \<in> set (fgets_lines 1024 content). \<exists>p r. strip_line l = Some p \<and> regcomp p = Some r \<and> regexec r url)"
proof -
  have "url_patterns (filter_init fs regcomp cfg st) = load_table 1000 regcomp (fgets_lines 1024 content) []"
    "filter_enabled (filter_init fs regcomp cfg st)"
    using assms(1-3) by (simp_all add: filter_init_def filter_load_def filter_clear_def load_url_list_def Let_def)
  then have "filter_is_url_blocked regexec (filter_init fs regcomp cfg st) url \<longleftrightarrow>
      (\<exists>r \<in> set (load_table 1000 regcomp (fgets_lines 1024 content) []). regexec r url)"
    by (simp add: filter_is_url_blocked_def list_ex_iff)
  also have "\<dots> \<longleftrightarrow> (\<exists>l \<in> set (fgets_lines 1024 content). \<exists>p r. strip_line l = Some p \<and> regcomp p = Some r \<and> regexec r url)"
    using load_table_sound [of _ 1000 regcomp "fgets_lines 1024 content" "[]"]
      load_table_complete [of _ "fgets_lines 1024 content" _ regcomp _ "[]" 1000] assms(4) by fastforce
  finally show ?thesis .
qed

theorem url_filter_exact_witness:
  "filter_is_url_blocked (\<lambda>r u. strstr u r \<noteq> None)
     (filter_init (\<lambda>_. Some ''ads'') Some (zero_config\<lparr>enable_filter := True, url_blocklist_file := ''u''\<rparr>)
       (filter_clear \<lparr>domain_trie_root = None, f_allow_ips = [], f_deny_ips = [], url_patterns = [],
          content_type_blocklist = [], block_page_html = [], filter_enabled = False, saved_cfg = zero_config,
          hot_reload_running = False\<rparr>)) ''/ads/1''"
proof -
  have l: "fgets_lines 1024 ''ads'' = [''ads'']"
    by (simp add: fgets_lines.simps [of 1024 "''ads''"] fgets_lines.simps [of _ "[]"] fgets_line_def c_str_def)
  have s: "strip_line ''ads'' = Some ''ads''" by code_simp
  show ?thesis
    by (subst url_filter_exact [where content = "''ads''"]) (simp_all add: l s)
qed

text \<open>
  A hot reload of the configuration cannot switch the filter on. While the filter is off, a reload
  leaves its state as it is, whatever the new file says: \<^verbatim>\<open>g_config.enable_filter\<close> may become true but no
  domain, URL or address is blocked.
\<close>
theorem hot_reload_keeps_filter_off:
  assumes "\<not> filter_enabled st"
  shows "snd (config_hot_reload fs enoent getenv regcomp path junk (g, st)) = st \<and>
    \<not> filter_is_domain_blocked (snd (config_hot_reload fs enoent getenv regcomp path junk (g, st))) domain"
  using assms
  by (auto simp: config_hot_reload_def filter_reload_def filter_is_domain_blocked_def split: prod.split option.split)

theorem hot_reload_keeps_filter_off_witness:
  "enable_filter (fst (config_hot_reload (\<lambda>_. Some ''enable_filter=1'') False (\<lambda>_. None) (\<lambda>_. None) ''c'' zero_config
     (zero_config, demo_filter))) \<and>
   snd (config_hot_reload (\<lambda>_. Some ''enable_filter=1'') False (\<lambda>_. None) (\<lambda>_. None) ''c'' zero_config
     (zero_config, demo_filter)) = demo_filter"
proof
  show "enable_filter (fst (config_hot_reload (\<lambda>_. Some ''enable_filter=1'') False (\<lambda>_. None) (\<lambda>_. None) ''c'' zero_config
     (zero_config, demo_filter)))" by code_simp
  show "snd (config_hot_reload (\<lambda>_. Some ''enable_filter=1'') False (\<lambda>_. None) (\<lambda>_. None) ''c'' zero_config
     (zero_config, demo_filter)) = demo_filter"
    using hot_reload_keeps_filter_off [of demo_filter] by (simp add: demo_filter_def)
qed

text \<open>
  An address entry with an empty or malformed prefix length covers every IPv4 address: the text after
  the slash reads as 0.
\<close>
theorem empty_prefix_matches_all:
  assumes "inet_pton4 subnet = Some b" "CHR ''/'' \<notin> set subnet" "length subnet < 200"
  shows "\<exists>blk. parse_cidr (subnet @ ''/'') = Some blk \<and> (\<forall>a. block_matches (Sockaddr_in a) blk)"
proof -
  have "strncpy_term 256 (subnet @ ''/'') = subnet @ ''/''" using assms(3) by (intro strncpy_term_id) simp
  moreover have "strchr (subnet @ ''/'') (CHR ''/'') = Some (length subnet)" using assms(2) by (rule strchr_append)
  moreover have "atoi [] = 0" by (simp add: atoi_def strtol_def digits_value_def clamp_def)
  moreover have "a AND mask4 0 = b AND mask4 0" for a
    using cidr4_matches [of 0 a b] by (auto simp: drop_bit_eq_iff)
  ultimately show ?thesis using assms(1) by (simp add: parse_cidr_def Let_def block_matches_def)
qed

theorem empty_prefix_matches_all_witness:
  "\<exists>blk. parse_cidr (''10.0.0.0'' @ ''/'') = Some blk \<and> block_matches (Sockaddr_in 3232235777) blk"
proof -
  have "inet_pton4 ''10.0.0.0'' = Some 167772160"
    by (simp add: inet_pton4_def dec_octet_def digits_value_def code_def isdigit_def)
  from empty_prefix_matches_all [OF this] show ?thesis by auto
qed

end
