(* ===== verification/Http2.thy ===== *)
theory Http2
  imports Metrics
begin

text \<open>
  \<^verbatim>\<open>src/src/http2.c\<close>: an HTTP/2 connection of a client, whose streams are turned into HTTP/1.1 requests.

  The library \<^verbatim>\<open>nghttp2\<close> is not part of the repository. It calls the callbacks of this file, so a run is
  given the calls it makes for each block of input; it hands out the bytes to be sent one block per
  call of \<^verbatim>\<open>nghttp2_session_mem_send\<close>, so its output is a list of blocks; and what the code submits to
  it is recorded. The results of the sockets and of OpenSSL are arguments. \<^term>\<open>None\<close> stands for
  undefined behaviour. The length fields of the buffers are the lengths of the strings; a buffer's
  size is kept as it is.
\<close>

section \<open>Searching memory\<close>

function memmem_scan :: "string \<Rightarrow> string \<Rightarrow> nat \<Rightarrow> nat \<Rightarrow> nat option" where
  \<comment> \<open>the loop of \<^verbatim>\<open>custom_memmem\<close> from \<^verbatim>\<open>begin\<close> at offset \<^verbatim>\<open>i\<close> to the last possible one\<close>
  "memmem_scan hay needle stop i =
     (if i > stop then None
      else if hay ! i = needle ! 0 \<and> take (length needle) (drop i hay) = needle then Some i
      else memmem_scan hay needle stop (i + 1))"
  by auto
termination
  by (relation "measure (\<lambda>(hay, needle, stop, i). Suc stop - i)") auto

declare memmem_scan.simps [simp del]

definition custom_memmem :: "string \<Rightarrow> string \<Rightarrow> nat option" where
  \<comment> \<open>the offset of the pointer returned\<close>
  "custom_memmem hay needle =
     (if needle = [] then Some 0
      else if length hay < length needle then None
      else memmem_scan hay needle (length hay - length needle) 0)"

section \<open>State\<close>

datatype http2_upstream_state =
    HTTP2_UPSTREAM_STATE_INIT
  | HTTP2_UPSTREAM_STATE_CONNECTING
  | HTTP2_UPSTREAM_STATE_SENDING_REQUEST
  | HTTP2_UPSTREAM_STATE_READING_RESPONSE
  | HTTP2_UPSTREAM_STATE_DONE

record http2_stream =
  stream_id :: int
  s_method :: "string option"
  s_path :: "string option"
  s_authority :: "string option"
  request_buf :: string
  request_buf_size :: nat
  s_headers :: string
  s_body :: string
  body_size :: nat
  request_complete :: bool
  response_complete :: bool
  upstream_fd :: bool \<comment> \<open>not -1\<close>
  upstream_ssl :: bool \<comment> \<open>not \<^verbatim>\<open>NULL\<close>\<close>
  upstream_state :: http2_upstream_state
  upstream_request :: "string option"
  upstream_request_sent :: nat
  upstream_headers_complete :: bool
  upstream_status_code :: int
  upstream_response :: string \<comment> \<open>the first \<^verbatim>\<open>upstream_response_len\<close> bytes\<close>
  upstream_response_size :: nat

record http2_conn =
  streams :: "http2_stream option list" \<comment> \<open>its length is \<^verbatim>\<open>max_streams\<close>\<close>
  num_streams :: nat
  active_streams_count :: size_t
  h2_metrics :: ServerMetrics

definition new_stream :: "int \<Rightarrow> http2_stream" where
  "new_stream sid =
     \<lparr>stream_id = sid, s_method = None, s_path = None, s_authority = None, request_buf = [], request_buf_size = 0,
      s_headers = [], s_body = [], body_size = 0, request_complete = False, response_complete = False,
      upstream_fd = False, upstream_ssl = False, upstream_state = HTTP2_UPSTREAM_STATE_INIT,
      upstream_request = None, upstream_request_sent = 0, upstream_headers_complete = False,
      upstream_status_code = 0, upstream_response = [], upstream_response_size = 0\<rparr>"

definition http2_conn_init :: "ServerMetrics \<Rightarrow> http2_conn" where
  "http2_conn_init m = \<lparr>streams = [], num_streams = 0, active_streams_count = 0, h2_metrics = m\<rparr>"

section \<open>Streams\<close>

record allocs =
  array_ok :: bool \<comment> \<open>\<^verbatim>\<open>realloc\<close> of the array of streams\<close>
  stream_ok :: bool \<comment> \<open>\<^verbatim>\<open>calloc\<close> of a stream\<close>
  buffer_ok :: bool \<comment> \<open>\<^verbatim>\<open>realloc\<close> of a buffer of the stream\<close>

definition http2_get_stream :: "allocs \<Rightarrow> int \<Rightarrow> http2_conn \<Rightarrow> bool \<times> http2_conn" where
  \<comment> \<open>whether a stream is returned, which then stands at index \<^verbatim>\<open>stream_id\<close>\<close>
  "http2_get_stream al sid conn =
     (if sid < 0 then (False, conn)
      else if nat sid \<ge> length (streams conn) \<and> \<not> array_ok al then (False, conn)
      else
        let conn = conn\<lparr>streams := streams conn @ replicate (nat sid + 1 - length (streams conn)) None\<rparr>
        in case streams conn ! nat sid of
             Some _ \<Rightarrow> (True, conn)
           | None \<Rightarrow>
               if \<not> stream_ok al then (False, conn)
               else (True, conn\<lparr>streams := (streams conn)[nat sid := Some (new_stream sid)],
                                num_streams := num_streams conn + 1\<rparr>))"

definition upd_stream :: "int \<Rightarrow> (http2_stream \<Rightarrow> http2_stream) \<Rightarrow> http2_conn \<Rightarrow> http2_conn" where
  \<comment> \<open>an assignment through the pointer \<^verbatim>\<open>http2_get_stream\<close> returned\<close>
  "upd_stream sid f conn = conn\<lparr>streams := (streams conn)[nat sid := map_option f (streams conn ! nat sid)]\<rparr>"

definition get_stream_at :: "int \<Rightarrow> http2_conn \<Rightarrow> http2_stream" where
  "get_stream_at sid conn = the (streams conn ! nat sid)"

definition http2_conn_free :: "http2_conn \<Rightarrow> http2_conn" where
  \<comment> \<open>every stream is released\<close>
  "http2_conn_free conn = conn\<lparr>streams := []\<rparr>"

section \<open>Callbacks\<close>

definition reset_stream :: "http2_stream \<Rightarrow> http2_stream" where
  "reset_stream s =
     s\<lparr>request_buf := [], request_buf_size := 0, request_complete := False, s_method := None, s_path := None,
       s_authority := None, s_body := [], body_size := 0, s_headers := [], response_complete := False\<rparr>"

definition on_begin_headers_callback :: "allocs \<Rightarrow> int \<Rightarrow> http2_conn \<Rightarrow> bool \<times> http2_conn" where
  \<comment> \<open>\<^verbatim>\<open>False\<close> stands for \<^verbatim>\<open>NGHTTP2_ERR_CALLBACK_FAILURE\<close>\<close>
  "on_begin_headers_callback al sid conn =
     (case http2_get_stream al sid conn of
        (False, conn) \<Rightarrow> (False, conn)
      | (True, conn) \<Rightarrow> (True, upd_stream sid reset_stream conn))"

definition append_header :: "string \<Rightarrow> string \<Rightarrow> http2_stream \<Rightarrow> http2_stream" where
  "append_header name val s =
     (let needed = length name + 2 + length val + 2;
          s = (if request_buf_size s < length (request_buf s) + needed
               then s\<lparr>request_buf_size := length (request_buf s) + needed + 256\<rparr> else s)
      in s\<lparr>request_buf := request_buf s @ name @ '': '' @ val @ CRLF\<rparr>)"

definition on_header_callback :: "allocs \<Rightarrow> int \<Rightarrow> string \<Rightarrow> string \<Rightarrow> http2_conn \<Rightarrow> bool \<times> http2_conn" where
  "on_header_callback al sid name val conn =
     (case http2_get_stream al sid conn of
        (False, conn) \<Rightarrow> (False, conn)
      | (True, conn) \<Rightarrow>
          if name \<noteq> [] \<and> name ! 0 = CHR '':''
          then (True, if name = '':method'' then upd_stream sid (\<lambda>s. s\<lparr>s_method := Some (c_str val)\<rparr>) conn
                      else if name = '':path'' then upd_stream sid (\<lambda>s. s\<lparr>s_path := Some (c_str val)\<rparr>) conn
                      else if name = '':authority'' then upd_stream sid (\<lambda>s. s\<lparr>s_authority := Some (c_str val)\<rparr>) conn
                      else conn)
          else
            let s = get_stream_at sid conn;
                grow = (request_buf_size s < length (request_buf s) + (length name + 2 + length val + 2))
            in if grow \<and> \<not> buffer_ok al
               then (False, upd_stream sid
                       (\<lambda>s. s\<lparr>request_buf_size := length (request_buf s) + (length name + 2 + length val + 2) + 256,
                              request_buf := []\<rparr>) conn)
               else (True, upd_stream sid (append_header name val) conn))"

datatype frame_type = NGHTTP2_DATA | NGHTTP2_HEADERS | NGHTTP2_GOAWAY | Other_frame

definition count_request :: "http2_conn \<Rightarrow> http2_conn" where
  "count_request conn =
     conn\<lparr>h2_metrics := metrics_increment_http2_requests (h2_metrics conn),
          active_streams_count := active_streams_count conn + 1\<rparr>"

definition complete_request :: "int \<Rightarrow> http2_conn \<Rightarrow> http2_conn" where
  "complete_request sid conn = count_request (upd_stream sid (\<lambda>s. s\<lparr>request_complete := True\<rparr>) conn)"

definition grow_body :: "nat \<Rightarrow> http2_stream \<Rightarrow> http2_stream" where
  \<comment> \<open>\<^verbatim>\<open>needed\<close> already counts \<^verbatim>\<open>body_len\<close>, which is then added once more\<close>
  "grow_body n s =
     (let needed = length (s_body s) + n
      in if body_size s < length (s_body s) + needed then s\<lparr>body_size := length (s_body s) + needed + 256\<rparr> else s)"

definition body_grows :: "nat \<Rightarrow> http2_stream \<Rightarrow> bool" where
  "body_grows n s \<longleftrightarrow> body_size s < length (s_body s) + (length (s_body s) + n)"

definition lose_body :: "nat \<Rightarrow> http2_stream \<Rightarrow> http2_stream" where
  \<comment> \<open>\<^verbatim>\<open>realloc\<close> failed: the bytes are gone, and the failure ends the connection\<close>
  "lose_body n s = (grow_body n s)\<lparr>s_body := []\<rparr>"

definition on_frame_recv_callback ::
  "allocs \<Rightarrow> int \<Rightarrow> frame_type \<Rightarrow> bool \<Rightarrow> bool \<Rightarrow> nat \<Rightarrow> http2_conn \<Rightarrow> bool \<times> http2_conn" where
  \<comment> \<open>the flags \<^verbatim>\<open>END_STREAM\<close> and \<^verbatim>\<open>END_HEADERS\<close> and the length of the frame\<close>
  "on_frame_recv_callback al sid type end_stream end_headers len conn =
     (case http2_get_stream al sid conn of
        (False, conn) \<Rightarrow> (False, conn)
      | (True, conn) \<Rightarrow>
          (case type of
             NGHTTP2_DATA \<Rightarrow>
               if body_grows len (get_stream_at sid conn) \<and> \<not> buffer_ok al
               then (False, upd_stream sid (lose_body len) conn)
               else (let conn = upd_stream sid (grow_body len) conn
                     in (True, if end_stream then complete_request sid conn else conn))
           | NGHTTP2_HEADERS \<Rightarrow>
               (True, if end_headers \<and> (len = 0 \<or> end_stream) then complete_request sid conn else conn)
           | NGHTTP2_GOAWAY \<Rightarrow> (True, conn)
           | Other_frame \<Rightarrow> (True, conn)))"

definition on_data_chunk_recv_callback ::
  "allocs \<Rightarrow> bool \<Rightarrow> int \<Rightarrow> string \<Rightarrow> http2_conn \<Rightarrow> bool \<times> http2_conn" where
  \<comment> \<open>the first flag bit, \<^verbatim>\<open>NGHTTP2_DATA_FLAG_EOF\<close>, has the value of \<^verbatim>\<open>NGHTTP2_FLAG_END_STREAM\<close>\<close>
  "on_data_chunk_recv_callback al eof sid data conn =
     (case http2_get_stream al sid conn of
        (False, conn) \<Rightarrow> (False, conn)
      | (True, conn) \<Rightarrow>
          if body_grows (length data) (get_stream_at sid conn) \<and> \<not> buffer_ok al
          then (False, upd_stream sid (lose_body (length data)) conn)
          else (let conn = upd_stream sid (\<lambda>s. (grow_body (length data) s)\<lparr>s_body := s_body s @ data\<rparr>) conn
                in (True, if eof then complete_request sid conn else conn)))"

section \<open>Creating the session\<close>

datatype io_result =
    Moved int
  | NGHTTP2_ERR_WOULDBLOCK
  | NGHTTP2_ERR_EOF
  | NGHTTP2_ERR_CALLBACK_FAILURE

definition send_callback :: "int \<Rightarrow> bool \<Rightarrow> ServerMetrics \<Rightarrow> io_result \<times> ServerMetrics" where
  \<comment> \<open>the result of \<^verbatim>\<open>SSL_write\<close> and whether its error only asks to wait; registered, but a session whose
      bytes are taken with \<^verbatim>\<open>nghttp2_session_mem_send\<close> does not call it\<close>
  "send_callback sent wait m =
     (if sent \<le> 0 then (if wait then NGHTTP2_ERR_WOULDBLOCK else NGHTTP2_ERR_CALLBACK_FAILURE, m)
      else (Moved sent, metrics_add_http2_bytes (word_of_int sent) m))"

definition recv_callback :: "int \<Rightarrow> bool \<Rightarrow> ServerMetrics \<Rightarrow> io_result \<times> ServerMetrics" where
  "recv_callback readlen wait m =
     (if readlen \<le> 0
      then (if wait then NGHTTP2_ERR_WOULDBLOCK
            else if readlen = 0 then NGHTTP2_ERR_EOF else NGHTTP2_ERR_CALLBACK_FAILURE, m)
      else (Moved readlen, metrics_add_http2_bytes (word_of_int readlen) m))"

record init_env =
  conn_malloc_ok :: bool
  session_new_ok :: bool
  submit_settings_ok :: bool

record conn_init =
  init_ret :: int
  conn_ptr :: "http2_conn option" \<comment> \<open>what the caller's variable holds, \<^verbatim>\<open>NULL\<close> before\<close>
  conn_allocated :: bool \<comment> \<open>the connection and its session were allocated and are not freed\<close>

definition http2_init_context :: "init_env \<Rightarrow> ServerMetrics \<Rightarrow> conn_init" where
  "http2_init_context env m =
     (if \<not> conn_malloc_ok env then \<lparr>init_ret = -1, conn_ptr = None, conn_allocated = False\<rparr>
      else if \<not> session_new_ok env then \<lparr>init_ret = -1, conn_ptr = None, conn_allocated = False\<rparr>
      else if \<not> submit_settings_ok env then \<lparr>init_ret = -1, conn_ptr = None, conn_allocated = True\<rparr>
      else \<lparr>init_ret = 0, conn_ptr = Some (http2_conn_init m), conn_allocated = True\<rparr>)"

section \<open>Input and output of the session\<close>

datatype h2_event =
    Begin_headers int
  | Header int string string
  | Data_chunk int bool string
  | Frame_recv int frame_type bool bool nat

fun h2_callback :: "allocs \<Rightarrow> h2_event \<Rightarrow> http2_conn \<Rightarrow> bool \<times> http2_conn" where
  \<comment> \<open>the callbacks registered by \<^verbatim>\<open>http2_init_context\<close>\<close>
  "h2_callback al (Begin_headers sid) conn = on_begin_headers_callback al sid conn"
| "h2_callback al (Header sid name val) conn = on_header_callback al sid name val conn"
| "h2_callback al (Data_chunk sid eof d) conn = on_data_chunk_recv_callback al eof sid d conn"
| "h2_callback al (Frame_recv sid type es eh len) conn = on_frame_recv_callback al sid type es eh len conn"

fun h2_callbacks :: "(allocs \<times> h2_event) list \<Rightarrow> http2_conn \<Rightarrow> bool \<times> http2_conn" where
  \<comment> \<open>a callback that fails ends the call of \<^verbatim>\<open>nghttp2_session_mem_recv\<close>\<close>
  "h2_callbacks [] conn = (True, conn)"
| "h2_callbacks ((al, ev) # evs) conn =
     (case h2_callback al ev conn of (False, conn) \<Rightarrow> (False, conn) | (True, conn) \<Rightarrow> h2_callbacks evs conn)"

definition http2_process_input :: "(allocs \<times> h2_event) list \<Rightarrow> bool \<Rightarrow> nat \<Rightarrow> http2_conn \<Rightarrow> int \<times> http2_conn" where
  \<comment> \<open>\<^verbatim>\<open>recv_ok\<close> says that the library finds no error of its own in the input\<close>
  "http2_process_input evs recv_ok len conn =
     (case h2_callbacks evs conn of
        (ok, conn) \<Rightarrow>
          if ok \<and> recv_ok
          then (0, conn\<lparr>h2_metrics := metrics_add_http2_bytes (word_of_nat len) (h2_metrics conn)\<rparr>)
          else (-1, conn))"

datatype ssl_write = Wrote | Write_again | Write_failed

fun http2_send_pending :: "ssl_write list \<Rightarrow> string list \<Rightarrow> int \<times> string list" where
  \<comment> \<open>the result and what reached the client, from the blocks \<^verbatim>\<open>nghttp2_session_mem_send\<close> returns in turn;
      where the results of \<^verbatim>\<open>SSL_write\<close> end, the loop is still running\<close>
  "http2_send_pending ws [] = (0, [])"
| "http2_send_pending [] (b # bs) = (0, [])"
| "http2_send_pending (Write_failed # ws) (b # bs) = (-1, [])"
| "http2_send_pending (Write_again # ws) (b # bs) = http2_send_pending ws bs"
| "http2_send_pending (Wrote # ws) (b # bs) =
     (case http2_send_pending ws (drop 1 bs) of (r, out) \<Rightarrow> (r, b # out))"

section \<open>The upstream side of a stream\<close>

datatype connect_result = Connect_ok | Connect_in_progress | Connect_failed
datatype up_write = Up_wrote nat | Up_write_again | Up_write_failed
datatype up_read = Up_bytes string | Up_read_again | Up_closed | Up_read_failed

record upstream_env =
  up_socket_ok :: bool
  up_nonblock_ok :: bool
  up_ssl_ok :: bool
  up_resolve_ok :: bool
  up_connect :: connect_result
  up_getsockopt_ok :: bool
  up_so_error :: bool
  up_request_ok :: bool
  up_writes :: "up_write list"
  up_read_buf_ok :: bool
  up_read_result :: up_read
  up_buffer_ok :: bool
  submit_response_ok :: bool
  submit_head_data_ok :: bool \<comment> \<open>the body bytes that came with the headers\<close>
  submit_data_ok :: bool
  submit_end_ok :: bool
  pending_writes :: "ssl_write list"
  pending_blocks :: "string list"

datatype payload_ref = Response_buf nat | Read_buf_freed | Stack_variable

record body_payload =
  p_data :: payload_ref
  p_len :: nat
  p_offset :: "nat option" \<comment> \<open>\<^verbatim>\<open>None\<close> where \<^verbatim>\<open>malloc\<close> left it\<close>

datatype h2_out =
    Submit_response int int
  | Submit_data int bool body_payload
  | Window_update int nat
  | Upstream_bytes string
  | Client_bytes string

definition malloc_payload :: "payload_ref \<Rightarrow> nat \<Rightarrow> body_payload" where
  \<comment> \<open>\<^verbatim>\<open>malloc\<close>, then \<^verbatim>\<open>data\<close> and \<^verbatim>\<open>len\<close> are assigned\<close>
  "malloc_payload d n = \<lparr>p_data = d, p_len = n, p_offset = None\<rparr>"

definition data_read_callback :: "string \<Rightarrow> nat \<Rightarrow> body_payload \<Rightarrow> (string \<times> bool \<times> body_payload) option" where
  \<comment> \<open>\<^verbatim>\<open>mem\<close> is what \<^verbatim>\<open>upstream_response_buf\<close> holds; the bytes copied, whether the end is reached\<close>
  "data_read_callback mem len p =
     (case p_offset p of
        None \<Rightarrow> None
      | Some off \<Rightarrow>
          if off \<ge> p_len p then Some ([], True, p)
          else (case p_data p of
                  Response_buf k \<Rightarrow>
                    (let n = min len (p_len p - off)
                     in if k + off + n \<le> length mem
                        then Some (take n (drop (k + off) mem), False, p\<lparr>p_offset := Some (off + n)\<rparr>) else None)
                | Read_buf_freed \<Rightarrow> None
                | Stack_variable \<Rightarrow> None))"

definition drop_upstream :: "http2_stream \<Rightarrow> http2_stream" where
  "drop_upstream s = s\<lparr>upstream_ssl := False, upstream_fd := False\<rparr>"

definition check_connected :: "upstream_env \<Rightarrow> http2_stream \<Rightarrow> int \<times> http2_stream" where
  \<comment> \<open>\<^verbatim>\<open>HTTP2_UPSTREAM_STATE_CONNECTING\<close>; \<^verbatim>\<open>getsockopt\<close> fails for the descriptor -1\<close>
  "check_connected env s =
     (if \<not> upstream_fd s \<or> \<not> up_getsockopt_ok env then (-1, s)
      else if up_so_error env then (-1, drop_upstream s)
      else (0, s\<lparr>upstream_state := HTTP2_UPSTREAM_STATE_SENDING_REQUEST\<rparr>))"

definition open_upstream :: "upstream_env \<Rightarrow> http2_stream \<Rightarrow> int \<times> http2_stream" where
  \<comment> \<open>\<^verbatim>\<open>HTTP2_UPSTREAM_STATE_INIT\<close>, which falls through where the connection is there at once\<close>
  "open_upstream env s =
     (if \<not> up_socket_ok env then (-1, s\<lparr>upstream_fd := False\<rparr>)
      else if \<not> up_nonblock_ok env then (-1, s\<lparr>upstream_fd := False\<rparr>)
      else if \<not> up_ssl_ok env then (-1, s\<lparr>upstream_fd := False, upstream_ssl := False\<rparr>)
      else if \<not> up_resolve_ok env then (-1, drop_upstream s)
      else
        let s = s\<lparr>upstream_fd := True, upstream_ssl := True\<rparr>
        in case up_connect env of
             Connect_failed \<Rightarrow> (-1, drop_upstream s)
           | Connect_in_progress \<Rightarrow> (0, s\<lparr>upstream_state := HTTP2_UPSTREAM_STATE_CONNECTING\<rparr>)
           | Connect_ok \<Rightarrow> check_connected env (s\<lparr>upstream_state := HTTP2_UPSTREAM_STATE_SENDING_REQUEST\<rparr>))"

definition build_request :: "http2_stream \<Rightarrow> string option" where
  \<comment> \<open>\<^verbatim>\<open>strlen\<close> of a pseudo-header that was not sent is undefined\<close>
  "build_request s =
     do {
       m \<leftarrow> s_method s;
       p \<leftarrow> s_path s;
       a \<leftarrow> s_authority s;
       Some (m @ '' '' @ p @ '' HTTP/1.1'' @ CRLF @ ''Host: '' @ a @ CRLF @ s_headers s @ CRLF @ s_body s)
     }"

fun write_upstream :: "up_write list \<Rightarrow> string \<Rightarrow> http2_stream \<Rightarrow> int \<times> http2_stream \<times> h2_out list" where
  \<comment> \<open>the loop over \<^verbatim>\<open>SSL_write\<close>; without a further result it is still running\<close>
  "write_upstream ws req s =
     (if length req \<le> upstream_request_sent s
      then (0, s\<lparr>upstream_state := HTTP2_UPSTREAM_STATE_READING_RESPONSE\<rparr>, [])
      else (case ws of
              Up_wrote n # ws \<Rightarrow>
                (let n = min n (length req - upstream_request_sent s);
                     out = Upstream_bytes (take n (drop (upstream_request_sent s) req))
                 in case write_upstream ws req (s\<lparr>upstream_request_sent := upstream_request_sent s + n\<rparr>) of
                      (r, s, outs) \<Rightarrow> (r, s, out # outs))
            | Up_write_again # _ \<Rightarrow> (0, s, [])
            | Up_write_failed # _ \<Rightarrow> (-1, s, [])
            | [] \<Rightarrow> (0, s, [])))"

declare write_upstream.simps [simp del]

definition write_request :: "upstream_env \<Rightarrow> string \<Rightarrow> http2_stream \<Rightarrow> (int \<times> http2_stream \<times> h2_out list) option" where
  \<comment> \<open>\<^verbatim>\<open>check_connected\<close> may have freed the TLS object that \<^verbatim>\<open>SSL_write\<close> is given\<close>
  "write_request env req s =
     (if upstream_request_sent s < length req \<and> \<not> upstream_ssl s then None
      else Some (write_upstream (up_writes env) req s))"

definition send_request :: "upstream_env \<Rightarrow> http2_stream \<Rightarrow> (int \<times> http2_stream \<times> h2_out list) option" where
  \<comment> \<open>\<^verbatim>\<open>HTTP2_UPSTREAM_STATE_SENDING_REQUEST\<close>\<close>
  "send_request env s =
     (case upstream_request s of
        Some req \<Rightarrow> write_request env req s
      | None \<Rightarrow>
          (case build_request s of
             None \<Rightarrow> None
           | Some req \<Rightarrow>
               if \<not> up_request_ok env then Some (-1, s, [])
               else write_request env req (s\<lparr>upstream_request := Some req\<rparr>)))"

definition status_of :: "string \<Rightarrow> nat \<Rightarrow> int \<Rightarrow> int" where
  \<comment> \<open>the status read from the first line of the headers, which end at \<^verbatim>\<open>pos\<close>; \<^verbatim>\<open>old\<close> where it is not read\<close>
  "status_of resp pos old =
     (case custom_memmem (take pos resp) CRLF of
        None \<Rightarrow> old
      | Some e \<Rightarrow>
          (let line = c_str (take e resp)
           in case strchr line (CHR '' '') of
                None \<Rightarrow> old
              | Some i \<Rightarrow>
                  (let rest = drop (i + 1) line
                   in case strchr rest (CHR '' '') of
                        None \<Rightarrow> old
                      | Some j \<Rightarrow> atoi (take j rest))))"

definition head_received :: "upstream_env \<Rightarrow> nat \<Rightarrow> http2_stream \<Rightarrow> int \<times> http2_stream \<times> h2_out list" where
  \<comment> \<open>the headers of the response are complete at \<^verbatim>\<open>pos\<close>\<close>
  "head_received env pos s =
     (let code = status_of (upstream_response s) pos (upstream_status_code s);
          s = s\<lparr>upstream_headers_complete := True, upstream_status_code := code\<rparr>;
          out = [Submit_response (stream_id s) code];
          n = length (upstream_response s) - (pos + 4);
          part = [Submit_data (stream_id s) False (malloc_payload (Response_buf (pos + 4)) n)]
      in if \<not> submit_response_ok env then (-1, s, [])
         else if n > 0 \<and> \<not> submit_head_data_ok env then (-1, s, out)
         else (0, s\<lparr>upstream_response := []\<rparr>,
               out @ (if n > 0 then part @ [Window_update (stream_id s) n, Window_update 0 n] else [])))"

definition read_bytes :: "upstream_env \<Rightarrow> string \<Rightarrow> http2_stream \<Rightarrow> int \<times> http2_stream \<times> h2_out list" where
  \<comment> \<open>\<^verbatim>\<open>SSL_read\<close> returned \<^verbatim>\<open>b\<close>; \<^verbatim>\<open>read_buf\<close> is freed at the end\<close>
  "read_bytes env b s =
     (let grow = (upstream_response_size s < length (upstream_response s) + length b);
          s = (if grow then s\<lparr>upstream_response_size := length (upstream_response s) + length b + 256\<rparr> else s)
      in if grow \<and> \<not> up_buffer_ok env then (-1, s\<lparr>upstream_response := []\<rparr>, [])
         else
           let s = s\<lparr>upstream_response := upstream_response s @ b\<rparr>;
               (r, s, out) =
                 (if \<not> upstream_headers_complete s \<and> 4 \<le> length (upstream_response s)
                  then (case custom_memmem (upstream_response s) (CRLF @ CRLF) of
                          Some pos \<Rightarrow> head_received env pos s
                        | None \<Rightarrow> (0, s, []))
                  else (0, s, []))
           in if r < 0 then (r, s, out)
              else if upstream_headers_complete s
              then (if submit_data_ok env
                    then (0, s, out @ [Submit_data (stream_id s) False (malloc_payload Read_buf_freed (length b))])
                    else (-1, s, out))
              else (0, s, out))"

definition response_closed :: "upstream_env \<Rightarrow> http2_stream \<Rightarrow> int \<times> http2_stream \<times> h2_out list" where
  \<comment> \<open>the server closed the connection\<close>
  "response_closed env s =
     (let rest = upstream_response s \<noteq> [] \<and> upstream_headers_complete s;
          out = (if rest
                 then [Submit_data (stream_id s) False
                         \<lparr>p_data = Stack_variable, p_len = length (upstream_response s), p_offset = Some 0\<rparr>]
                 else [])
      in if rest \<and> \<not> submit_data_ok env then (-1, s, [])
         else if \<not> submit_end_ok env then (-1, s, out)
         else
           let out = out @ [Submit_data (stream_id s) True \<lparr>p_data = Stack_variable, p_len = 0, p_offset = Some 0\<rparr>]
           in case http2_send_pending (pending_writes env) (pending_blocks env) of
                (r, sent) \<Rightarrow>
                  if r \<noteq> 0 then (-1, s, out @ map Client_bytes sent)
                  else (0, s\<lparr>response_complete := True, upstream_state := HTTP2_UPSTREAM_STATE_DONE\<rparr>,
                        out @ map Client_bytes sent))"

definition http2_process_stream ::
  "upstream_env \<Rightarrow> http2_stream \<Rightarrow> (int \<times> http2_stream \<times> h2_out list) option" where
  "http2_process_stream env s =
     (if \<not> request_complete s then Some (0, s, [])
      else if response_complete s then Some (0, s, [])
      else (case upstream_state s of
              HTTP2_UPSTREAM_STATE_INIT \<Rightarrow> (case open_upstream env s of (r, s) \<Rightarrow> Some (r, s, []))
            | HTTP2_UPSTREAM_STATE_CONNECTING \<Rightarrow> (case check_connected env s of (r, s) \<Rightarrow> Some (r, s, []))
            | HTTP2_UPSTREAM_STATE_SENDING_REQUEST \<Rightarrow> send_request env s
            | HTTP2_UPSTREAM_STATE_READING_RESPONSE \<Rightarrow>
                if \<not> up_read_buf_ok env then Some (-1, s, [])
                else if \<not> upstream_ssl s then None
                else (case up_read_result env of
                        Up_bytes b \<Rightarrow> Some (read_bytes env b s)
                      | Up_read_again \<Rightarrow> Some (0, s, [])
                      | Up_closed \<Rightarrow> Some (response_closed env s)
                      | Up_read_failed \<Rightarrow> Some (-1, s, []))
            | HTTP2_UPSTREAM_STATE_DONE \<Rightarrow>
                Some (0, (drop_upstream s)\<lparr>upstream_request := None, upstream_request_sent := 0\<rparr>, [])))"

section \<open>The connection\<close>

fun process_streams ::
  "upstream_env list \<Rightarrow> nat \<Rightarrow> http2_conn \<Rightarrow> (http2_conn \<times> h2_out list) option" where
  \<comment> \<open>the loop over the array of streams from index \<^verbatim>\<open>i\<close> on, with the environment of each\<close>
  "process_streams [] i conn = Some (conn, [])"
| "process_streams (env # envs) i conn =
     (if i \<ge> length (streams conn) then Some (conn, [])
      else (case streams conn ! i of
              None \<Rightarrow> process_streams envs (i + 1) conn
            | Some s \<Rightarrow>
                if request_complete s \<and> \<not> response_complete s
                then (case http2_process_stream env s of
                        None \<Rightarrow> None
                      | Some (r, s', out) \<Rightarrow>
                          (let conn = conn\<lparr>streams := (streams conn)[i := Some s']\<rparr>;
                               conn = (if r = 0 \<and> response_complete s'
                                       then conn\<lparr>active_streams_count := active_streams_count conn - 1\<rparr> else conn)
                           in case process_streams envs (i + 1) conn of
                                None \<Rightarrow> None
                              | Some (conn, outs) \<Rightarrow> Some (conn, out @ outs)))
                else process_streams envs (i + 1) conn))"

datatype client_read =
    Client_block "(allocs \<times> h2_event) list" bool nat
  | Client_again
  | Client_closed
  | Client_failed

record h2_turn =
  client_read :: client_read
  stream_envs :: "upstream_env list"
  block_writes :: "ssl_write list"
  blocks :: "string list"

fun http2_loop :: "h2_turn list \<Rightarrow> http2_conn \<Rightarrow> (http2_conn \<times> h2_out list) option" where
  \<comment> \<open>the turns of \<^verbatim>\<open>while (active)\<close>; the count of idle turns at its end is only reached with bytes read\<close>
  "http2_loop [] conn = Some (conn, [])"
| "http2_loop (t # ts) conn =
     (case client_read t of
        Client_again \<Rightarrow> http2_loop ts conn
      | Client_closed \<Rightarrow> Some (conn, [])
      | Client_failed \<Rightarrow> Some (conn, [])
      | Client_block evs recv_ok len \<Rightarrow>
          (case http2_process_input evs recv_ok len conn of
             (r, conn) \<Rightarrow>
               if r \<noteq> 0 then Some (conn, [])
               else (case (if active_streams_count conn > 0 then process_streams (stream_envs t) 0 conn
                           else Some (conn, [])) of
                       None \<Rightarrow> None
                     | Some (conn, out) \<Rightarrow>
                         (case http2_send_pending (block_writes t) (blocks t) of
                            (r, sent) \<Rightarrow>
                              (let out = out @ map Client_bytes sent
                               in if r \<noteq> 0 then Some (conn, out)
                                  else (case http2_loop ts conn of
                                          None \<Rightarrow> None
                                        | Some (conn, outs) \<Rightarrow> Some (conn, out @ outs)))))))"

definition handle_http2_connection ::
  "init_env \<Rightarrow> h2_turn list \<Rightarrow> ServerMetrics \<Rightarrow> (ServerMetrics \<times> h2_out list) option" where
  "handle_http2_connection ienv ts m =
     (let m = metrics_increment_http2_active_connections m;
          i = http2_init_context ienv m
      in if init_ret i \<noteq> 0 then Some (m, [])
         else (case conn_ptr i of
                 None \<Rightarrow> None
               | Some conn \<Rightarrow>
                   (case http2_loop ts conn of
                      None \<Rightarrow> None
                    | Some (conn, out) \<Rightarrow> Some (metrics_decrement_http2_active_connections (h2_metrics conn), out))))"

end
