(* ===== verification/Http2_Laws.thy ===== *)
theory Http2_Laws
  imports Http2
begin

text \<open>
  What every stream of an HTTP/2 connection keeps, as a contract: a property of single streams that
  the callbacks and the upstream steps keep holds for all streams of every connection the loop
  reaches.
\<close>

section \<open>Searching\<close>

lemma memmem_scan_strstr:
  "pat \<noteq> [] \<Longrightarrow> stop + length pat = length hay \<Longrightarrow> i \<le> Suc stop \<Longrightarrow>
     memmem_scan hay pat stop i = map_option ((+) i) (strstr (drop i hay) pat)"
proof (induction hay pat stop i rule: memmem_scan.induct)
  case (1 hay pat stop i)
  show ?case
  proof (cases "i > stop")
    case True
    have "strstr (drop i hay) pat = None"
    proof (rule ccontr)
      assume "strstr (drop i hay) pat \<noteq> None"
      then obtain j where "strstr (drop i hay) pat = Some j" by blast
      from prefix_length_le [OF conjunct2 [OF strstr_SomeD [OF this]]]
      have "length pat \<le> length hay - i" by simp
      moreover have "0 < length pat" using "1.prems"(1) by simp
      ultimately show False using True "1.prems"(2) by linarith
    qed
    with True show ?thesis by (subst memmem_scan.simps) simp
  next
    case False
    with "1.prems" have i: "i < length hay" by (cases pat) auto
    have here: "hay ! i = pat ! 0 \<and> take (length pat) (drop i hay) = pat \<longleftrightarrow> prefix pat (drop i hay)"
    proof
      assume "prefix pat (drop i hay)"
      then obtain zs where z: "drop i hay = pat @ zs" by (auto simp: prefix_def)
      have "hay ! i = drop i hay ! 0" using i by simp
      also have "\<dots> = pat ! 0" using z "1.prems"(1) by (simp add: nth_append)
      finally show "hay ! i = pat ! 0 \<and> take (length pat) (drop i hay) = pat" using z by simp
    next
      assume "hay ! i = pat ! 0 \<and> take (length pat) (drop i hay) = pat"
      then show "prefix pat (drop i hay)" by (metis append_take_drop_id prefixI)
    qed
    note d = Cons_nth_drop_Suc [OF i, symmetric]
    have "strstr (drop i hay) pat =
        (if prefix pat (drop i hay) then Some 0 else map_option Suc (strstr (drop (Suc i) hay) pat))"
      unfolding d by simp
    with here False "1.IH" "1.prems" show ?thesis
      by (subst memmem_scan.simps) (auto simp: option.map_comp comp_def)
  qed
qed

text \<open>The search written in this file is the library's.\<close>

lemma custom_memmem_strstr: "custom_memmem hay pat = strstr hay pat"
proof (cases "pat = [] \<or> length hay < length pat")
  case True
  have "strstr hay pat = None" if "length hay < length pat"
    using that by (metis not_less option.exhaust prefix_length_le strstr_SomeD length_drop diff_le_self order.trans)
  with True show ?thesis by (cases hay) (auto simp: custom_memmem_def)
next
  case False
  with memmem_scan_strstr [of pat "length hay - length pat" hay 0] show ?thesis
    by (cases "strstr hay pat") (simp_all add: custom_memmem_def)
qed

section \<open>Properties of all streams\<close>

definition all_streams :: "(nat \<Rightarrow> http2_stream \<Rightarrow> bool) \<Rightarrow> http2_conn \<Rightarrow> bool" where
  "all_streams P conn \<longleftrightarrow> (\<forall>i < length (streams conn). pred_option (P i) (streams conn ! i))"

lemma all_streamsD: "all_streams P conn \<Longrightarrow> i < length (streams conn) \<Longrightarrow> streams conn ! i = Some s \<Longrightarrow> P i s"
  by (auto simp: all_streams_def)

lemma all_streams_other [simp]:
  "all_streams P (conn\<lparr>num_streams := n\<rparr>) = all_streams P conn"
  "all_streams P (conn\<lparr>active_streams_count := c\<rparr>) = all_streams P conn"
  "all_streams P (conn\<lparr>h2_metrics := m\<rparr>) = all_streams P conn"
  "all_streams P (count_request conn) = all_streams P conn"
  by (simp_all add: all_streams_def count_request_def)

lemma all_streams_put:
  "all_streams P conn \<Longrightarrow> pred_option (P i) s \<Longrightarrow> all_streams P (conn\<lparr>streams := (streams conn)[i := s]\<rparr>)"
proof -
  assume "all_streams P conn" "pred_option (P i) s"
  then have "pred_option (P j) ((streams conn)[i := s] ! j)" if "j < length (streams conn)" for j
    using that by (cases "i = j") (simp_all add: all_streams_def)
  then show ?thesis by (simp add: all_streams_def)
qed

lemma all_streams_upd:
  assumes "all_streams P conn" "nat sid < length (streams conn)" "\<And>s. P (nat sid) s \<Longrightarrow> P (nat sid) (f s)"
  shows "all_streams P (upd_stream sid f conn)"
  unfolding upd_stream_def using assms
  by (intro all_streams_put) (auto simp: all_streams_def pred_option_def elim!: allE [of _ "nat sid"])

lemma get_stream_length:
  "http2_get_stream al sid conn = (True, conn') \<Longrightarrow> 0 \<le> sid \<and> nat sid < length (streams conn')"
  by (auto simp: http2_get_stream_def Let_def split: if_splits option.splits)

locale callbacks_keep =
  fixes P :: "nat \<Rightarrow> http2_stream \<Rightarrow> bool"
  assumes new: "0 \<le> sid \<Longrightarrow> P (nat sid) (new_stream sid)"
    and reset: "P i s \<Longrightarrow> P i (reset_stream s)"
    and pseudo: "P i s \<Longrightarrow> P i (s\<lparr>s_method := x\<rparr>)" "P i s \<Longrightarrow> P i (s\<lparr>s_path := x\<rparr>)" "P i s \<Longrightarrow> P i (s\<lparr>s_authority := x\<rparr>)"
    and regular: "P i s \<Longrightarrow> P i (append_header name val s)"
    and lost: "P i s \<Longrightarrow> P i (s\<lparr>request_buf_size := n, request_buf := []\<rparr>)"
    and grown: "P i s \<Longrightarrow> P i (grow_body n s)" "P i s \<Longrightarrow> P i (lose_body n s)"
    and data: "P i s \<Longrightarrow> P i ((grow_body (length d) s)\<lparr>s_body := s_body s @ d\<rparr>)"
    and complete: "P i s \<Longrightarrow> P i (s\<lparr>request_complete := True\<rparr>)"
begin

lemma get_stream: "all_streams P conn \<Longrightarrow> all_streams P (snd (http2_get_stream al sid conn))"
proof -
  assume a: "all_streams P conn"
  let ?c = "conn\<lparr>streams := streams conn @ replicate (nat sid + 1 - length (streams conn)) None\<rparr>"
  have "all_streams P ?c" using a by (auto simp: all_streams_def nth_append)
  moreover from all_streams_put [OF this, of "nat sid" "Some (new_stream sid)"] new
  have "0 \<le> sid \<Longrightarrow> all_streams P (?c\<lparr>streams := (streams ?c)[nat sid := Some (new_stream sid)]\<rparr>)" by simp
  ultimately show ?thesis
    using a by (auto simp: http2_get_stream_def Let_def split: option.split)
qed

lemma complete_request:
  "all_streams P conn \<Longrightarrow> nat sid < length (streams conn) \<Longrightarrow> all_streams P (complete_request sid conn)"
  unfolding complete_request_def by (simp add: all_streams_upd complete)

lemma callback: "all_streams P conn \<Longrightarrow> all_streams P (snd (h2_callback al ev conn))"
proof (cases "fst (http2_get_stream al (case ev of Begin_headers sid \<Rightarrow> sid | Header sid _ _ \<Rightarrow> sid
      | Data_chunk sid _ _ \<Rightarrow> sid | Frame_recv sid _ _ _ _ \<Rightarrow> sid) conn)")
  case False
  assume a: "all_streams P conn"
  define sid where "sid = (case ev of Begin_headers sid \<Rightarrow> sid | Header sid _ _ \<Rightarrow> sid
      | Data_chunk sid _ _ \<Rightarrow> sid | Frame_recv sid _ _ _ _ \<Rightarrow> sid)"
  from False obtain c where c: "http2_get_stream al sid conn = (False, c)" by (cases "http2_get_stream al sid conn") (auto simp: sid_def)
  from get_stream [OF a, of al sid] c have ok: "all_streams P c" by simp
  show ?thesis
  proof (cases ev)
    case (Frame_recv x type es eh n)
    with c ok a show ?thesis by (cases type) (simp_all add: on_frame_recv_callback_def sid_def)
  qed (use c ok in \<open>simp_all add: sid_def on_begin_headers_callback_def on_header_callback_def on_data_chunk_recv_callback_def\<close>)
next
  case True
  assume a: "all_streams P conn"
  define sid where "sid = (case ev of Begin_headers sid \<Rightarrow> sid | Header sid _ _ \<Rightarrow> sid
      | Data_chunk sid _ _ \<Rightarrow> sid | Frame_recv sid _ _ _ _ \<Rightarrow> sid)"
  from True obtain c where c: "http2_get_stream al sid conn = (True, c)" by (cases "http2_get_stream al sid conn") (auto simp: sid_def)
  from get_stream [OF a, of al sid] c have ok: "all_streams P c" by simp
  have len: "nat sid < length (streams c)" using get_stream_length [OF c] by simp
  note upd = all_streams_upd [OF ok len]
  have len': "nat sid < length (streams (upd_stream sid f c))" for f using len by (simp add: upd_stream_def)
  show ?thesis
  proof (cases ev)
    case (Begin_headers x)
    with c upd [OF reset] show ?thesis by (simp add: on_begin_headers_callback_def sid_def)
  next
    case (Header x name val)
    with c ok upd [OF pseudo(1)] upd [OF pseudo(2)] upd [OF pseudo(3)] upd [OF regular] upd [OF lost] show ?thesis
      by (simp add: on_header_callback_def sid_def Let_def)
  next
    case (Data_chunk x eof d)
    with c upd [OF grown(2)] upd [OF data] complete_request [OF upd [OF data] len'] show ?thesis
      by (simp add: on_data_chunk_recv_callback_def sid_def Let_def)
  next
    case (Frame_recv x type es eh n)
    with c ok upd [OF grown(1)] upd [OF grown(2)] complete_request [OF ok len]
      complete_request [OF upd [OF grown(1)] len'] show ?thesis
      by (cases type) (simp_all add: on_frame_recv_callback_def sid_def Let_def)
  qed
qed

lemma callbacks: "all_streams P conn \<Longrightarrow> all_streams P (snd (h2_callbacks evs conn))"
proof (induction evs conn rule: h2_callbacks.induct)
  case (2 al ev evs conn)
  from callback [OF "2.prems", of al ev] "2.IH" show ?case
    by (auto split: prod.splits bool.splits)
qed simp

lemma process_input:
  "all_streams P conn \<Longrightarrow> http2_process_input evs recv_ok len conn = (r, conn') \<Longrightarrow> all_streams P conn'"
  using callbacks [of conn evs] by (auto simp: http2_process_input_def split: prod.splits if_splits)

end

text \<open>One pass over the streams makes at most one upstream step for each of them.\<close>

definition passed_to :: "nat \<Rightarrow> (nat \<Rightarrow> http2_stream \<Rightarrow> bool) \<Rightarrow> (nat \<Rightarrow> http2_stream \<Rightarrow> bool) \<Rightarrow> http2_conn \<Rightarrow> bool" where
  \<comment> \<open>\<^verbatim>\<open>Q\<close> holds below an index, \<^verbatim>\<open>P\<close> from there on\<close>
  "passed_to i Q P = all_streams (\<lambda>j. if j < i then Q j else P j)"

lemma passed_to_0: "passed_to 0 Q P conn = all_streams P conn"
  by (simp add: passed_to_def)

lemma passed_to_mono: "(\<And>j s. P j s \<Longrightarrow> Q j s) \<Longrightarrow> passed_to i Q P conn \<Longrightarrow> all_streams Q conn"
  by (fastforce simp: passed_to_def all_streams_def pred_option_def split: if_splits)

lemma passed_to_skip:
  "passed_to i Q P conn \<Longrightarrow> (\<And>j s. P j s \<Longrightarrow> Q j s) \<Longrightarrow> passed_to (Suc i) Q P conn"
  by (fastforce simp: passed_to_def all_streams_def pred_option_def less_Suc_eq split: if_splits)

lemma passed_to_step:
  assumes "passed_to i Q P conn" "Q i s"
  shows "passed_to (Suc i) Q P (conn\<lparr>streams := (streams conn)[i := Some s]\<rparr>)"
  unfolding passed_to_def all_streams_def
proof (intro allI impI)
  fix j assume "j < length (streams (conn\<lparr>streams := (streams conn)[i := Some s]\<rparr>))"
  with assms show "pred_option (if j < Suc i then Q j else P j) (streams (conn\<lparr>streams := (streams conn)[i := Some s]\<rparr>) ! j)"
    by (cases "j = i") (auto simp: passed_to_def all_streams_def less_Suc_eq)
qed

lemma process_streams_step:
  assumes "process_streams (env # envs) i conn = Some (conn', out)"
  obtains (over) "conn' = conn"
    | (skip) "process_streams envs (Suc i) conn = Some (conn', out)"
    | (run) s r s' o1 d o2 where "i < length (streams conn)" "streams conn ! i = Some s"
        "http2_process_stream env s = Some (r, s', o1)"
        "d = conn\<lparr>streams := (streams conn)[i := Some s']\<rparr> \<or>
         d = conn\<lparr>streams := (streams conn)[i := Some s'], active_streams_count := active_streams_count conn - 1\<rparr>"
        "process_streams envs (Suc i) d = Some (conn', o2)"
proof (cases "streams conn ! i")
  case None
  with assms over skip show thesis by (auto split: if_splits)
next
  case (Some s)
  with assms over skip run [OF _ Some] show thesis
    by (auto simp: Let_def split: if_splits option.splits) blast+
qed

lemma process_pass:
  assumes step: "\<And>i s env r s' out. P i s \<Longrightarrow> http2_process_stream env s = Some (r, s', out) \<Longrightarrow> Q i s'"
    and mono: "\<And>i s. P i s \<Longrightarrow> Q i s"
  shows "passed_to i Q P conn \<Longrightarrow> process_streams envs i conn = Some (conn', out) \<Longrightarrow> all_streams Q conn'"
proof (induction envs arbitrary: i conn out)
  case (Cons env envs)
  from Cons.prems(2) show ?case
  proof (cases rule: process_streams_step)
    case over
    with passed_to_mono [OF mono Cons.prems(1)] show ?thesis by simp
  next
    case skip
    from Cons.IH [OF passed_to_skip [OF Cons.prems(1) mono] skip] show ?thesis .
  next
    case (run s r s' o1 d o2)
    have "P i s" using Cons.prems(1) run(1,2) by (auto simp: passed_to_def all_streams_def)
    from passed_to_step [OF Cons.prems(1) step [OF this run(3)]] run(4) have "passed_to (Suc i) Q P d"
      by (auto simp: passed_to_def all_streams_def)
    from Cons.IH [OF this run(5)] show ?thesis .
  qed
qed (use passed_to_mono [of P Q] mono in auto)

fun is_block :: "client_read \<Rightarrow> bool" where
  "is_block (Client_block _ _ _) \<longleftrightarrow> True"
| "is_block _ \<longleftrightarrow> False"

text \<open>One turn of the loop: the input, one pass over the streams, and the rest of the turns.\<close>

lemma loop_turn:
  assumes "http2_loop (t # ts) conn = Some (conn', out)"
  obtains (over) "conn' = conn"
    | (again) "client_read t = Client_again" "http2_loop ts conn = Some (conn', out)"
    | (input) evs recv_ok len r where "client_read t = Client_block evs recv_ok len"
        "http2_process_input evs recv_ok len conn = (r, conn')"
    | (pass) evs recv_ok len c d o1 where "client_read t = Client_block evs recv_ok len"
        "http2_process_input evs recv_ok len conn = (0, c)"
        "process_streams (stream_envs t) 0 c = Some (d, o1) \<or> d = c"
        "conn' = d \<or> (\<exists>o2. http2_loop ts d = Some (conn', o2))"
proof (cases "client_read t")
  case (Client_block evs recv_ok len)
  obtain r c where c: "http2_process_input evs recv_ok len conn = (r, c)" by fastforce
  show thesis
  proof (cases "r = 0")
    case True
    with assms Client_block c obtain d o1 where
      d: "(if active_streams_count c > 0 then process_streams (stream_envs t) 0 c else Some (c, [])) = Some (d, o1)"
      by (auto split: option.splits if_splits)
    moreover from assms Client_block c True d have "conn' = d \<or> (\<exists>o2. http2_loop ts d = Some (conn', o2))"
      by (auto simp: Let_def split: option.splits prod.splits if_splits)
    ultimately show thesis using pass [OF Client_block, of c d o1] c True by (auto split: if_splits)
  next
    case False
    with assms Client_block c input show thesis by auto
  qed
qed (use assms over again in auto)

locale conn_keeps = callbacks_keep +
  assumes process: "P i s \<Longrightarrow> http2_process_stream env s = Some (r, s', out) \<Longrightarrow> P i s'"
begin

lemma process_all:
  "all_streams P conn \<Longrightarrow> process_streams envs 0 conn = Some (conn', out) \<Longrightarrow> all_streams P conn'"
  using process_pass [of P P 0 conn envs conn' out] process by (simp add: passed_to_0)

lemma loop: "all_streams P conn \<Longrightarrow> http2_loop ts conn = Some (conn', out) \<Longrightarrow> all_streams P conn'"
proof (induction ts arbitrary: conn out)
  case (Cons t ts)
  from Cons.prems(2) show ?case
  proof (cases rule: loop_turn)
    case (pass evs recv_ok len c d o1)
    have "all_streams P d" using process_input [OF Cons.prems(1) pass(2)] pass(3) process_all by blast
    with pass(4) Cons.IH show ?thesis by blast
  qed (use Cons process_input in blast)+
qed simp

end

end
