(* ===== verification/Http2_Props.thy ===== *)
theory Http2_Props
  imports Http2_Laws
begin

text \<open>The properties of the HTTP/2 side.\<close>

section \<open>What every stream keeps\<close>

fun sent_within :: "string option \<Rightarrow> nat \<Rightarrow> bool" where
  "sent_within None n \<longleftrightarrow> n = 0"
| "sent_within (Some r) n \<longleftrightarrow> n \<le> length r"

definition upstream_ready :: "http2_stream \<Rightarrow> bool" where
  \<comment> \<open>before the response is read the request is not wholly sent; then there is a TLS object to read from\<close>
  "upstream_ready s \<longleftrightarrow>
     (upstream_state s = HTTP2_UPSTREAM_STATE_READING_RESPONSE \<longrightarrow> upstream_ssl s) \<and>
     (upstream_state s \<notin> {HTTP2_UPSTREAM_STATE_READING_RESPONSE, HTTP2_UPSTREAM_STATE_DONE} \<longrightarrow>
        pred_option (\<lambda>r. upstream_request_sent s < length r) (upstream_request s))"

definition stream_fits :: "nat \<Rightarrow> http2_stream \<Rightarrow> bool" where
  \<comment> \<open>the stream stands at its own index, its buffers hold their bytes, no more of the request than it
      has was sent, and a finished response is in the last state\<close>
  "stream_fits i s \<longleftrightarrow>
     stream_id s = int i \<and> length (request_buf s) \<le> request_buf_size s \<and> length (s_body s) \<le> body_size s \<and>
     length (upstream_response s) \<le> upstream_response_size s \<and>
     sent_within (upstream_request s) (upstream_request_sent s) \<and>
     (response_complete s \<longrightarrow> upstream_state s = HTTP2_UPSTREAM_STATE_DONE) \<and>
     upstream_ready s"

lemma upstream_ready_frame [simp]:
  "upstream_ready (s\<lparr>upstream_response := x\<rparr>) = upstream_ready s"
  "upstream_ready (s\<lparr>upstream_response_size := n\<rparr>) = upstream_ready s"
  "upstream_ready (s\<lparr>upstream_headers_complete := b\<rparr>) = upstream_ready s"
  "upstream_ready (s\<lparr>upstream_status_code := i\<rparr>) = upstream_ready s"
  "upstream_ready (s\<lparr>upstream_fd := b\<rparr>) = upstream_ready s"
  "upstream_ready (s\<lparr>request_buf := x\<rparr>) = upstream_ready s" "upstream_ready (s\<lparr>request_buf_size := n\<rparr>) = upstream_ready s"
  "upstream_ready (s\<lparr>s_headers := x\<rparr>) = upstream_ready s" "upstream_ready (s\<lparr>s_body := x\<rparr>) = upstream_ready s"
  "upstream_ready (s\<lparr>body_size := n\<rparr>) = upstream_ready s"
  "upstream_ready (s\<lparr>s_method := y\<rparr>) = upstream_ready s" "upstream_ready (s\<lparr>s_path := y\<rparr>) = upstream_ready s"
  "upstream_ready (s\<lparr>s_authority := y\<rparr>) = upstream_ready s"
  "upstream_ready (s\<lparr>request_complete := b\<rparr>) = upstream_ready s"
  "upstream_ready (s\<lparr>response_complete := b\<rparr>) = upstream_ready s"
  by (simp_all add: upstream_ready_def)

lemmas fits_defs = stream_fits_def upstream_ready_def

lemma write_upstream_stop:
  "length req \<le> upstream_request_sent s \<Longrightarrow>
     write_upstream ws req s = (0, s\<lparr>upstream_state := HTTP2_UPSTREAM_STATE_READING_RESPONSE\<rparr>, [])"
  "upstream_request_sent s < length req \<Longrightarrow> write_upstream [] req s = (0, s, [])"
  "upstream_request_sent s < length req \<Longrightarrow> write_upstream (Up_write_again # ws) req s = (0, s, [])"
  "upstream_request_sent s < length req \<Longrightarrow> write_upstream (Up_write_failed # ws) req s = (-1, s, [])"
  by (subst write_upstream.simps, simp)+

text \<open>The write loop changes the progress and, once all is sent, the state.\<close>

lemma write_upstream_result:
  "write_upstream ws req s = (r, s', out) \<Longrightarrow> upstream_request_sent s \<le> length req \<Longrightarrow>
     \<exists>k st. s' = s\<lparr>upstream_state := st, upstream_request_sent := k\<rparr> \<and> k \<le> length req \<and>
       (st = HTTP2_UPSTREAM_STATE_READING_RESPONSE \<or> st = upstream_state s \<and> k < length req)"
proof (induction ws req s arbitrary: r s' out rule: write_upstream.induct)
  case (1 ws req s)
  let ?n = "\<lambda>n. min n (length req - upstream_request_sent s)"
  show ?case
  proof (cases "\<exists>n ws'. ws = Up_wrote n # ws' \<and> upstream_request_sent s < length req")
    case True
    then obtain n ws' where w: "ws = Up_wrote n # ws'" "upstream_request_sent s < length req" by blast
    obtain o2 where o2: "write_upstream ws' req (s\<lparr>upstream_request_sent := upstream_request_sent s + ?n n\<rparr>) = (r, s', o2)"
      using "1.prems"(1) w by (subst (asm) write_upstream.simps) (auto simp: Let_def split: prod.splits)
    have "upstream_request_sent s + ?n n \<le> length req" using w(2) by linarith
    with "1.IH" [OF _ w(1) refl refl refl o2] w(2) obtain k st where
      "s' = s\<lparr>upstream_state := st, upstream_request_sent := k\<rparr>" "k \<le> length req"
      "st = HTTP2_UPSTREAM_STATE_READING_RESPONSE \<or> st = upstream_state s \<and> k < length req" by auto
    then show ?thesis by blast
  next
    case False
    have "s' = s \<and> upstream_request_sent s < length req \<or>
        s' = s\<lparr>upstream_state := HTTP2_UPSTREAM_STATE_READING_RESPONSE\<rparr>"
    proof (cases "upstream_request_sent s < length req")
      case True
      with False consider "ws = []" | ws' where "ws = Up_write_again # ws'" | ws' where "ws = Up_write_failed # ws'"
        by (metis list.exhaust up_write.exhaust)
      then show ?thesis using True "1.prems"(1) by cases (simp_all add: write_upstream_stop)
    next
      case False
      with "1.prems"(1) show ?thesis by (simp add: write_upstream_stop)
    qed
    then show ?thesis
    proof
      assume "s' = s \<and> upstream_request_sent s < length req"
      then show ?thesis by (intro exI [of _ "upstream_request_sent s"] exI [of _ "upstream_state s"]) simp
    next
      assume "s' = s\<lparr>upstream_state := HTTP2_UPSTREAM_STATE_READING_RESPONSE\<rparr>"
      with "1.prems"(2) show ?thesis
        by (intro exI [of _ "upstream_request_sent s"] exI [of _ HTTP2_UPSTREAM_STATE_READING_RESPONSE]) simp
    qed
  qed
qed

lemma write_request_result:
  assumes "write_request env req s = Some (r, s', out)" "upstream_request_sent s \<le> length req"
  shows "\<exists>k st. s' = s\<lparr>upstream_state := st, upstream_request_sent := k\<rparr> \<and> k \<le> length req \<and>
    (upstream_request_sent s < length req \<longrightarrow> upstream_ssl s) \<and>
    (st = HTTP2_UPSTREAM_STATE_READING_RESPONSE \<or> st = upstream_state s \<and> k < length req)"
proof -
  from assms(1) have w: "write_upstream (up_writes env) req s = (r, s', out)"
    "upstream_request_sent s < length req \<longrightarrow> upstream_ssl s"
    by (auto simp: write_request_def split: if_splits)
  from write_upstream_result [OF w(1) assms(2)] w(2) show ?thesis by blast
qed

lemma send_request_result:
  assumes "send_request env s = Some (r, s', out)"
  obtains "s' = s"
    | req where "upstream_request s = None" "0 < length req"
        "write_request env req (s\<lparr>upstream_request := Some req\<rparr>) = Some (r, s', out)"
    | req where "upstream_request s = Some req" "write_request env req s = Some (r, s', out)"
proof (cases "upstream_request s")
  case None
  have "0 < length req" if "build_request s = Some req" for req
    using that by (auto simp: build_request_def split: Option.bind_splits)
  with None assms that(1,2) show thesis by (auto simp: send_request_def split: option.splits if_splits)
next
  case (Some req)
  with assms that(3) show thesis by (simp add: send_request_def)
qed

lemma upstream_fits:
  assumes "stream_fits i s" "\<not> response_complete s"
  shows "upstream_state s \<in> {HTTP2_UPSTREAM_STATE_INIT, HTTP2_UPSTREAM_STATE_CONNECTING} \<Longrightarrow>
      stream_fits i (snd (check_connected env s)) \<and> stream_fits i (snd (open_upstream env s))"
    and "send_request env s = Some (r, s', out) \<Longrightarrow> upstream_state s = HTTP2_UPSTREAM_STATE_SENDING_REQUEST \<Longrightarrow>
      stream_fits i s'"
    and "read_bytes env b s = (r, s', out) \<Longrightarrow> stream_fits i s'"
    and "response_closed env s = (r, s', out) \<Longrightarrow> stream_fits i s'"
proof -
  show "stream_fits i (snd (check_connected env s)) \<and> stream_fits i (snd (open_upstream env s))"
    if "upstream_state s \<in> {HTTP2_UPSTREAM_STATE_INIT, HTTP2_UPSTREAM_STATE_CONNECTING}"
  proof -
    have fd: "stream_fits i (u\<lparr>upstream_fd := a\<rparr>) = stream_fits i u" for u a by (simp add: fits_defs)
    have ssl: "stream_fits i (u\<lparr>upstream_ssl := a\<rparr>) = stream_fits i u"
      if "upstream_state u \<noteq> HTTP2_UPSTREAM_STATE_READING_RESPONSE" for u a
      using that by (simp add: fits_defs)
    have st: "stream_fits i (u\<lparr>upstream_state := x\<rparr>)"
      if "stream_fits i u" "\<not> response_complete u"
        "upstream_state u \<notin> {HTTP2_UPSTREAM_STATE_READING_RESPONSE, HTTP2_UPSTREAM_STATE_DONE}"
        "x \<noteq> HTTP2_UPSTREAM_STATE_READING_RESPONSE" for u x
      using that by (simp add: fits_defs)
    have c: "stream_fits i (snd (check_connected env u))" if "stream_fits i u" "\<not> response_complete u"
      "upstream_state u \<notin> {HTTP2_UPSTREAM_STATE_READING_RESPONSE, HTTP2_UPSTREAM_STATE_DONE}" for u
      using that st [of u] by (simp add: check_connected_def drop_upstream_def fd ssl)
    from that have n: "upstream_state s \<notin> {HTTP2_UPSTREAM_STATE_READING_RESPONSE, HTTP2_UPSTREAM_STATE_DONE}" by auto
    have "stream_fits i (snd (open_upstream env s))"
      using assms n st [of "s\<lparr>upstream_fd := True, upstream_ssl := True\<rparr>"]
        c [of "s\<lparr>upstream_fd := True, upstream_ssl := True, upstream_state := HTTP2_UPSTREAM_STATE_SENDING_REQUEST\<rparr>"]
      by (auto simp: open_upstream_def drop_upstream_def Let_def fd ssl split: connect_result.split)
    with c [OF assms n] show ?thesis by simp
  qed
  show "stream_fits i s'" if "send_request env s = Some (r, s', out)"
    "upstream_state s = HTTP2_UPSTREAM_STATE_SENDING_REQUEST"
  proof -
    from that(1) show ?thesis
    proof (cases rule: send_request_result)
      case 1
      with assms(1) show ?thesis by simp
    next
      case (2 req)
      with assms(1) have "upstream_request_sent s = 0" by (simp add: stream_fits_def)
      with write_request_result [OF 2(3)] 2(1,2) assms that(2) show ?thesis by (auto simp: fits_defs)
    next
      case (3 req)
      with assms(1) have "upstream_request_sent s \<le> length req" "upstream_request_sent s < length req"
        using that(2) by (auto simp: fits_defs)
      with write_request_result [OF 3(2)] 3(1) assms that(2) show ?thesis by (auto simp: fits_defs)
    qed
  qed
  show "stream_fits i s'" if "read_bytes env b s = (r, s', out)"
    using that assms
    by (auto simp: read_bytes_def head_received_def stream_fits_def Let_def
        split: if_splits option.splits prod.splits)
  show "stream_fits i s'" if "response_closed env s = (r, s', out)"
  proof -
    from that have "s' = s \<or> s' = s\<lparr>response_complete := True, upstream_state := HTTP2_UPSTREAM_STATE_DONE\<rparr>"
      unfolding response_closed_def Let_def by (simp split: if_splits prod.splits)
    with assms show ?thesis by (auto simp: fits_defs)
  qed
qed

lemma process_stream_fits:
  assumes "stream_fits i s" "http2_process_stream env s = Some (r, s', out)"
  shows "stream_fits i s'"
proof (cases "response_complete s")
  case False
  note u = upstream_fits [OF assms(1) False, where env = env]
  have "stream_fits i ((drop_upstream s)\<lparr>upstream_request := None, upstream_request_sent := 0\<rparr>)"
    if "upstream_state s = HTTP2_UPSTREAM_STATE_DONE"
    using assms(1) that by (simp add: fits_defs drop_upstream_def)
  with assms False u show ?thesis
    by (auto simp: http2_process_stream_def split: if_splits http2_upstream_state.splits prod.splits up_read.splits)
qed (use assms in \<open>auto simp: http2_process_stream_def split: if_splits\<close>)

interpretation fitting: conn_keeps stream_fits
proof
  show "stream_fits i s \<Longrightarrow> http2_process_stream env s = Some (r, s', out) \<Longrightarrow> stream_fits i s'" for i s env r s' out
    by (rule process_stream_fits)
qed (auto simp: fits_defs new_stream_def reset_stream_def append_header_def grow_body_def lose_body_def Let_def)

lemma send_request_keeps:
  "send_request env s = Some (r, s', out) \<Longrightarrow> s_headers s' = s_headers s \<and>
     (upstream_state s' = upstream_state s \<or> upstream_state s' = HTTP2_UPSTREAM_STATE_READING_RESPONSE)"
proof -
  have "s_headers u' = s_headers u \<and>
      (upstream_state u' = upstream_state u \<or> upstream_state u' = HTTP2_UPSTREAM_STATE_READING_RESPONSE)"
    if "write_upstream ws req u = (q, u', o1)" for ws req u q u' o1
    using that
  proof (induction ws req u arbitrary: q u' o1 rule: write_upstream.induct)
    case (1 ws req u)
    from "1.prems" show ?case
      by (subst (asm) write_upstream.simps)
        (fastforce simp: Let_def split: if_splits list.splits up_write.splits prod.splits dest: "1.IH" [OF _ _ _ refl refl])
  qed
  then show "send_request env s = Some (r, s', out) \<Longrightarrow> ?thesis"
    by (fastforce simp: send_request_def write_request_def split: option.splits if_splits)
qed

lemma process_keeps_headers:
  assumes "http2_process_stream env s = Some (r, s', out)"
  shows "s_headers s' = s_headers s"
proof -
  have "s_headers (snd (check_connected env u)) = s_headers u" for u
    by (simp add: check_connected_def drop_upstream_def)
  then have o: "s_headers (snd (open_upstream env s)) = s_headers s" "s_headers (snd (check_connected env s)) = s_headers s"
    by (auto simp: open_upstream_def drop_upstream_def Let_def split: connect_result.split)
  have b: "s_headers u' = s_headers u" if "read_bytes env b u = (q, u', o1)" for b u q u' o1
    using that by (auto simp: read_bytes_def head_received_def Let_def split: if_splits option.splits prod.splits)
  have c: "s_headers u' = s_headers u" if "response_closed env u = (q, u', o1)" for u q u' o1
    using that by (auto simp: response_closed_def Let_def split: if_splits prod.splits)
  show ?thesis
    using assms o send_request_keeps b c
    by (auto simp: http2_process_stream_def drop_upstream_def
        split: if_splits http2_upstream_state.splits prod.splits up_read.splits)
qed

interpretation no_headers: conn_keeps "\<lambda>_ s. s_headers s = []"
  by unfold_locales
    (auto simp: new_stream_def reset_stream_def append_header_def grow_body_def lose_body_def Let_def
      dest: process_keeps_headers)

section \<open>A concrete connection\<close>

definition all_ok :: allocs where
  "all_ok = \<lparr>array_ok = True, stream_ok = True, buffer_ok = True\<rparr>"

definition demo_turn :: h2_turn where
  \<comment> \<open>a request of two headers and a one-frame body on stream 1\<close>
  "demo_turn =
     \<lparr>client_read = Client_block
        (map (Pair all_ok)
          [Begin_headers 1, Header 1 '':method'' ''PUT'', Header 1 '':path'' ''/'', Header 1 '':authority'' ''a'',
           Header 1 ''cookie'' ''c'', Frame_recv 1 NGHTTP2_HEADERS False True 9]) True 20,
      stream_envs = [], block_writes = [], blocks = []\<rparr>"

lemma demo_loop:
  "\<exists>conn out s. http2_loop [demo_turn] (http2_conn_init metrics_init) = Some (conn, out) \<and> 1 < length (streams conn) \<and>
     streams conn ! 1 = Some s \<and> s_method s = Some ''PUT'' \<and> s_path s = Some ''/'' \<and> s_authority s = Some ''a'' \<and>
     request_buf s = ''cookie: c'' @ CRLF \<and> s_body s = []"
proof -
  have "case http2_loop [demo_turn] (http2_conn_init metrics_init) of
      None \<Rightarrow> False
    | Some (conn, out) \<Rightarrow> 1 < length (streams conn) \<and>
        (case streams conn ! 1 of
           None \<Rightarrow> False
         | Some s \<Rightarrow> s_method s = Some ''PUT'' \<and> s_path s = Some ''/'' \<and> s_authority s = Some ''a'' \<and>
             request_buf s = ''cookie: c'' @ CRLF \<and> s_body s = [])" by code_simp
  then show ?thesis by (auto split: option.splits)
qed

section \<open>Properties\<close>



text \<open>
  The headers of the client are not forwarded. A stream of any connection the loop reaches builds
  its HTTP/1.1 request from the pseudo-headers and the body alone: the other headers, which
  \<^verbatim>\<open>on_header_callback\<close> collects in \<^verbatim>\<open>request_buf\<close>, are not in it.
\<close>
theorem http2_drops_headers:
  assumes "http2_loop ts (http2_conn_init m) = Some (conn, out)" "i < length (streams conn)" "streams conn ! i = Some s"
    and "s_method s = Some meth" "s_path s = Some path" "s_authority s = Some auth"
  shows "build_request s = Some (meth @ '' '' @ path @ '' HTTP/1.1'' @ CRLF @ ''Host: '' @ auth @ CRLF @ CRLF @ s_body s)"
proof -
  have "all_streams (\<lambda>_ s. s_headers s = []) (http2_conn_init m)" by (simp add: all_streams_def http2_conn_init_def)
  from all_streamsD [OF no_headers.loop [OF this assms(1)] assms(2,3)] show ?thesis
    using assms(4-6) by (simp add: build_request_def)
qed

theorem http2_drops_headers_witness:
  "\<exists>conn out s. http2_loop [demo_turn] (http2_conn_init metrics_init) = Some (conn, out) \<and> streams conn ! 1 = Some s \<and>
     request_buf s = ''cookie: c'' @ CRLF \<and>
     build_request s = Some (''PUT / HTTP/1.1'' @ CRLF @ ''Host: a'' @ CRLF @ CRLF)"
proof -
  from demo_loop obtain conn out s where
    l: "http2_loop [demo_turn] (http2_conn_init metrics_init) = Some (conn, out)" "1 < length (streams conn)"
      "streams conn ! 1 = Some s" "s_method s = Some ''PUT''" "s_path s = Some ''/''" "s_authority s = Some ''a''"
      "request_buf s = ''cookie: c'' @ CRLF" "s_body s = []" by blast
  from http2_drops_headers [OF l(1-6)] l show ?thesis by auto
qed

fun every_other :: "'a list \<Rightarrow> 'a list" where
  "every_other [] = []"
| "every_other [x] = [x]"
| "every_other (x # y # zs) = x # every_other zs"

text \<open>
  Every second block of output is lost. When every write succeeds, \<^verbatim>\<open>http2_send_pending\<close> reports
  success, but the blocks that reach the client are the first, the third, the fifth and so on of those
  the library hands out: the call after each write discards the next one.
\<close>
theorem send_pending_loses_blocks:
  assumes "length bs \<le> length ws" "set ws \<subseteq> {Wrote}"
  shows "http2_send_pending ws bs = (0, every_other bs)"
  using assms
proof (induction bs arbitrary: ws rule: every_other.induct)
  case (2 x)
  then show ?case by (cases ws) auto
next
  case (3 x y zs)
  then obtain ws' where "ws = Wrote # ws'" by (cases ws) auto
  with 3 show ?case by auto
qed simp

theorem send_pending_loses_blocks_witness:
  "http2_send_pending [Wrote, Wrote, Wrote] [''a'', ''b'', ''c''] = (0, [''a'', ''c''])"
  using send_pending_loses_blocks [of "[''a'', ''b'', ''c'']" "[Wrote, Wrote, Wrote]"] by simp

definition counters :: "http2_conn \<Rightarrow> size_t \<times> u64 \<times> u64" where
  "counters conn =
     (active_streams_count conn, http2_requests_total (h2_metrics conn), requests_total (h2_metrics conn))"

lemma get_stream_counters: "http2_get_stream al sid conn = (b, c) \<Longrightarrow> counters c = counters conn"
  by (auto simp: http2_get_stream_def counters_def Let_def split: if_splits option.splits)

lemma upd_stream_counters [simp]: "counters (upd_stream sid f conn) = counters conn"
  by (simp add: counters_def upd_stream_def)

lemma complete_request_counters:
  "counters (complete_request sid conn) = (case counters conn of (a, h, r) \<Rightarrow> (a + 1, h + 1, r + 1))"
  by (simp add: counters_def complete_request_def count_request_def upd_stream_def metrics_increment_http2_requests_def)

lemma data_chunk_counters:
  "on_data_chunk_recv_callback al True sid d conn = (True, c) \<Longrightarrow>
     counters c = (case counters conn of (a, h, r) \<Rightarrow> (a + 1, h + 1, r + 1))"
  by (auto simp: on_data_chunk_recv_callback_def Let_def complete_request_counters split: prod.splits bool.splits if_splits
      dest: get_stream_counters)

lemma data_frame_counters:
  "on_frame_recv_callback al sid NGHTTP2_DATA True eh n conn = (True, c) \<Longrightarrow>
     counters c = (case counters conn of (a, h, r) \<Rightarrow> (a + 1, h + 1, r + 1))"
  by (auto simp: on_frame_recv_callback_def Let_def complete_request_counters split: prod.splits bool.splits if_splits
      dest: get_stream_counters)

text \<open>
  A request with a body is counted twice. The last frame of a body reaches two callbacks, the one
  for its bytes and the one for the frame, and both see the end of the stream: the number of active
  streams and both request counters grow by two for one request.
\<close>
theorem body_request_counted_twice:
  assumes "h2_callbacks [(al, Data_chunk sid True d), (al', Frame_recv sid NGHTTP2_DATA True eh (length d))] conn = (True, conn')"
  shows "active_streams_count conn' = active_streams_count conn + 2 \<and>
    http2_requests_total (h2_metrics conn') = http2_requests_total (h2_metrics conn) + 2 \<and>
    requests_total (h2_metrics conn') = requests_total (h2_metrics conn) + 2"
proof -
  from assms obtain c where c: "on_data_chunk_recv_callback al True sid d conn = (True, c)"
      "on_frame_recv_callback al' sid NGHTTP2_DATA True eh (length d) c = (True, conn')"
    by (auto split: prod.splits bool.splits)
  from data_chunk_counters [OF c(1)] data_frame_counters [OF c(2)] show ?thesis by (simp add: counters_def)
qed

theorem body_request_counted_twice_witness:
  "\<exists>conn'. h2_callbacks [(all_ok, Data_chunk 1 True ''x''), (all_ok, Frame_recv 1 NGHTTP2_DATA True False (length ''x''))]
     (http2_conn_init metrics_init) = (True, conn') \<and> active_streams_count conn' = 2"
proof -
  have "fst (h2_callbacks [(all_ok, Data_chunk 1 True ''x''), (all_ok, Frame_recv 1 NGHTTP2_DATA True False (length ''x''))]
     (http2_conn_init metrics_init))" by code_simp
  then obtain conn' where c: "h2_callbacks [(all_ok, Data_chunk 1 True ''x''),
      (all_ok, Frame_recv 1 NGHTTP2_DATA True False (length ''x''))] (http2_conn_init metrics_init) = (True, conn')"
    by (metis prod.collapse)
  from body_request_counted_twice [OF c] c show ?thesis by (simp add: http2_conn_init_def)
qed

text \<open>
  The body of a response is read from freed or uninitialised memory. Every data provider that the
  upstream side submits for the bytes of a response is one the library cannot read: its payload comes
  from \<^verbatim>\<open>malloc\<close> with \<^verbatim>\<open>offset\<close> never set.
\<close>
theorem response_body_unreadable:
  assumes "read_bytes env b s = (r, s', out)" "Submit_data sid fin p \<in> set out"
  shows "data_read_callback mem len p = None"
  using assms
  by (auto simp: read_bytes_def head_received_def malloc_payload_def data_read_callback_def Let_def
      split: if_splits option.splits prod.splits)

definition reading_stream :: http2_stream where
  "reading_stream = (new_stream 1)\<lparr>request_complete := True, upstream_ssl := True, upstream_state := HTTP2_UPSTREAM_STATE_READING_RESPONSE\<rparr>"

definition demo_upstream :: upstream_env where
  "demo_upstream =
     \<lparr>up_socket_ok = True, up_nonblock_ok = True, up_ssl_ok = True, up_resolve_ok = True, up_connect = Connect_ok,
      up_getsockopt_ok = True, up_so_error = False, up_request_ok = True, up_writes = [Up_wrote 100],
      up_read_buf_ok = True, up_read_result = Up_closed, up_buffer_ok = True, submit_response_ok = True,
      submit_head_data_ok = True, submit_data_ok = True, submit_end_ok = True, pending_writes = [], pending_blocks = []\<rparr>"

theorem response_body_unreadable_witness:
  "\<exists>r s' out p. read_bytes demo_upstream (''HTTP/1.1 200 OK'' @ CRLF @ ''A: b'' @ CRLF @ CRLF @ ''hi'') reading_stream = (r, s', out) \<and>
     Submit_data 1 False p \<in> set out \<and> data_read_callback [] 10 p = None"
proof -
  let ?x = "read_bytes demo_upstream (''HTTP/1.1 200 OK'' @ CRLF @ ''A: b'' @ CRLF @ CRLF @ ''hi'') reading_stream"
  have "snd (snd ?x) ! 1 = Submit_data 1 False (malloc_payload (Response_buf 25) 2) \<and> 1 < length (snd (snd ?x))" by code_simp
  then have m: "Submit_data 1 False (malloc_payload (Response_buf 25) 2) \<in> set (snd (snd ?x))" by (metis nth_mem)
  obtain r s' out where x: "?x = (r, s', out)" by (metis prod_cases3)
  with m have "Submit_data 1 False (malloc_payload (Response_buf 25) 2) \<in> set out" by simp
  from response_body_unreadable [OF x this] this x show ?thesis by blast
qed

section \<open>Two ways to leave defined behaviour\<close>

text \<open>
  A connection that is refused at once is written to. When \<^verbatim>\<open>connect\<close> returns without \<^verbatim>\<open>EINPROGRESS\<close> but the
  socket holds an error, the TLS object is freed and the state stays \<^verbatim>\<open>SENDING_REQUEST\<close>; the next step of
  the stream passes the NULL object to \<^verbatim>\<open>SSL_write\<close>.
\<close>
theorem refused_connection_writes_null:
  assumes "request_complete s" "\<not> response_complete s" "upstream_state s = HTTP2_UPSTREAM_STATE_INIT"
    and "upstream_request s = None" "upstream_request_sent s = 0" "s_method s = Some meth" "s_path s = Some path" "s_authority s = Some auth"
    and "up_socket_ok env" "up_nonblock_ok env" "up_ssl_ok env" "up_resolve_ok env" "up_connect env = Connect_ok"
      "up_getsockopt_ok env" "up_so_error env" "up_request_ok env'"
  shows "\<exists>s'. http2_process_stream env s = Some (-1, s', []) \<and> http2_process_stream env' s' = None"
  using assms
  by (simp add: http2_process_stream_def open_upstream_def check_connected_def drop_upstream_def send_request_def
      write_request_def build_request_def Let_def)

theorem refused_connection_writes_null_witness:
  "\<exists>s s'. http2_process_stream (demo_upstream\<lparr>up_so_error := True\<rparr>) s = Some (-1, s', []) \<and>
     http2_process_stream demo_upstream s' = None"
  using refused_connection_writes_null [of "(new_stream 1)\<lparr>request_complete := True, s_method := Some ''GET'',
      s_path := Some ''/'', s_authority := Some ''a''\<rparr>" "''GET''" "''/''" "''a''" "demo_upstream\<lparr>up_so_error := True\<rparr>"
      demo_upstream]
  by (auto simp: new_stream_def demo_upstream_def)

text \<open>
  Trailers erase the request. A second block of headers on a stream, as a client sends it after the
  body, resets the pseudo-headers the first one brought; building the request then takes the length
  of a NULL string.
\<close>
theorem trailers_erase_request:
  assumes "http2_get_stream al sid conn = (True, c)"
  shows "\<exists>c'. on_begin_headers_callback al sid conn = (True, c') \<and> build_request (get_stream_at sid c') = None"
proof -
  note i = get_stream_length [OF assms]
  have "streams c ! nat sid \<noteq> None"
    using assms by (auto simp: http2_get_stream_def Let_def split: if_splits option.splits)
  then obtain s where "streams c ! nat sid = Some s" by blast
  with i assms show ?thesis
    by (auto simp: on_begin_headers_callback_def get_stream_at_def upd_stream_def build_request_def reset_stream_def)
qed

theorem trailers_erase_request_witness:
  "\<exists>c. on_begin_headers_callback all_ok 1 (http2_conn_init metrics_init) = (True, c) \<and> build_request (get_stream_at 1 c) = None"
proof -
  have "fst (http2_get_stream all_ok 1 (http2_conn_init metrics_init))"
    by (simp add: http2_get_stream_def http2_conn_init_def all_ok_def)
  then obtain c where "http2_get_stream all_ok 1 (http2_conn_init metrics_init) = (True, c)"
    by (metis prod.exhaust_sel)
  from trailers_erase_request [OF this] show ?thesis .
qed

section \<open>How long a response takes\<close>

fun rank :: "http2_upstream_state \<Rightarrow> nat" where
  "rank HTTP2_UPSTREAM_STATE_INIT = 0"
| "rank HTTP2_UPSTREAM_STATE_CONNECTING = 0"
| "rank HTTP2_UPSTREAM_STATE_SENDING_REQUEST = 1"
| "rank HTTP2_UPSTREAM_STATE_READING_RESPONSE = 2"
| "rank HTTP2_UPSTREAM_STATE_DONE = 3"

lemma process_rank:
  assumes "http2_process_stream env s = Some (r, s', out)"
  shows "rank (upstream_state s') \<le> Suc (rank (upstream_state s))"
proof -
  have s: "rank (upstream_state u') \<le> Suc (Suc 0)" if "send_request env u = Some (q, u', o1)"
    "upstream_state u = HTTP2_UPSTREAM_STATE_SENDING_REQUEST" for u q u' o1
    using that by (auto dest!: send_request_keeps)
  have o: "rank (upstream_state (snd (open_upstream env u))) \<le> 1" "rank (upstream_state (snd (check_connected env u))) \<le> 1"
    if "upstream_state u = HTTP2_UPSTREAM_STATE_INIT \<or> upstream_state u = HTTP2_UPSTREAM_STATE_CONNECTING" for u
    using that by (auto simp: open_upstream_def check_connected_def drop_upstream_def Let_def split: connect_result.split)
  have b: "upstream_state u' = upstream_state u" if "read_bytes env b u = (q, u', o1)" for b u q u' o1
    using that by (auto simp: read_bytes_def head_received_def Let_def split: if_splits option.splits prod.splits)
  have x: "rank x \<le> 3" for x by (cases x) auto
  show ?thesis
    using assms s [of s] o [of s] x
    by (auto simp: http2_process_stream_def drop_upstream_def
        split: if_splits http2_upstream_state.splits prod.splits up_read.splits dest!: b)
qed

interpretation ranks: callbacks_keep "\<lambda>_ s. rank (upstream_state s) \<le> k" for k
  by unfold_locales
    (auto simp: new_stream_def reset_stream_def append_header_def grow_body_def lose_body_def Let_def)

lemma loop_rank:
  "all_streams (\<lambda>_ s. rank (upstream_state s) \<le> k) conn \<Longrightarrow> http2_loop ts conn = Some (conn', out) \<Longrightarrow>
     all_streams (\<lambda>_ s. rank (upstream_state s) \<le> k + length (filter (is_block \<circ> client_read) ts)) conn'"
proof (induction ts arbitrary: k conn out)
  case (Cons t ts)
  let ?n = "length (filter (is_block \<circ> client_read) ts)"
  have weaken: "all_streams (\<lambda>_ s. rank (upstream_state s) \<le> a) c \<Longrightarrow> a \<le> b \<Longrightarrow>
      all_streams (\<lambda>_ s. rank (upstream_state s) \<le> b) c" for a b c
    unfolding all_streams_def by (metis (mono_tags, lifting) le_trans option.pred_mono_strong)
  from Cons.prems(2) show ?case
  proof (cases rule: loop_turn)
    case over
    with Cons.prems(1) weaken show ?thesis by simp
  next
    case again
    with Cons show ?thesis by simp
  next
    case (input evs recv_ok len r)
    with ranks.process_input [OF Cons.prems(1) input(2)] weaken show ?thesis by simp
  next
    case (pass evs recv_ok len c d o1)
    note c = ranks.process_input [OF Cons.prems(1) pass(2)]
    have d: "all_streams (\<lambda>_ s. rank (upstream_state s) \<le> Suc k) d"
      using pass(3)
    proof
      assume "process_streams (stream_envs t) 0 c = Some (d, o1)"
      then show ?thesis
        using process_pass [of "\<lambda>_ s. rank (upstream_state s) \<le> k" "\<lambda>_ s. rank (upstream_state s) \<le> Suc k" 0 c] c
          process_rank by (fastforce simp: passed_to_0)
    qed (use c weaken in simp)
    from pass(1) have n: "k + length (filter (is_block \<circ> client_read) (t # ts)) = Suc k + ?n" by simp
    from pass(4) show ?thesis
    proof
      assume "conn' = d"
      with weaken [OF d] show ?thesis unfolding n by simp
    next
      assume "\<exists>o2. http2_loop ts d = Some (conn', o2)"
      with Cons.IH [OF d] show ?thesis unfolding n by blast
    qed
  qed
qed simp

text \<open>
  A response needs three blocks of input from the client. The upstream side of a stream makes at
  most one step after each block the client sends, and nothing drives it while the client is silent:
  a response is complete only after at least three blocks were read.
\<close>
theorem response_needs_client_input:
  assumes "http2_loop ts (http2_conn_init m) = Some (conn, out)" "i < length (streams conn)" "streams conn ! i = Some s"
    and "response_complete s"
  shows "3 \<le> length (filter (is_block \<circ> client_read) ts)"
proof -
  have "all_streams stream_fits (http2_conn_init m)" by (simp add: all_streams_def http2_conn_init_def)
  from all_streamsD [OF fitting.loop [OF this assms(1)] assms(2,3)] assms(4)
  have "upstream_state s = HTTP2_UPSTREAM_STATE_DONE" by (simp add: stream_fits_def)
  moreover have "all_streams (\<lambda>_ s. rank (upstream_state s) \<le> 0) (http2_conn_init m)"
    by (simp add: all_streams_def http2_conn_init_def)
  from all_streamsD [OF loop_rank [OF this assms(1)] assms(2,3)]
  have "rank (upstream_state s) \<le> length (filter (is_block \<circ> client_read) ts)" by simp
  ultimately show ?thesis by simp
qed

definition get_turn :: "(allocs \<times> h2_event) list \<Rightarrow> h2_turn" where
  "get_turn evs = \<lparr>client_read = Client_block evs True 9, stream_envs = [demo_upstream, demo_upstream], block_writes = [], blocks = []\<rparr>"

theorem response_needs_client_input_witness:
  "\<exists>ts conn out s. http2_loop ts (http2_conn_init metrics_init) = Some (conn, out) \<and> streams conn ! 1 = Some s \<and>
     response_complete s \<and> 3 \<le> length (filter (is_block \<circ> client_read) ts)"
proof -
  let ?ts = "[get_turn (map (Pair all_ok) [Begin_headers 1, Header 1 '':method'' ''GET'', Header 1 '':path'' ''/'',
      Header 1 '':authority'' ''a'', Frame_recv 1 NGHTTP2_HEADERS True True 9]), get_turn [], get_turn []]"
  have "case http2_loop ?ts (http2_conn_init metrics_init) of
      None \<Rightarrow> False
    | Some (conn, out) \<Rightarrow> 1 < length (streams conn) \<and>
        (case streams conn ! 1 of None \<Rightarrow> False | Some s \<Rightarrow> response_complete s)" by code_simp
  then obtain conn out s where
    l: "http2_loop ?ts (http2_conn_init metrics_init) = Some (conn, out)" "1 < length (streams conn)"
      "streams conn ! 1 = Some s" "response_complete s" by (auto split: option.splits)
  from response_needs_client_input [OF l] l show ?thesis by blast
qed

end
