(* ===== verification/Tls_Tunnel.thy ===== *)
theory Tls_Tunnel
  imports Content_Filter Http2
begin

text \<open>
  \<^verbatim>\<open>src/src/tls_tunnel.c\<close>: the certificate cache, the connection to the target of a \<^verbatim>\<open>CONNECT\<close> request and
  the loop that copies bytes between the two TLS sessions.

  What the resolver, the sockets and OpenSSL answer is given by the environment: the addresses of
  \<^verbatim>\<open>getaddrinfo\<close> with the outcome of \<^verbatim>\<open>socket\<close> and \<^verbatim>\<open>connect\<close> for each, the outcome of the handshakes, and,
  for every turn of the polling loop, what \<^verbatim>\<open>poll\<close>, \<^verbatim>\<open>SSL_read\<close> and \<^verbatim>\<open>SSL_write\<close> return.
\<close>

section \<open>Certificates\<close>

record X509 =
  common_name :: string \<comment> \<open>the text given for the CN entry of the subject\<close>
  alt_name :: string \<comment> \<open>\<^verbatim>\<open>san_str\<close>\<close>

record tls_state =
  verify_peer :: bool \<comment> \<open>\<^verbatim>\<open>SSL_VERIFY_PEER\<close> is set in \<^verbatim>\<open>client_ctx_out\<close>\<close>
  verify_locations :: "string option" \<comment> \<open>the bundle loaded, \<^verbatim>\<open>None\<close> for the default paths\<close>
  default_x509 :: "X509 option"
  cert_cache :: "(string \<times> X509) list" \<comment> \<open>from \<^verbatim>\<open>cert_cache_head\<close> on\<close>

definition generate_cert_for_host :: "string \<Rightarrow> X509" where
  "generate_cert_for_host hostname =
     \<lparr>common_name = hostname, alt_name = snprintf 256 (''DNS:'' @ hostname)\<rparr>"

definition get_or_create_cert :: "string option \<Rightarrow> tls_state \<Rightarrow> X509 option \<times> tls_state" where
  "get_or_create_cert hostname st =
     (case hostname of
        None \<Rightarrow> (default_x509 st, st)
      | Some h \<Rightarrow>
          if h = [] then (default_x509 st, st)
          else (case map_of (cert_cache st) h of
                  Some c \<Rightarrow> (Some c, st)
                | None \<Rightarrow>
                    (let new_cert = generate_cert_for_host h
                     in (Some new_cert, st\<lparr>cert_cache := (h, new_cert) # cert_cache st\<rparr>))))"

definition sni_callback :: "string option \<Rightarrow> tls_state \<Rightarrow> X509 option \<times> tls_state" where
  \<comment> \<open>the certificate the session is switched to, if any\<close>
  "sni_callback servername st =
     (case servername of None \<Rightarrow> (None, st) | Some h \<Rightarrow> get_or_create_cert (Some h) st)"

definition InitOpenSSL :: "ProxyConfig \<Rightarrow> tls_state \<Rightarrow> tls_state" where
  \<comment> \<open>both contexts are created\<close>
  "InitOpenSSL cfg st =
     (let st = (if tls_verify_peer cfg
                then st\<lparr>verify_peer := True,
                        verify_locations := (if ca_bundle_file cfg \<noteq> [] then Some (ca_bundle_file cfg) else None)\<rparr>
                else st)
      in st\<lparr>default_x509 := Some (generate_cert_for_host ''localhost'')\<rparr>)"

definition CleanupOpenSSL :: "tls_state \<Rightarrow> tls_state" where
  \<comment> \<open>the contexts, the key and the default certificate are released, their pointers stay as they are\<close>
  "CleanupOpenSSL st = st\<lparr>cert_cache := []\<rparr>"

section \<open>Protocol negotiation\<close>

definition alpn_protos :: string where
  "alpn_protos = [CHR 0x02] @ ''h2'' @ [CHR 0x08] @ ''http/1.1''"

text \<open>The values of the library's macros \<^verbatim>\<open>SSL_TLSEXT_ERR_OK\<close> and \<^verbatim>\<open>SSL_TLSEXT_ERR_NOACK\<close>.\<close>

abbreviation (input) SSL_TLSEXT_ERR_OK :: int where "SSL_TLSEXT_ERR_OK \<equiv> 0"
abbreviation (input) SSL_TLSEXT_ERR_NOACK :: int where "SSL_TLSEXT_ERR_NOACK \<equiv> 3"

definition alpn_select_cb :: "(string \<Rightarrow> string \<Rightarrow> int \<times> string) \<Rightarrow> string \<Rightarrow> int \<times> string" where
  \<comment> \<open>\<^verbatim>\<open>select\<close> is \<^verbatim>\<open>SSL_select_next_proto\<close>: its result and the protocol it points \<^verbatim>\<open>out\<close> to\<close>
  "alpn_select_cb select client_protos =
     (case select alpn_protos client_protos of
        (r, out) \<Rightarrow> (if r = SSL_TLSEXT_ERR_OK then SSL_TLSEXT_ERR_OK else SSL_TLSEXT_ERR_NOACK, out))"

section \<open>Connecting\<close>

record addrinfo =
  ai_addr :: sockaddr
  socket_ok :: bool
  connect_ok :: bool

fun first_connected :: "(sockaddr \<Rightarrow> bool) \<Rightarrow> addrinfo list \<Rightarrow> addrinfo option" where
  \<comment> \<open>the loop over \<^verbatim>\<open>rp\<close>; \<^verbatim>\<open>skip\<close> is the test that makes it continue before a socket is opened\<close>
  "first_connected skip [] = None"
| "first_connected skip (rp # rps) =
     (if skip (ai_addr rp) then first_connected skip rps
      else if \<not> socket_ok rp then first_connected skip rps
      else if connect_ok rp then Some rp
      else first_connected skip rps)"

definition tunnel_target :: "addrinfo list option \<Rightarrow> addrinfo option" where
  \<comment> \<open>the address \<^verbatim>\<open>HandleConnect\<close> connects to\<close>
  "tunnel_target res = (case res of None \<Rightarrow> None | Some rps \<Rightarrow> first_connected (\<lambda>_. False) rps)"

section \<open>Copying\<close>

datatype net_output =
    To_client string
  | To_server string
  | Access_log nat nat string string string \<comment> \<open>status, size, method, URL and trace id\<close>

datatype ssl_read = Read_bytes string int \<comment> \<open>the bytes and the result of writing them to the other side\<close>
  | Want_more
  | Read_error

record poll_round =
  poll_ret :: int
  client_in :: bool
  client_pending :: bool
  client_reads :: "ssl_read list"
  server_in :: bool
  server_pending :: bool
  server_reads :: "ssl_read list"
  hangup :: bool

definition count_bytes :: "bool \<Rightarrow> int \<Rightarrow> ServerMetrics \<Rightarrow> ServerMetrics" where
  \<comment> \<open>the accounting after bytes were written; \<^verbatim>\<open>v6\<close> says that the client's address is IPv6\<close>
  "count_bytes v6 n m =
     (if n > 0
      then (let m = metrics_add_bytes (word_of_int n) m in if v6 then metrics_add_ipv6_bytes (word_of_int n) m else m)
      else m)"

fun drain :: "bool \<Rightarrow> ssl_read list \<Rightarrow> ServerMetrics \<Rightarrow> bool \<times> string list \<times> ServerMetrics" where
  \<comment> \<open>one inner loop: whether \<^verbatim>\<open>active\<close> stays set, what is written to the other side, the metrics\<close>
  "drain v6 [] m = (True, [], m)"
| "drain v6 (Want_more # _) m = (True, [], m)"
| "drain v6 (Read_error # _) m = (False, [], m)"
| "drain v6 (Read_bytes b n # rs) m =
     (let m = count_bytes v6 n m
      in if n \<le> 0 then (False, [b], m)
         else (case drain v6 rs m of (active, out, m) \<Rightarrow> (active, b # out, m)))"

definition poll_step :: "bool \<Rightarrow> poll_round \<Rightarrow> ServerMetrics \<Rightarrow> bool \<times> net_output list \<times> ServerMetrics" where
  \<comment> \<open>one turn after a successful \<^verbatim>\<open>poll\<close>\<close>
  "poll_step v6 r m =
     (let (a1, up, m) = (if client_in r \<or> client_pending r then drain v6 (client_reads r) m else (True, [], m));
          (a2, down, m) = (if server_in r \<or> server_pending r then drain v6 (server_reads r) m else (True, [], m))
      in (a1 \<and> a2 \<and> \<not> hangup r, map To_server up @ map To_client down, m))"

fun pump :: "bool \<Rightarrow> poll_round list \<Rightarrow> ServerMetrics \<Rightarrow> net_output list \<times> ServerMetrics" where
  "pump v6 [] m = ([], m)"
| "pump v6 (r # rs) m =
     (if poll_ret r < 0 then ([], m)
      else (case poll_step v6 r m of
              (active, out, m) \<Rightarrow>
                if active then (case pump v6 rs m of (out', m) \<Rightarrow> (out @ out', m)) else (out, m)))"

section \<open>A CONNECT request\<close>

record tunnel_env =
  tunnel_addrs :: "addrinfo list option"
  servername :: "string option"
  accept_ok :: bool
  upstream_ok :: bool
  alpn_client :: string \<comment> \<open>the protocol \<^verbatim>\<open>SSL_get0_alpn_selected\<close> reports for the client's session\<close>
  rounds :: "poll_round list"
  h2_init :: init_env
  h2_turns :: "h2_turn list"

abbreviation conn_est :: string where
  "conn_est \<equiv> ''HTTP/1.1 200 Connection Established'' @ CRLF @ CRLF"

fun h2_traffic :: "h2_out list \<Rightarrow> net_output list" where
  \<comment> \<open>the bytes an HTTP/2 connection exchanges with the two sides\<close>
  "h2_traffic [] = []"
| "h2_traffic (Client_bytes b # out) = To_client b # h2_traffic out"
| "h2_traffic (Upstream_bytes b # out) = To_server b # h2_traffic out"
| "h2_traffic (_ # out) = h2_traffic out"

definition HandleConnect ::
  "bool \<Rightarrow> tunnel_env \<Rightarrow> string option \<Rightarrow> tls_state \<Rightarrow> ServerMetrics \<Rightarrow>
   (int \<times> tls_state \<times> ServerMetrics \<times> net_output list) option" where
  "HandleConnect v6 env host st m =
     (case tunnel_target (tunnel_addrs env) of
        None \<Rightarrow> Some (-1, st, m, [])
      | Some _ \<Rightarrow>
          (let st = snd (get_or_create_cert host st);
               st = snd (sni_callback (servername env) st)
           in if \<not> accept_ok env then Some (-1, st, m, [To_client conn_est])
              else if \<not> upstream_ok env then Some (-1, st, m, [To_client conn_est])
              else if alpn_client env = ''h2''
              then (case handle_http2_connection (h2_init env) (h2_turns env) m of
                      None \<Rightarrow> None
                    | Some (m, out) \<Rightarrow> Some (0, st, m, To_client conn_est # h2_traffic out))
              else (case pump v6 (rounds env) m of (out, m) \<Rightarrow> Some (0, st, m, To_client conn_est # out))))"

end
