(* ===== verification/Tunnel_Props.thy ===== *)
theory Tunnel_Props
  imports Tls_Tunnel
begin

text \<open>The properties of the certificate cache and of the copying loop of a tunnel.\<close>

section \<open>Certificates\<close>

definition certs_ok :: "tls_state \<Rightarrow> bool" where
  \<comment> \<open>one entry per name, and the certificate under a name was made for that name\<close>
  "certs_ok st \<longleftrightarrow>
     distinct (map fst (cert_cache st)) \<and> list_all (\<lambda>(h, c). c = generate_cert_for_host h) (cert_cache st)"

lemma get_or_create_cert_law:
  assumes "certs_ok st" "h \<noteq> []"
  shows "fst (get_or_create_cert (Some h) st) = Some (generate_cert_for_host h)"
    "certs_ok (snd (get_or_create_cert (Some h) st))"
    "set (map fst (cert_cache (snd (get_or_create_cert (Some h) st)))) = insert h (set (map fst (cert_cache st)))"
proof -
  have "c = generate_cert_for_host h" if "map_of (cert_cache st) h = Some c" for c
    using assms(1) map_of_SomeD [OF that] by (auto simp: certs_ok_def list_all_iff)
  moreover have "h \<in> set (map fst (cert_cache st))" if "map_of (cert_cache st) h = Some c" for c
    using map_of_SomeD [OF that] by force
  moreover have "h \<notin> set (map fst (cert_cache st))" if "map_of (cert_cache st) h = None"
    using that by (simp add: map_of_eq_None_iff)
  ultimately show "fst (get_or_create_cert (Some h) st) = Some (generate_cert_for_host h)"
    "certs_ok (snd (get_or_create_cert (Some h) st))"
    "set (map fst (cert_cache (snd (get_or_create_cert (Some h) st)))) = insert h (set (map fst (cert_cache st)))"
    using assms by (auto simp: get_or_create_cert_def Let_def certs_ok_def split: option.split)
qed

definition ask_certs :: "string list \<Rightarrow> tls_state \<Rightarrow> tls_state" where
  "ask_certs hs st = fold (\<lambda>h st. snd (get_or_create_cert (Some h) st)) hs st"

lemma ask_certs_law:
  "certs_ok st \<Longrightarrow> [] \<notin> set hs \<Longrightarrow>
     certs_ok (ask_certs hs st) \<and> set (map fst (cert_cache (ask_certs hs st))) = set hs \<union> set (map fst (cert_cache st))"
proof (induction hs arbitrary: st)
  case (Cons h hs)
  then have "h \<noteq> []" by auto
  from get_or_create_cert_law [OF Cons.prems(1) this] Cons show ?case by (simp add: ask_certs_def)
qed (simp add: ask_certs_def)

text \<open>
  Every name is shown its own certificate. Whatever names were asked for before, the certificate
  for a non-empty name is the one made for that name, each name has one entry in the cache, and the
  cache holds exactly the names asked for: nothing is ever evicted from it.
\<close>
theorem certificate_of_name:
  assumes "certs_ok st" "[] \<notin> set hs" "h \<noteq> []"
  shows "fst (get_or_create_cert (Some h) (ask_certs hs st)) = Some (generate_cert_for_host h)"
    and "length (cert_cache (ask_certs hs st)) = card (set hs \<union> set (map fst (cert_cache st)))"
proof -
  note a = ask_certs_law [OF assms(1,2)]
  then show "fst (get_or_create_cert (Some h) (ask_certs hs st)) = Some (generate_cert_for_host h)"
    using get_or_create_cert_law(1) assms(3) by blast
  have "distinct (map fst (cert_cache (ask_certs hs st)))" using a by (simp add: certs_ok_def)
  from distinct_card [OF this] a show "length (cert_cache (ask_certs hs st)) = card (set hs \<union> set (map fst (cert_cache st)))"
    by simp
qed

definition no_certs :: tls_state where
  "no_certs = \<lparr>verify_peer = False, verify_locations = None, default_x509 = None, cert_cache = []\<rparr>"

theorem certificate_of_name_witness:
  "fst (get_or_create_cert (Some ''a'') (ask_certs [''a'', ''b'', ''a''] no_certs)) = Some (generate_cert_for_host ''a'') \<and>
   length (cert_cache (ask_certs [''a'', ''b'', ''a''] no_certs)) = 2"
  using certificate_of_name [of no_certs "[''a'', ''b'', ''a'']" "''a''"]
  by (auto simp: certs_ok_def no_certs_def card_insert_if)

section \<open>Copying\<close>

fun read_data :: "ssl_read \<Rightarrow> string" where
  "read_data (Read_bytes b n) = b"
| "read_data _ = []"

fun read_passes :: "ssl_read \<Rightarrow> bool" where
  \<comment> \<open>bytes were read and all of them written\<close>
  "read_passes (Read_bytes b n) \<longleftrightarrow> b \<noteq> [] \<and> n = int (length b)"
| "read_passes _ \<longleftrightarrow> False"

definition live_round :: "poll_round \<Rightarrow> bool" where
  "live_round r \<longleftrightarrow>
     0 \<le> poll_ret r \<and> \<not> hangup r \<and> list_all read_passes (client_reads r) \<and> list_all read_passes (server_reads r) \<and>
     (client_reads r \<noteq> [] \<longrightarrow> client_in r \<or> client_pending r) \<and>
     (server_reads r \<noteq> [] \<longrightarrow> server_in r \<or> server_pending r)"

definition to_server :: "net_output list \<Rightarrow> string" where
  "to_server out = concat (List.map_filter (\<lambda>x. case x of To_server b \<Rightarrow> Some b | _ \<Rightarrow> None) out)"

definition to_client :: "net_output list \<Rightarrow> string" where
  "to_client out = concat (List.map_filter (\<lambda>x. case x of To_client b \<Rightarrow> Some b | _ \<Rightarrow> None) out)"

lemma stream_append [simp]:
  "to_server (xs @ ys) = to_server xs @ to_server ys" "to_client (xs @ ys) = to_client xs @ to_client ys"
  by (simp_all add: to_server_def to_client_def map_filter_def)

lemma stream_map [simp]:
  "to_server (map To_server bs) = concat bs" "to_client (map To_server bs) = []"
  "to_server (map To_client bs) = []" "to_client (map To_client bs) = concat bs"
  "to_server [] = []" "to_client [] = []"
  by (induction bs) (simp_all add: to_server_def to_client_def map_filter_def)

abbreviation total_read :: "ssl_read list \<Rightarrow> string" where
  "total_read rs \<equiv> concat (map read_data rs)"

lemma drain_passes:
  "list_all read_passes rs \<Longrightarrow> \<exists>m'. drain v6 rs m = (True, map read_data rs, m') \<and>
     bytes_transferred m' = bytes_transferred m + word_of_nat (length (total_read rs))"
proof (induction rs arbitrary: m)
  case (Cons r rs)
  then obtain b where r: "r = Read_bytes b (int (length b))" "b \<noteq> []" by (cases r) auto
  have "bytes_transferred (count_bytes v6 (int (length b)) m) = bytes_transferred m + word_of_nat (length b)"
    using r(2) by (simp add: count_bytes_def Let_def metrics_add_bytes_def metrics_add_ipv6_bytes_def)
  with Cons.IH [of "count_bytes v6 (int (length b)) m"] Cons.prems r show ?case by (auto simp: ac_simps)
qed simp

lemma drain_if_passes:
  assumes "list_all read_passes rs" "rs \<noteq> [] \<longrightarrow> c"
  shows "\<exists>m'. (if c then drain v6 rs m else (True, [], m)) = (True, map read_data rs, m') \<and>
     bytes_transferred m' = bytes_transferred m + word_of_nat (length (total_read rs))"
  using assms drain_passes [OF assms(1), of v6 m] by (cases c) simp_all

lemma poll_step_passes:
  assumes "live_round r"
  shows "\<exists>m'. poll_step v6 r m =
      (True, map To_server (map read_data (client_reads r)) @ map To_client (map read_data (server_reads r)), m') \<and>
    bytes_transferred m' = bytes_transferred m +
      word_of_nat (length (total_read (client_reads r)) + length (total_read (server_reads r)))"
proof -
  from assms have l: "list_all read_passes (client_reads r)" "list_all read_passes (server_reads r)" "\<not> hangup r"
    by (simp_all add: live_round_def)
  obtain m1 where 1: "(if client_in r \<or> client_pending r then drain v6 (client_reads r) m else (True, [], m)) =
      (True, map read_data (client_reads r), m1)"
      "bytes_transferred m1 = bytes_transferred m + word_of_nat (length (total_read (client_reads r)))"
    using drain_if_passes [OF l(1), of "client_in r \<or> client_pending r" v6 m] assms unfolding live_round_def by metis
  obtain m2 where 2: "(if server_in r \<or> server_pending r then drain v6 (server_reads r) m1 else (True, [], m1)) =
      (True, map read_data (server_reads r), m2)"
      "bytes_transferred m2 = bytes_transferred m1 + word_of_nat (length (total_read (server_reads r)))"
    using drain_if_passes [OF l(2), of "server_in r \<or> server_pending r" v6 m1] assms unfolding live_round_def by metis
  show ?thesis unfolding poll_step_def Let_def 1(1) prod.case 2(1) using 1(2) 2(2) l(3) by simp
qed

text \<open>
  C30: A tunnel copies both directions unchanged. While both sides stay up and every write succeeds,
  the server is sent exactly the bytes read from the client, in order, and the client exactly those
  read from the server, and the byte counter grows by the number of both.
\<close>
theorem tunnel_copies:
  assumes "list_all live_round rs"
  shows "to_server (fst (pump v6 rs m)) = concat (map (\<lambda>r. total_read (client_reads r)) rs) \<and>
    to_client (fst (pump v6 rs m)) = concat (map (\<lambda>r. total_read (server_reads r)) rs) \<and>
    bytes_transferred (snd (pump v6 rs m)) = bytes_transferred m +
      word_of_nat (length (to_server (fst (pump v6 rs m))) + length (to_client (fst (pump v6 rs m))))"
  using assms
proof (induction rs arbitrary: m)
  case (Cons r rs)
  then have "live_round r" by simp
  from poll_step_passes [OF this, of v6 m] obtain m' where m': "poll_step v6 r m =
      (True, map To_server (map read_data (client_reads r)) @ map To_client (map read_data (server_reads r)), m')"
      "bytes_transferred m' = bytes_transferred m +
        word_of_nat (length (total_read (client_reads r)) + length (total_read (server_reads r)))" by blast
  have "0 \<le> poll_ret r" using Cons.prems by (simp add: live_round_def)
  with m' Cons.IH [of m'] Cons.prems show ?case
    by (auto simp del: map_map split: prod.splits)
qed simp

definition demo_round :: poll_round where
  "demo_round = \<lparr>poll_ret = 1, client_in = True, client_pending = False, client_reads = [Read_bytes ''ab'' 2],
     server_in = True, server_pending = False, server_reads = [Read_bytes ''c'' 1], hangup = False\<rparr>"

theorem tunnel_copies_witness:
  "to_server (fst (pump False [demo_round, demo_round] metrics_init)) = ''abab'' \<and>
   to_client (fst (pump False [demo_round, demo_round] metrics_init)) = ''cc''"
  using tunnel_copies [of "[demo_round, demo_round]" False metrics_init]
  by (simp add: live_round_def demo_round_def)

section \<open>Protocol negotiation\<close>

definition h2_counters :: "ServerMetrics \<Rightarrow> u64 \<times> u64 \<times> i32" where
  "h2_counters m = (http2_requests_total m, http2_bytes_transferred m, http2_active_connections m)"

lemma count_bytes_h2 [simp]: "h2_counters (count_bytes v6 n m) = h2_counters m"
  by (simp add: h2_counters_def count_bytes_def metrics_add_bytes_def metrics_add_ipv6_bytes_def Let_def)

lemma drain_h2: "h2_counters (snd (snd (drain v6 rs m))) = h2_counters m"
  by (induction v6 rs m rule: drain.induct) (auto simp: Let_def split: prod.splits)

lemma poll_step_h2: "h2_counters (snd (snd (poll_step v6 r m))) = h2_counters m"
  using drain_h2 [of v6 "client_reads r" m] drain_h2 [of v6 "server_reads r"]
  by (auto simp: poll_step_def split: prod.splits) (metis snd_conv)+

lemma pump_h2: "h2_counters (snd (pump v6 rs m)) = h2_counters m"
proof (induction v6 rs m rule: pump.induct)
  case (2 v6 r rs m)
  then show ?case using poll_step_h2 [of v6 r m] by (auto split: prod.splits)
qed simp

text \<open>The values of \<^verbatim>\<open>OPENSSL_NPN_NEGOTIATED\<close> and \<^verbatim>\<open>OPENSSL_NPN_NO_OVERLAP\<close>, the two results of \<^verbatim>\<open>SSL_select_next_proto\<close>.\<close>

definition npn_results :: "int set" where
  "npn_results = {1, 2}"

definition acknowledged :: "(string \<Rightarrow> string \<Rightarrow> int \<times> string) \<Rightarrow> string \<Rightarrow> bool" where
  \<comment> \<open>the library reports a protocol only where the callback has acknowledged it\<close>
  "acknowledged select proto \<longleftrightarrow>
     (proto \<noteq> [] \<longrightarrow> (\<exists>offer. alpn_select_cb select offer = (SSL_TLSEXT_ERR_OK, proto)))"

text \<open>
  C36: HTTP/2 is never spoken with a client. The ALPN callback compares the result of
  \<^verbatim>\<open>SSL_select_next_proto\<close>, which is 1 or 2, with \<^verbatim>\<open>SSL_TLSEXT_ERR_OK\<close>, which is 0, so it acknowledges nothing,
  whatever the client offers. Every tunnel therefore copies bytes or fails, and the HTTP/2 counters never move.
\<close>
theorem http2_never_negotiated:
  assumes "\<forall>ours theirs. fst (select ours theirs) \<in> npn_results" "acknowledged select (alpn_client env)"
  shows "\<exists>r st' m' out. HandleConnect v6 env host st m = Some (r, st', m', out) \<and> h2_counters m' = h2_counters m \<and>
    (r = 0 \<longrightarrow> out = To_client conn_est # fst (pump v6 (rounds env) m) \<and> m' = snd (pump v6 (rounds env) m))"
proof -
  have "fst (alpn_select_cb select offer) \<noteq> SSL_TLSEXT_ERR_OK" for offer
    using assms(1) by (auto simp: alpn_select_cb_def npn_results_def split: prod.split) (metis fst_conv zero_neq_numeral zero_neq_one)
  then have "alpn_client env = []" using assms(2) unfolding acknowledged_def by (metis fst_conv)
  then show ?thesis
    using pump_h2 [of v6 "rounds env" m]
    by (auto simp: HandleConnect_def Let_def split: option.split prod.split)
qed

definition server_choice :: "string \<Rightarrow> string \<Rightarrow> int \<times> string" where
  \<comment> \<open>a selection that prefers h2 where the client offers it\<close>
  "server_choice ours theirs = (if strstr theirs ([CHR 0x02] @ ''h2'') \<noteq> None then (1, ''h2'') else (2, ''h2''))"

definition ready_tunnel :: tunnel_env where
  "ready_tunnel =
     \<lparr>tunnel_addrs = Some [\<lparr>ai_addr = Sockaddr_in 1, socket_ok = True, connect_ok = True\<rparr>], servername = None,
      accept_ok = True, upstream_ok = True, alpn_client = [], rounds = [demo_round],
      h2_init = \<lparr>conn_malloc_ok = True, session_new_ok = True, submit_settings_ok = True\<rparr>, h2_turns = []\<rparr>"

theorem http2_never_negotiated_witness:
  "server_choice alpn_protos ([CHR 0x02] @ ''h2'') = (1, ''h2'') \<and>
   (\<exists>st' m' out. HandleConnect False ready_tunnel (Some ''a'') no_certs metrics_init = Some (0, st', m', out) \<and>
      out = To_client conn_est # fst (pump False [demo_round] metrics_init) \<and> h2_counters m' = h2_counters metrics_init)"
proof -
  have "\<forall>ours theirs. fst (server_choice ours theirs) \<in> npn_results" by (simp add: server_choice_def npn_results_def)
  moreover have "acknowledged server_choice (alpn_client ready_tunnel)" by (simp add: acknowledged_def ready_tunnel_def)
  moreover have "\<exists>st' m' out. HandleConnect False ready_tunnel (Some ''a'') no_certs metrics_init = Some (0, st', m', out)"
    by (auto simp: HandleConnect_def ready_tunnel_def tunnel_target_def Let_def split: prod.split)
  ultimately show ?thesis
    using http2_never_negotiated [of server_choice ready_tunnel False "Some ''a''" no_certs metrics_init]
    by (auto simp: server_choice_def) (simp_all add: ready_tunnel_def)
qed

end
