(* ===== verification/Proxy.thy ===== *)
theory Proxy
  imports ProxyParse Tls_Tunnel Auth Cache
begin

text \<open>
  \<^verbatim>\<open>src/src/Main.c\<close>: answering one client.

  What the network, the clock and the allocator do is given by an environment: the bytes every \<^verbatim>\<open>recv\<close>
  returns (the empty string where it returns at most 0), the results of \<^verbatim>\<open>send\<close>, the addresses a name
  resolves to. The result of an operation is the new state with the list of what it sends and logs
  for access, in order, and \<^term>\<open>None\<close> where the code leaves defined behaviour.
\<close>

section \<open>Small functions\<close>

definition parse_content_type_header :: "string \<Rightarrow> nat \<Rightarrow> string option" where
  \<comment> \<open>the value copied to \<^verbatim>\<open>out\<close>, \<^verbatim>\<open>None\<close> where the code returns -1\<close>
  "parse_content_type_header buf out_size =
     (if buf = [] \<or> out_size = 0 then None
      else (case memmem buf ''Content-Type:'' of
              None \<Rightarrow> None
            | Some i \<Rightarrow>
                (let val = dropWhile (\<lambda>c. c = CHR '' '' \<or> c = TAB) (drop (i + 13) buf);
                     val_len = (case memmem val CRLF of
                                  Some e \<Rightarrow> e
                                | None \<Rightarrow> (case memmem val [LF] of Some e \<Rightarrow> e | None \<Rightarrow> length val));
                     out = take (min val_len (out_size - 1)) val
                 in Some (c_str (rev (dropWhile (\<lambda>c. c = CHR '' '' \<or> c = TAB \<or> c = CR \<or> c = LF) (rev out)))))))"

definition checkHTTPversion :: "string \<Rightarrow> int" where
  "checkHTTPversion clientVersion =
     (if prefix ''HTTP/1.1'' clientVersion then 1 else if prefix ''HTTP/1.0'' clientVersion then 1 else -1)"

definition http_response :: "string list \<Rightarrow> string \<Rightarrow> string" where
  "http_response ls body = concat (map (\<lambda>l. l @ CRLF) ls) @ CRLF @ body"

definition error_lines :: "string \<Rightarrow> nat \<Rightarrow> string list option" where
  "error_lines date status =
     (if status = 400 then Some [''HTTP/1.1 400 Bad Request'', ''Content-Length: 95'',
         ''Connection: keep-alive'', ''Content-Type: text/html'', (''Date: '' @ date),
         ''Server: VaibhavN/14785'']
      else if status = 404 then Some [''HTTP/1.1 404 Not Found'', ''Content-Length: 91'',
         ''Content-Type: text/html'', ''Connection: keep-alive'', (''Date: '' @ date),
         ''Server: VaibhavN/14785'']
      else if status = 407 then Some [''HTTP/1.1 407 Proxy Authentication Required'',
         (''Proxy-Authenticate: Basic realm='' @ [QUOTE] @ ''Proxy'' @ [QUOTE]),
         ''Content-Length: 122'', ''Content-Type: text/html'', ''Connection: close'',
         (''Date: '' @ date), ''Server: VaibhavN/14785'']
      else if status = 500 then Some [''HTTP/1.1 500 Internal Server Error'', ''Content-Length: 115'',
         ''Connection: keep-alive'', ''Content-Type: text/html'', (''Date: '' @ date),
         ''Server: VaibhavN/14785'']
      else if status = 501 then Some [''HTTP/1.1 501 Not Implemented'', ''Content-Length: 103'',
         ''Connection: keep-alive'', ''Content-Type: text/html'', (''Date: '' @ date),
         ''Server: VaibhavN/14785'']
      else if status = 505 then Some [''HTTP/1.1 505 HTTP Version Not Supported'', ''Content-Length: 125'',
         ''Connection: keep-alive'', ''Content-Type: text/html'', (''Date: '' @ date),
         ''Server: VaibhavN/14785'']
      else None)"

definition error_body :: "nat \<Rightarrow> string" where
  "error_body status =
     (if status = 400 then
        ''<HTML><HEAD><TITLE>400 Bad Request</TITLE></HEAD>'' @ [LF] @ ''<BODY><H1>400 Bad Rqeuest</H1>'' @ [LF] @ ''</BODY></HTML>''
      else if status = 404 then
        ''<HTML><HEAD><TITLE>404 Not Found</TITLE></HEAD>'' @ [LF] @ ''<BODY><H1>404 Not Found</H1>'' @ [LF] @ ''</BODY></HTML>''
      else if status = 407 then
        ''<HTML><HEAD><TITLE>407 Proxy Authentication Required</TITLE></HEAD>'' @ [LF] @ ''<BODY><H1>407 Authentication Required</H1>'' @ [LF] @ ''</BODY></HTML>''
      else if status = 500 then
        ''<HTML><HEAD><TITLE>500 Internal Server Error</TITLE></HEAD>'' @ [LF] @ ''<BODY><H1>500 Internal Server Error</H1>'' @ [LF] @ ''</BODY></HTML>''
      else if status = 501 then
        ''<HTML><HEAD><TITLE>404 Not Implemented</TITLE></HEAD>'' @ [LF] @ ''<BODY><H1>501 Not Implemented</H1>'' @ [LF] @ ''</BODY></HTML>''
      else if status = 505 then
        ''<HTML><HEAD><TITLE>505 HTTP Version Not Supported</TITLE></HEAD>'' @ [LF] @ ''<BODY><H1>505 HTTP Version Not Supported</H1>'' @ [LF] @ ''</BODY></HTML>''
      else [])"

definition ThrowError :: "string \<Rightarrow> 'r filter_state \<Rightarrow> nat \<Rightarrow> int \<times> string list" where
  \<comment> \<open>the return value and what is sent; \<^verbatim>\<open>date\<close> is the formatted time\<close>
  "ThrowError date f status =
     (if status = 403
      then (let html = filter_get_block_page f
            in (1, [snprintf 1024 (http_response
                  [''HTTP/1.1 403 Forbidden'', ''Content-Length: '' @ show_nat (length html), ''Content-Type: text/html'',
                   ''Connection: keep-alive'', ''Date: '' @ date, ''Server: VaibhavN/14785''] html)]))
      else (case error_lines date status of
              None \<Rightarrow> (-1, [])
            | Some ls \<Rightarrow> (1, [snprintf 1024 (http_response ls (error_body status))])))"

section \<open>The forwarded request\<close>

definition forward_headers :: "ParsedRequest \<Rightarrow> ParsedRequest option" where
  \<comment> \<open>the header edits of \<^verbatim>\<open>HandleRequest\<close>\<close>
  "forward_headers pr =
     do {
       (_, pr) \<leftarrow> ParsedHeader_set pr ''Connection'' ''close'';
       let pr = snd (ParsedHeader_remove pr ''Proxy-Connection'');
       let rewrite = (case header_value pr ''Host'' of
                        None \<Rightarrow> True
                      | Some v \<Rightarrow> strstr v ''localhost'' \<noteq> None \<or> strstr v ''127.0.0.1'' \<noteq> None);
       (if pr_host pr \<noteq> Null \<and> rewrite
        then do { host \<leftarrow> deref (pr_host pr); map_option snd (ParsedHeader_set pr ''Host'' host) }
        else Some pr)
     }"

definition forward_request :: "nat \<Rightarrow> ParsedRequest \<Rightarrow> (string \<times> ParsedRequest) option" where
  \<comment> \<open>what \<^verbatim>\<open>HandleRequest\<close> builds in its buffer of \<^verbatim>\<open>max_bytes\<close> bytes and sends to the end server\<close>
  "forward_request max_len pr =
     do {
       path \<leftarrow> deref (pr_path pr);
       version \<leftarrow> deref (pr_version pr);
       let line = ''GET '' @ path @ '' '' @ version @ CRLF;
       (if length line + 1 > max_len then None
        else do {
          pr \<leftarrow> forward_headers pr;
          (case ParsedRequest_unparse_headers pr (max_len - length line) of
             (r, bytes) \<Rightarrow>
               if length line + length bytes > max_len then None
               else Some (c_str (line @ bytes), pr))
        })
     }"

section \<open>Relaying the response\<close>

record relay_event =
  chunk :: string \<comment> \<open>what one \<^verbatim>\<open>recv\<close> returned\<close>
  realloc_ok :: bool
  send_ret :: int

record relay_state =
  response :: string \<comment> \<open>the first \<^verbatim>\<open>RESPONSE_LENGTH\<close> bytes of \<^verbatim>\<open>RESPONSE\<close>\<close>
  capacity :: nat \<comment> \<open>\<^verbatim>\<open>RESPONSE_CAPACITY\<close>\<close>
  allocated :: nat \<comment> \<open>the bytes \<^verbatim>\<open>RESPONSE\<close> really has\<close>
  sent :: "string list"
  ct_blocked :: bool
  relay_metrics :: ServerMetrics

definition headers_complete :: "string \<Rightarrow> bool" where
  "headers_complete r \<longleftrightarrow> memmem r (CRLF @ CRLF) \<noteq> None \<or> memmem r [LF, LF] \<noteq> None"

definition type_blocked :: "'r filter_state \<Rightarrow> string \<Rightarrow> bool" where
  "type_blocked f r =
     (case parse_content_type_header r 256 of None \<Rightarrow> False | Some ct \<Rightarrow> filter_is_content_type_blocked f ct)"

fun relay :: "'r filter_state \<Rightarrow> bool \<Rightarrow> relay_event list \<Rightarrow> relay_state \<Rightarrow> relay_state option" where
  "relay f v6 [] s = Some s"
| "relay f v6 (e # es) s =
     (let grow = (length (response s) + length (chunk e) + 1 > capacity s)
      in if grow \<and> \<not> realloc_ok e then Some (s\<lparr>capacity := capacity s * 2\<rparr>)
         else
           let s = (if grow then s\<lparr>capacity := capacity s * 2, allocated := capacity s * 2\<rparr> else s)
           in if length (response s) + length (chunk e) > allocated s then None
              else
                let s = s\<lparr>response := response s @ chunk e\<rparr>
                in if headers_complete (response s) \<and> type_blocked f (response s) then Some (s\<lparr>ct_blocked := True\<rparr>)
                   else
                     let s = s\<lparr>sent := sent s @ [chunk e], relay_metrics := count_bytes v6 (send_ret e) (relay_metrics s)\<rparr>
                     in if send_ret e < 0 then Some s else relay f v6 es s)"

definition block_response :: "'r filter_state \<Rightarrow> string" where
  "block_response f =
     (let custom = filter_get_block_page f
      in snprintf 1024 (http_response
           [''HTTP/1.1 403 Forbidden'', ''Content-Type: text/html'', ''Content-Length: '' @ show_nat (length custom),
            ''Connection: close''] custom))"

section \<open>Handling a GET request\<close>

record 'r proxy_state =
  p_cfg :: ProxyConfig
  p_cache :: cache
  p_metrics :: ServerMetrics
  p_filter :: "'r filter_state"
  p_auth :: auth_state
  p_tls :: tls_state
  p_sem :: int

record request_env =
  peer_ipv6 :: bool
  first_recv :: string
  more_recv :: "string list"
  request_alloc_ok :: bool
  errno_einval :: bool
  new_trace_id :: string
  date_text :: string
  stack_memory :: "char list"
  find_time :: int
  server_addrs :: "addrinfo list option"
  request_send_ret :: int
  response_alloc_ok :: bool
  events :: "relay_event list"
  last_realloc_ok :: bool
  cache_env :: add_env
  hit_send_ret :: "nat \<Rightarrow> int"
  tunnel :: tunnel_env

definition ConnectEndServer :: "'r filter_state \<Rightarrow> addrinfo list option \<Rightarrow> addrinfo option" where
  \<comment> \<open>the address connected to; \<^verbatim>\<open>res\<close> is \<^verbatim>\<open>None\<close> where \<^verbatim>\<open>getaddrinfo\<close> fails\<close>
  "ConnectEndServer f res =
     (case res of None \<Rightarrow> None | Some rps \<Rightarrow> first_connected (filter_is_ip_blocked f) rps)"

definition server_port :: "cptr \<Rightarrow> int \<Rightarrow> int option" where
  "server_port p def_port = (case p of Null \<Rightarrow> Some def_port | Str s \<Rightarrow> Some (atoi s) | _ \<Rightarrow> None)"

definition HandleRequest ::
  "request_env \<Rightarrow> ParsedRequest \<Rightarrow> string \<Rightarrow> 'r proxy_state \<Rightarrow>
   (int \<times> 'r proxy_state \<times> net_output list) option" where
  \<comment> \<open>\<^verbatim>\<open>request\<close> is the C string used as the cache key\<close>
  "HandleRequest env pr request st =
     do {
       let max_len = unat (max_bytes (p_cfg st));
       (req, pr) \<leftarrow> forward_request max_len pr;
       _ \<leftarrow> server_port (pr_port pr) 80;
       (if ConnectEndServer (p_filter st) (server_addrs env) = None then Some (-1, st, [])
        else if request_send_ret env < 0 then Some (-1, st, [To_server req])
        else if \<not> response_alloc_ok env then Some (-1, st, [To_server req])
        else do {
          s \<leftarrow> relay (p_filter st) (peer_ipv6 env) (events env)
                 \<lparr>response = [], capacity = max_len, allocated = max_len, sent = [], ct_blocked = False,
                  relay_metrics = p_metrics st\<rparr>;
          let st = st\<lparr>p_metrics := relay_metrics s\<rparr>;
          let out = To_server req # map To_client (sent s);
          let block = To_client (block_response (p_filter st));
          let room = (if length (response s) + 1 > capacity s \<and> last_realloc_ok env
                      then length (response s) + 1 else allocated s);
          (if length (response s) \<ge> room then None
           else if ct_blocked s
           then Some (0, st\<lparr>p_metrics := metrics_increment_errors (p_metrics st)\<rparr>, out @ [block, block])
           else if type_blocked (p_filter st) (response s)
           then Some (0, st\<lparr>p_metrics := metrics_increment_errors (p_metrics st)\<rparr>, out @ [block])
           else do {
             (_, c) \<leftarrow> AddCache (p_cfg st) (cache_env env) (response s) (int (length (response s))) request (p_cache st);
             Some (0, st\<lparr>p_cache := c\<rparr>, out)
           })
        })
     }"

section \<open>Reading a request\<close>

definition is_raw_tls :: "string \<Rightarrow> bool" where
  \<comment> \<open>the first bytes are a TLS handshake or the HTTP/2 connection preface\<close>
  "is_raw_tls buf \<longleftrightarrow>
     buf \<noteq> [] \<and>
     (buf ! 0 = CHR 0x16 \<or>
      24 \<le> length buf \<and>
      take 24 buf = ''PRI * HTTP/2.0'' @ CRLF @ CRLF @ ''SM'' @ CRLF @ CRLF)"

fun read_headers :: "nat \<Rightarrow> string list \<Rightarrow> string \<Rightarrow> string" where
  \<comment> \<open>the loop that reads until the empty line; one list element per \<^verbatim>\<open>recv\<close>, which is asked for
      what is left of the buffer\<close>
  "read_headers max_len [] buf = buf"
| "read_headers max_len (r # rs) buf =
     (if length buf < max_len \<and> memmem buf (CRLF @ CRLF) = None \<and> r \<noteq> []
      then read_headers max_len rs (buf @ take (max_len - length buf) r) else buf)"

definition strlen_buffer :: "nat \<Rightarrow> string \<Rightarrow> nat option" where
  \<comment> \<open>\<^verbatim>\<open>strlen(BUFFER)\<close> of the zeroed buffer whose first bytes are \<^verbatim>\<open>buf\<close>\<close>
  "strlen_buffer max_len buf =
     (if NUL \<in> set buf \<or> length buf < max_len then Some (length (c_str buf)) else None)"

definition parse_request :: "request_env \<Rightarrow> nat \<Rightarrow> string \<Rightarrow> (int \<times> ParsedRequest \<times> string) option" where
  \<comment> \<open>the result of parsing, the request and the trace id\<close>
  "parse_request env max_len buf =
     do {
       n \<leftarrow> strlen_buffer max_len buf;
       (r, pr) \<leftarrow> ParsedRequest_parse (errno_einval env) ParsedRequest_create (c_str buf) (int n);
       (if r < 0 then Some (r, pr, new_trace_id env)
        else (case header_value pr ''X-Trace-Id'' of
                Some v \<Rightarrow> Some (r, pr, snprintf 64 v)
              | None \<Rightarrow>
                  do {
                    (_, pr) \<leftarrow> ParsedHeader_set pr ''X-Trace-Id'' (new_trace_id env);
                    Some (r, pr, new_trace_id env)
                  }))
     }"

definition access_status ::
  "('r \<Rightarrow> string \<Rightarrow> bool) \<Rightarrow> request_env \<Rightarrow> 'r proxy_state \<Rightarrow> ParsedRequest \<Rightarrow> nat option option" where
  \<comment> \<open>the checks before the cache is asked: the error sent, or no error\<close>
  "access_status regexec env st pr =
     do {
       authorised \<leftarrow> (if enable_auth (p_cfg st)
                      then check_basic_auth (stack_memory env) (p_auth st) (header_value pr ''Proxy-Authorization'')
                      else Some True);
       (if \<not> authorised then Some (Some 407)
        else do {
          blocked \<leftarrow> (case pr_host pr of
                        Null \<Rightarrow> Some False
                      | p \<Rightarrow> map_option (filter_is_domain_blocked (p_filter st)) (deref p));
          (if blocked then Some (Some 403)
           else do {
             blocked \<leftarrow> (case pr_path pr of
                           Null \<Rightarrow> Some False
                         | p \<Rightarrow> map_option (filter_is_url_blocked regexec (p_filter st)) (deref p));
             Some (if blocked then Some 403 else None)
           })
        })
     }"

section \<open>A cache hit\<close>

function pieces :: "nat \<Rightarrow> string \<Rightarrow> string list" where
  \<comment> \<open>the loop that sends \<^verbatim>\<open>max_bytes\<close> bytes of \<^verbatim>\<open>DATA\<close> at a time; it ends where \<^verbatim>\<open>max_bytes\<close> is not 0\<close>
  "pieces max_len d = (if d = [] \<or> max_len = 0 then [] else take max_len d # pieces max_len (drop max_len d))"
  by pat_completeness auto
termination
  by (relation "measure (\<lambda>(max_len, d). length d)") auto

declare pieces.simps [simp del]

definition logs_info :: "ProxyConfig \<Rightarrow> bool" where
  \<comment> \<open>\<^verbatim>\<open>LOG_INFO\<close> formats its arguments; \<^verbatim>\<open>main\<close> and every reload give the logger the level of \<^verbatim>\<open>g_config\<close>\<close>
  "logs_info cfg \<longleftrightarrow> runtime_log_level (log_level cfg) \<in> {LOG_LEVEL_DEBUG, LOG_LEVEL_INFO}"

definition serve_hit ::
  "bool \<Rightarrow> request_env \<Rightarrow> nat \<Rightarrow> string \<Rightarrow> ServerMetrics \<Rightarrow> (ServerMetrics \<times> string list) option" where
  \<comment> \<open>\<^verbatim>\<open>RESPONSE\<close> is logged as a string after the loop: where the level lets it through, it has to hold a
      NUL, so the loop has to have run and the last piece must not fill the array\<close>
  "serve_hit info env max_len d m =
     (let ps = pieces max_len d
      in if max_len = 0 then None
         else if info \<and> (d = [] \<or> NUL \<notin> set (last ps) \<and> length (last ps) = max_len) then None
         else Some (fold (\<lambda>i. count_bytes (peer_ipv6 env) (hit_send_ret env i)) [0..<length ps] m, ps))"

section \<open>The thread of a client\<close>

datatype thread_exit = Early_return | Fall_through

definition cptr_text :: "cptr \<Rightarrow> string option" where
  \<comment> \<open>the text logged for a field\<close>
  "cptr_text p = (case p of Null \<Rightarrow> Some ''UNKNOWN'' | p \<Rightarrow> deref p)"

definition throw :: "request_env \<Rightarrow> 'r proxy_state \<Rightarrow> nat \<Rightarrow> net_output list" where
  "throw env st status = map To_client (snd (ThrowError (date_text env) (p_filter st) status))"

definition count_error :: "'r proxy_state \<Rightarrow> 'r proxy_state" where
  "count_error st = st\<lparr>p_metrics := metrics_increment_errors (p_metrics st)\<rparr>"

definition dispatch ::
  "request_env \<Rightarrow> ParsedRequest \<Rightarrow> string \<Rightarrow> 'r proxy_state \<Rightarrow> (nat \<times> 'r proxy_state \<times> net_output list) option" where
  \<comment> \<open>a parsed request that the cache does not answer: the status logged, the state, what is sent\<close>
  "dispatch env pr request st =
     do {
       m \<leftarrow> deref (pr_method pr);
       (if m = ''GET''
        then do {
          version \<leftarrow> (if pr_host pr \<noteq> Null \<and> pr_path pr \<noteq> Null
                      then map_option checkHTTPversion (deref (pr_version pr)) else Some (-1));
          (if version = 1
           then do {
             (r, st, out) \<leftarrow> HandleRequest env pr request st;
             Some (if r = -1 then (500, count_error st, out @ throw env st 500) else (200, st, out))
           }
           else Some (500, count_error st, throw env st 500))
        }
        else if m = ''CONNECT''
        then do {
          _ \<leftarrow> server_port (pr_port pr) 443;
          (r, tls, metrics, out) \<leftarrow> HandleConnect (peer_ipv6 env) (tunnel env) (deref (pr_host pr)) (p_tls st) (p_metrics st);
          let st = st\<lparr>p_tls := tls, p_metrics := metrics\<rparr>;
          Some (if r = -1 then (502, count_error st, out @ throw env st 500) else (200, st, out))
        }
        else Some (501, count_error st, throw env st 501))
     }"

definition answer ::
  "('r \<Rightarrow> string \<Rightarrow> bool) \<Rightarrow> request_env \<Rightarrow> string \<Rightarrow> 'r proxy_state \<Rightarrow>
   (thread_exit \<times> 'r proxy_state \<times> net_output list) option" where
  \<comment> \<open>\<^verbatim>\<open>THREAD_ROUTINE\<close> from the parsing of the request on\<close>
  "answer regexec env buf st =
     do {
       let request = c_str buf;
       (r, pr, trace) \<leftarrow> parse_request env (unat (max_bytes (p_cfg st))) buf;
       method \<leftarrow> (if r < 0 then Some ''UNKNOWN'' else cptr_text (pr_method pr));
       url \<leftarrow> (if r < 0 then Some ''UNKNOWN'' else cptr_text (pr_path pr));
       refused \<leftarrow> (if r < 0 then Some None else access_status regexec env st pr);
       (case refused of
          Some status \<Rightarrow>
            do {
              _ \<leftarrow> ParsedRequest_destroy pr;
              Some (Early_return, st, throw env st status @ [Access_log status 0 method url trace])
            }
        | None \<Rightarrow>
            do {
              (hit, c) \<leftarrow> FindCache (find_time env) request (p_cache st);
              let st = st\<lparr>p_cache := c\<rparr>;
              (case hit of
                 Some a \<Rightarrow>
                   do {
                     n \<leftarrow> heap c a;
                     d \<leftarrow> read_buf (entry_data c n) (CLENGTH n);
                     (metrics, ps) \<leftarrow> serve_hit (logs_info (p_cfg st)) env (unat (max_bytes (p_cfg st))) d
                                        (metrics_increment_cache_hits (p_metrics st));
                     _ \<leftarrow> ParsedRequest_destroy pr;
                     Some (Fall_through, st\<lparr>p_metrics := metrics\<rparr>,
                           map To_client ps @ [Access_log 200 0 method url trace])
                   }
               | None \<Rightarrow>
                   if r < 0
                   then
                     do {
                       _ \<leftarrow> ParsedRequest_destroy pr;
                       Some (if prefix ''GET /'' request \<and> \<not> prefix ''GET /http'' request
                             then (Early_return, st, [])
                             else (Fall_through, st, throw env st 400 @ [Access_log 400 0 method url trace]))
                     }
                   else
                     do {
                       (status, st, out) \<leftarrow> dispatch env pr request st;
                       _ \<leftarrow> ParsedRequest_destroy pr;
                       Some (Fall_through, st, out @ [Access_log status 0 method url trace])
                     })
            })
     }"

definition receive ::
  "('r \<Rightarrow> string \<Rightarrow> bool) \<Rightarrow> request_env \<Rightarrow> 'r proxy_state \<Rightarrow>
   (thread_exit \<times> 'r proxy_state \<times> net_output list) option" where
  \<comment> \<open>\<^verbatim>\<open>THREAD_ROUTINE\<close> from the first \<^verbatim>\<open>recv\<close> on\<close>
  "receive regexec env st =
     (let max_len = unat (max_bytes (p_cfg st));
          buf = take max_len (first_recv env)
      in if buf = [] then Some (Early_return, st, [])
         else if is_raw_tls buf
         then Some (Early_return, st, [Access_log 400 0 ''UNKNOWN'' ''UNKNOWN'' ''UNKNOWN''])
         else if \<not> request_alloc_ok env then Some (Early_return, st, [])
         else answer regexec env (read_headers max_len (more_recv env) buf) st)"

definition open_gauges :: "bool \<Rightarrow> ServerMetrics \<Rightarrow> ServerMetrics" where
  "open_gauges v6 m =
     (let m = metrics_increment_active_connections (metrics_increment_requests m)
      in if v6 then metrics_increment_ipv6_requests (metrics_increment_ipv6_active_connections m) else m)"

definition close_gauges :: "bool \<Rightarrow> ServerMetrics \<Rightarrow> ServerMetrics" where
  "close_gauges v6 m =
     metrics_decrement_active_connections (if v6 then metrics_decrement_ipv6_active_connections m else m)"

definition THREAD_ROUTINE ::
  "('r \<Rightarrow> string \<Rightarrow> bool) \<Rightarrow> request_env \<Rightarrow> 'r proxy_state \<Rightarrow> ('r proxy_state \<times> net_output list) option" where
  \<comment> \<open>\<^verbatim>\<open>sem_wait\<close> has returned; what blocks it is in the theory of the accept loop\<close>
  "THREAD_ROUTINE regexec env st =
     do {
       let st = st\<lparr>p_metrics := open_gauges (peer_ipv6 env) (p_metrics st), p_sem := p_sem st - 1\<rparr>;
       (exit, st, out) \<leftarrow> receive regexec env st;
       let st = (case exit of
                   Early_return \<Rightarrow> st
                 | Fall_through \<Rightarrow> st\<lparr>p_metrics := close_gauges (peer_ipv6 env) (p_metrics st)\<rparr>);
       Some (st\<lparr>p_sem := p_sem st + 1\<rparr>, out)
     }"

end
