(* ===== verification/Server.thy ===== *)
theory Server
  imports Proxy
begin

text \<open>
  \<^verbatim>\<open>src/src/Main.c\<close>, the function \<^verbatim>\<open>main\<close>: the order in which the parts are initialised, and the accept
  loop with the threads it starts as a step relation. A thread is started with the address of its
  slot of \<^verbatim>\<open>CONNECTED_SOCKET_ID\<close>, reads the slot some time later, waits for the semaphore, runs and
  posts it.
\<close>

section \<open>Start\<close>

definition startup_file_config ::
  "file_system \<Rightarrow> bool \<Rightarrow> (string \<Rightarrow> string option) \<Rightarrow> bool \<Rightarrow> string list \<Rightarrow> ProxyConfig \<Rightarrow> ProxyConfig" where
  \<comment> \<open>\<^verbatim>\<open>g_config\<close> when \<^verbatim>\<open>sem_init\<close> and \<^verbatim>\<open>Cache_init\<close> are called: the file and the environment are read, the arguments are not\<close>
  "startup_file_config fs enoent getenv etc_ok argv zero =
     config_apply_env getenv
       (snd (config_load_file fs enoent (config_init_defaults zero) (Some (config_choose_file getenv etc_ok argv))))"

definition proxy_start ::
  "file_system \<Rightarrow> bool \<Rightarrow> (string \<Rightarrow> string option) \<Rightarrow> bool \<Rightarrow> string list \<Rightarrow> (string \<Rightarrow> 'r option) \<Rightarrow>
   'r proxy_state \<Rightarrow> 'r proxy_state option" where
  \<comment> \<open>the calls of \<^verbatim>\<open>main\<close> before the sockets are opened; \<^verbatim>\<open>st\<close> holds the static variables\<close>
  "proxy_start fs enoent getenv etc_ok argv regcomp st =
     (let tls = InitOpenSSL (p_cfg st) (p_tls st);
          g0 = startup_file_config fs enoent getenv etc_ok argv (p_cfg st)
      in case config_startup fs enoent getenv etc_ok argv (p_cfg st) of
           None \<Rightarrow> None
         | Some g \<Rightarrow>
             Some (st\<lparr>p_cfg := g, p_tls := tls, p_sem := max_clients g0, p_cache := Cache_init g0 (p_cache st),
                      p_auth := auth_init fs g (p_auth st), p_filter := filter_init fs regcomp g (p_filter st),
                      p_metrics := metrics_init\<rparr>))"

section \<open>The accept loop and its threads\<close>

datatype phase = Created | Waiting int | Running int | Finished

record server =
  slots :: "int option list" \<comment> \<open>\<^verbatim>\<open>CONNECTED_SOCKET_ID\<close>, uninitialised at first\<close>
  ITERATOR :: nat
  threads :: "(int \<times> phase) list" \<comment> \<open>per thread the socket it was started for and where it is\<close>
  sem_value :: int

definition server_init :: "int \<Rightarrow> int \<Rightarrow> server" where
  "server_init clients limit =
     \<lparr>slots = replicate (nat clients) None, ITERATOR = 0, threads = [], sem_value = limit\<rparr>"

definition accept_connection :: "auth_state \<Rightarrow> string \<Rightarrow> int \<Rightarrow> server \<Rightarrow> server option" where
  \<comment> \<open>one turn of the loop after \<^verbatim>\<open>accept\<close> returned \<^verbatim>\<open>fd\<close>; \<^verbatim>\<open>None\<close> where the slot is outside the array\<close>
  "accept_connection a ipstr fd s =
     (if ITERATOR s \<ge> length (slots s) then None
      else (case check_ip_allowed a ipstr of
              None \<Rightarrow> None
            | Some False \<Rightarrow> Some (s\<lparr>slots := (slots s)[ITERATOR s := Some 0]\<rparr>)
            | Some True \<Rightarrow>
                Some (s\<lparr>slots := (slots s)[ITERATOR s := Some fd], threads := threads s @ [(fd, Created)],
                        ITERATOR := ITERATOR s + 1\<rparr>)))"

inductive server_step :: "auth_state \<Rightarrow> server \<Rightarrow> server \<Rightarrow> bool" for a where
  accept_step: "accept_connection a ipstr fd s = Some t \<Longrightarrow> server_step a s t"
| read_slot: "i < length (threads s) \<Longrightarrow> threads s ! i = (fd, Created) \<Longrightarrow> slots s ! i = Some x \<Longrightarrow>
    server_step a s (s\<lparr>threads := (threads s)[i := (fd, Waiting x)]\<rparr>)"
| sem_wait: "i < length (threads s) \<Longrightarrow> threads s ! i = (fd, Waiting x) \<Longrightarrow> 0 < sem_value s \<Longrightarrow>
    server_step a s (s\<lparr>threads := (threads s)[i := (fd, Running x)], sem_value := sem_value s - 1\<rparr>)"
| sem_post: "i < length (threads s) \<Longrightarrow> threads s ! i = (fd, Running x) \<Longrightarrow>
    server_step a s (s\<lparr>threads := (threads s)[i := (fd, Finished)], sem_value := sem_value s + 1\<rparr>)"

inductive_cases server_stepE: "server_step a s t"

inductive reachable :: "auth_state \<Rightarrow> int \<Rightarrow> int \<Rightarrow> server \<Rightarrow> bool" for a clients limit where
  start: "reachable a clients limit (server_init clients limit)"
| step: "reachable a clients limit s \<Longrightarrow> server_step a s t \<Longrightarrow> reachable a clients limit t"

definition running :: "int \<times> phase \<Rightarrow> bool" where
  "running th \<longleftrightarrow> (case snd th of Running _ \<Rightarrow> True | _ \<Rightarrow> False)"

section \<open>Requests and configuration changes in sequence\<close>

datatype proxy_event =
    Client request_env
  | Config_written file_system bool string ProxyConfig
    \<comment> \<open>the files, whether a missing file is reported as such, the path, the memory of \<^verbatim>\<open>parsed_cfg\<close>\<close>

definition serve_event ::
  "(string \<Rightarrow> string option) \<Rightarrow> (string \<Rightarrow> 'r option) \<Rightarrow> ('r \<Rightarrow> string \<Rightarrow> bool) \<Rightarrow>
   proxy_event \<Rightarrow> 'r proxy_state \<Rightarrow> 'r proxy_state option" where
  "serve_event getenv regcomp regexec ev st =
     (case ev of
        Client env \<Rightarrow> map_option fst (THREAD_ROUTINE regexec env st)
      | Config_written fs enoent path junk \<Rightarrow>
          (case config_hot_reload fs enoent getenv regcomp path junk (p_cfg st, p_filter st) of
             (g, f) \<Rightarrow> Some (st\<lparr>p_cfg := g, p_filter := f\<rparr>)))"

end
