(* ===== verification/Proxy_Laws.thy ===== *)
theory Proxy_Laws
  imports Server Http2_Laws ProxyParse_Laws Cache_Ops Filter_Laws Machine
begin

text \<open>
  Lemmas on the request handler: the relay loop, the forwarded headers, the connection to the end
  server, the pieces of a cache hit, and what a client thread leaves unchanged.
\<close>

section \<open>The relay loop\<close>

abbreviation received :: "relay_event list \<Rightarrow> string" where
  "received es \<equiv> concat (map chunk es)"

definition relay_ok :: "nat \<Rightarrow> relay_state \<Rightarrow> bool" where
  \<comment> \<open>the bytes received leave room for the terminator\<close>
  "relay_ok max_len s \<longleftrightarrow> max_len \<le> capacity s \<and> allocated s = capacity s \<and> length (response s) < capacity s"

definition stops :: "'r filter_state \<Rightarrow> string \<Rightarrow> bool" where
  "stops f r \<longleftrightarrow> headers_complete r \<and> type_blocked f r"

definition relay_start :: "nat \<Rightarrow> ServerMetrics \<Rightarrow> relay_state" where
  "relay_start max_len m =
     \<lparr>response = [], capacity = max_len, allocated = max_len, sent = [], ct_blocked = False, relay_metrics = m\<rparr>"

definition needs_room :: "relay_event \<Rightarrow> relay_state \<Rightarrow> bool" where
  "needs_room e s \<longleftrightarrow> length (response s) + length (chunk e) + 1 > capacity s"

definition stored :: "relay_event \<Rightarrow> relay_state \<Rightarrow> relay_state" where
  \<comment> \<open>the state after the chunk was appended to \<^verbatim>\<open>RESPONSE\<close>\<close>
  "stored e s =
     (if needs_room e s then s\<lparr>capacity := capacity s * 2, allocated := capacity s * 2\<rparr> else s)
       \<lparr>response := response s @ chunk e\<rparr>"

definition passed :: "bool \<Rightarrow> relay_event \<Rightarrow> relay_state \<Rightarrow> relay_state" where
  \<comment> \<open>the state after the chunk was sent to the client\<close>
  "passed v6 e s =
     (stored e s)\<lparr>sent := sent s @ [chunk e], relay_metrics := count_bytes v6 (send_ret e) (relay_metrics s)\<rparr>"

lemma stored_sel [simp]:
  "response (stored e s) = response s @ chunk e" "sent (stored e s) = sent s" "ct_blocked (stored e s) = ct_blocked s"
  "relay_metrics (stored e s) = relay_metrics s"
  "response (passed v6 e s) = response s @ chunk e" "sent (passed v6 e s) = sent s @ [chunk e]"
  "ct_blocked (passed v6 e s) = ct_blocked s"
  by (simp_all add: stored_def passed_def)

lemma relay_step:
  assumes "relay_ok max_len s" "length (chunk e) \<le> max_len"
  shows "relay f v6 (e # es) s =
     (if needs_room e s \<and> \<not> realloc_ok e then Some (s\<lparr>capacity := capacity s * 2\<rparr>)
      else if stops f (response s @ chunk e) then Some ((stored e s)\<lparr>ct_blocked := True\<rparr>)
      else if send_ret e < 0 then Some (passed v6 e s) else relay f v6 es (passed v6 e s))"
  using assms by (auto simp: Let_def stops_def stored_def passed_def needs_room_def relay_ok_def)

lemma relay_ok_stored:
  assumes "relay_ok max_len s" "length (chunk e) \<le> max_len"
  shows "relay_ok max_len (stored e s)" "relay_ok max_len (passed v6 e s)"
  using assms by (auto simp: stored_def passed_def needs_room_def relay_ok_def)

lemma relay_safe:
  assumes "list_all (\<lambda>e. length (chunk e) \<le> max_len) es" "relay_ok max_len s"
  shows "\<exists>t. relay f v6 es s = Some t \<and> length (response t) < allocated t"
  using assms
proof (induction es arbitrary: s)
  case (Cons e es)
  then have le: "length (chunk e) \<le> max_len" by simp
  have ok: "length (response s) < allocated s" "length (response (stored e s)) < allocated (stored e s)"
    "length (response (passed v6 e s)) < allocated (passed v6 e s)"
    using Cons.prems(2) relay_ok_stored [OF Cons.prems(2) le] by (auto simp: relay_ok_def)
  show ?case
    using Cons.IH [OF _ relay_ok_stored(2) [OF Cons.prems(2) le]] Cons.prems(1) ok
    unfolding relay_step [OF Cons.prems(2) le] by auto
qed (simp add: relay_ok_def)

definition cut_at :: "'r filter_state \<Rightarrow> relay_event list \<Rightarrow> relay_state \<Rightarrow> nat \<Rightarrow> relay_state \<Rightarrow> bool" where
  \<comment> \<open>the loop handled \<^verbatim>\<open>k\<close> chunks; all of them were sent, but the last one where it stopped the relay\<close>
  "cut_at f es s k t \<longleftrightarrow>
     k \<le> length es \<and> response t = response s @ received (take k es) \<and>
     (if ct_blocked t
      then k \<noteq> 0 \<and> sent t = sent s @ map chunk (take (k - 1) es) \<and> stops f (response t)
      else sent t = sent s @ map chunk (take k es)) \<and>
     (\<forall>j. 0 < j \<and> j < k \<longrightarrow> \<not> stops f (response s @ received (take j es)) \<and> 0 \<le> send_ret (es ! (j - 1)))"

lemma cut_at_Cons:
  assumes "cut_at f es (passed v6 e s) k t" "\<not> stops f (response s @ chunk e)" "0 \<le> send_ret e"
  shows "cut_at f (e # es) s (Suc k) t"
proof -
  have "\<not> stops f (response s @ received (take j (e # es))) \<and> 0 \<le> send_ret ((e # es) ! (j - 1))"
    if "0 < j" "j < Suc k" for j
  proof (cases "j = 1")
    case False
    with that obtain i where "j = Suc i" "0 < i" by (cases j) auto
    with assms(1) that show ?thesis by (auto simp: cut_at_def)
  qed (use assms in simp)
  moreover have "take k (e # es) = e # take (k - 1) es" if "k \<noteq> 0" using that by (cases k) simp_all
  ultimately show ?thesis using assms(1) by (auto simp: cut_at_def)
qed

lemma relay_prefix:
  assumes "relay f v6 es s = Some t" "list_all (\<lambda>e. length (chunk e) \<le> max_len) es" "relay_ok max_len s"
    "\<not> ct_blocked s"
  shows "\<exists>k. cut_at f es s k t"
  using assms
proof (induction es arbitrary: s)
  case (Cons e es)
  then have le: "length (chunk e) \<le> max_len" by simp
  let ?r = "response s @ chunk e"
  consider (fail) "t = s\<lparr>capacity := capacity s * 2\<rparr>" | (block) "stops f ?r" "t = (stored e s)\<lparr>ct_blocked := True\<rparr>"
    | (final) "t = passed v6 e s"
    | (more) "\<not> stops f ?r" "0 \<le> send_ret e" "relay f v6 es (passed v6 e s) = Some t"
    using Cons.prems(1) unfolding relay_step [OF Cons.prems(3) le] by (auto split: if_splits)
  then show ?case
  proof cases
    case fail
    with Cons.prems(4) show ?thesis by (intro exI [of _ 0]) (simp add: cut_at_def)
  next
    case block
    then show ?thesis by (intro exI [of _ 1]) (simp add: cut_at_def)
  next
    case final
    with Cons.prems(4) show ?thesis by (intro exI [of _ 1]) (simp add: cut_at_def)
  next
    case more
    from Cons.prems have "list_all (\<lambda>e. length (chunk e) \<le> max_len) es" "\<not> ct_blocked (passed v6 e s)" by simp_all
    from Cons.IH [OF more(3) this(1) relay_ok_stored(2) [OF Cons.prems(3) le] this(2)] obtain k where
      "cut_at f es (passed v6 e s) k t" ..
    from cut_at_Cons [OF this more(1,2)] show ?thesis ..
  qed
qed (simp add: cut_at_def)

lemma relay_complete:
  assumes "list_all (\<lambda>e. length (chunk e) \<le> max_len \<and> realloc_ok e \<and> 0 \<le> send_ret e) es" "relay_ok max_len s"
    and "\<And>j. 0 < j \<Longrightarrow> j \<le> length es \<Longrightarrow> \<not> stops f (response s @ received (take j es))"
  shows "\<exists>t. relay f v6 es s = Some t \<and> response t = response s @ received es \<and>
    sent t = sent s @ map chunk es \<and> ct_blocked t = ct_blocked s"
  using assms
proof (induction es arbitrary: s)
  case (Cons e es)
  then have le: "length (chunk e) \<le> max_len" by simp
  let ?u = "passed v6 e s"
  have "\<not> stops f (response ?u @ received (take j es))" if "0 < j" "j \<le> length es" for j
    using Cons.prems(3) [of "Suc j"] that by simp
  with Cons.IH [OF _ relay_ok_stored(2) [OF Cons.prems(2) le]] Cons.prems(1) obtain t where
    t: "relay f v6 es ?u = Some t" "response t = response ?u @ received es" "sent t = sent ?u @ map chunk es"
      "ct_blocked t = ct_blocked ?u" by auto
  have "\<not> stops f (response s @ chunk e)" using Cons.prems(3) [of 1] by simp
  then have "relay f v6 (e # es) s = relay f v6 es ?u"
    using Cons.prems(1) unfolding relay_step [OF Cons.prems(2) le] by simp
  with t show ?case by simp
qed simp

section \<open>The forwarded request\<close>

lemma set_frame:
  assumes "headers_ok pr" "ParsedHeader_set pr k v = Some (r, t)"
  shows "pr_host t = pr_host pr" "pr_port t = pr_port pr" "pr_path t = pr_path pr" "pr_version t = pr_version pr"
    "pr_buf t = pr_buf pr" "pr_method t = pr_method pr" "headers_ok t" "r = 0"
  using assms set_ok [OF assms(1), of k v] set_headers [of pr k v] by (auto simp: headers_ok_def)

definition names_local_host :: "string \<Rightarrow> bool" where
  "names_local_host v \<longleftrightarrow> strstr v ''localhost'' \<noteq> None \<or> strstr v ''127.0.0.1'' \<noteq> None"

definition forwarded_table :: "string \<Rightarrow> (string \<Rightarrow> string option) \<Rightarrow> string \<Rightarrow> string option" where
  \<comment> \<open>the headers the end server should see, from the headers of the client and the host of the request\<close>
  "forwarded_table host tbl =
     (let tbl = (tbl(''Connection'' \<mapsto> ''close''))(''Proxy-Connection'' := None)
      in case tbl ''Host'' of
           None \<Rightarrow> tbl(''Host'' \<mapsto> host)
         | Some v \<Rightarrow> if names_local_host v then tbl(''Host'' \<mapsto> host) else tbl)"

lemma forward_headers_law:
  assumes "headers_ok pr" "pr_host pr = Str h"
  shows "\<exists>t. forward_headers pr = Some t \<and> headers_ok t \<and> header_value t = forwarded_table h (header_value pr) \<and>
    pr_host t = pr_host pr \<and> pr_port t = pr_port pr \<and> pr_buf t = pr_buf pr"
proof -
  from set_ok [OF assms(1)] obtain s where s: "ParsedHeader_set pr ''Connection'' ''close'' = Some (0, s)" by blast
  let ?d = "snd (ParsedHeader_remove s ''Proxy-Connection'')"
  note f = set_frame [OF assms(1) s] and v = set_value [OF assms(1) s]
  have d: "headers_ok ?d" "header_value ?d = ((header_value pr)(''Connection'' \<mapsto> ''close''))(''Proxy-Connection'' := None)"
    using header_table.del_ok [OF f(7)] header_table.look_del [OF f(7)] v by simp_all
  from set_ok [OF d(1)] obtain t where t: "ParsedHeader_set ?d ''Host'' h = Some (0, t)" by blast
  show ?thesis
    using s t d f set_value [OF d(1) t] set_frame [OF d(1) t] assms(2)
    by (auto simp: forward_headers_def forwarded_table_def names_local_host_def Let_def frame split: option.split)
qed

lemma forward_request_law:
  assumes "headers_ok pr" "pr_host pr = Str h" "pr_path pr = Str p" "pr_version pr = Str v" "pr_buf pr \<noteq> None"
    and t: "forward_headers pr = Some t"
    and fits: "length p + length v + 7 + ParsedHeader_headersLen t + 1 \<le> max_len"
  shows "forward_request max_len pr =
    Some (c_str (''GET '' @ p @ '' '' @ v @ CRLF @ concat (map header_line (headers t)) @ CRLF), t)"
proof -
  from forward_headers_law [OF assms(1,2)] t assms(5) have "pr_buf t \<noteq> None" by auto
  then have "ParsedRequest_unparse_headers t n = (0, concat (map header_line (headers t)) @ CRLF @ [NUL])"
    if "ParsedHeader_headersLen t \<le> n" for n
    using that by (simp add: ParsedRequest_unparse_headers_def ParsedHeader_printHeaders_def)
  moreover have "ParsedHeader_headersLen t = length (concat (map header_line (headers t))) + 2"
    using \<open>pr_buf t \<noteq> None\<close> by (simp add: ParsedHeader_headersLen_def concat_header_lines)
  moreover have "c_str (xs @ [NUL]) = c_str xs" for xs by (induction xs) (simp_all add: c_str_def)
  from this [of "''GET '' @ p @ '' '' @ v @ CRLF @ concat (map header_line (headers t)) @ CRLF"]
  have "c_str (''GET '' @ p @ '' '' @ v @ CRLF @ concat (map header_line (headers t)) @ CRLF @ [NUL]) =
      c_str (''GET '' @ p @ '' '' @ v @ CRLF @ concat (map header_line (headers t)) @ CRLF)" by simp
  ultimately show ?thesis
    using assms(3,4) t fits by (simp add: forward_request_def Let_def)
qed

section \<open>What a client thread leaves alone\<close>

definition same_rest :: "'r proxy_state \<Rightarrow> 'r proxy_state \<Rightarrow> bool" where
  "same_rest st st' \<longleftrightarrow>
     p_cfg st' = p_cfg st \<and> p_filter st' = p_filter st \<and> p_auth st' = p_auth st \<and> p_sem st' = p_sem st \<and>
     verify_peer (p_tls st') = verify_peer (p_tls st)"

lemma same_rest_refl [simp]: "same_rest st st"
  by (simp add: same_rest_def)

lemma same_rest_trans: "same_rest st st' \<Longrightarrow> same_rest st' st'' \<Longrightarrow> same_rest st st''"
  by (simp add: same_rest_def)

lemma same_rest_upd [simp]:
  "same_rest st (st'\<lparr>p_metrics := m\<rparr>) = same_rest st st'" "same_rest st (st'\<lparr>p_cache := c\<rparr>) = same_rest st st'"
  "same_rest st (count_error st') = same_rest st st'"
  by (simp_all add: same_rest_def count_error_def)

lemma get_or_create_cert_verify [simp]:
  "verify_peer (snd (get_or_create_cert h st)) = verify_peer st"
  by (auto simp: get_or_create_cert_def Let_def split: option.split)

lemma sni_callback_verify [simp]: "verify_peer (snd (sni_callback h st)) = verify_peer st"
  by (auto simp: sni_callback_def split: option.split)

lemma HandleConnect_verify:
  "HandleConnect v6 env host st m = Some (r, st', m', out) \<Longrightarrow> verify_peer st' = verify_peer st"
  by (auto simp: HandleConnect_def Let_def split: option.splits if_splits prod.splits)

lemma HandleRequest_rest:
  "HandleRequest env pr request st = Some (r, st', out) \<Longrightarrow> same_rest st st'"
  by (auto simp: HandleRequest_def Let_def split: if_splits Option.bind_splits)

lemma dispatch_rest:
  assumes "dispatch env pr request st = Some (status, st', out)"
  shows "same_rest st st'"
  using assms
  by (auto simp: dispatch_def Let_def split: if_splits Option.bind_splits prod.splits dest!: HandleRequest_rest)
     (auto simp: same_rest_def count_error_def dest: HandleConnect_verify)

lemma answer_rest: "answer regexec env buf st = Some (e, st', out) \<Longrightarrow> same_rest st st'"
  unfolding answer_def Let_def
  by (auto split: if_splits Option.bind_splits option.splits prod.splits
      dest!: dispatch_rest) (auto simp: same_rest_def)

lemma receive_rest: "receive regexec env st = Some (e, st', out) \<Longrightarrow> same_rest st st'"
  by (auto simp: receive_def Let_def split: if_splits dest: answer_rest)

lemma THREAD_ROUTINE_rest: "THREAD_ROUTINE regexec env st = Some (st', out) \<Longrightarrow> same_rest st st'"
  by (auto simp: THREAD_ROUTINE_def same_rest_def Let_def split: Option.bind_splits thread_exit.splits
      dest!: receive_rest)

section \<open>The connection gauges\<close>

definition gauges :: "ServerMetrics \<Rightarrow> i32 \<times> i32" where
  "gauges m = (active_connections m, ipv6_active_connections m)"

lemma count_bytes_gauges [simp]: "gauges (count_bytes v6 n m) = gauges m"
  by (simp add: count_bytes_def gauges_def metrics_add_bytes_def metrics_add_ipv6_bytes_def Let_def)

lemma errors_gauges [simp]: "gauges (metrics_increment_errors m) = gauges m"
  by (simp add: gauges_def metrics_increment_errors_def)

lemma hits_gauges [simp]: "gauges (metrics_increment_cache_hits m) = gauges m"
  by (simp add: gauges_def metrics_increment_cache_hits_def)

lemma count_error_gauges [simp]: "gauges (p_metrics (count_error st)) = gauges (p_metrics st)"
  by (simp add: count_error_def)

lemma relay_gauges: "relay f v6 es s = Some t \<Longrightarrow> gauges (relay_metrics t) = gauges (relay_metrics s)"
proof (induction es arbitrary: s)
  case (Cons e es)
  from Cons.prems show ?case by (auto simp: Let_def split: if_splits dest!: Cons.IH)
qed simp

lemma drain_gauges: "gauges (snd (snd (drain v6 rs m))) = gauges m"
  by (induction v6 rs m rule: drain.induct) (auto simp: Let_def split: prod.splits)

lemma poll_step_gauges: "gauges (snd (snd (poll_step v6 r m))) = gauges m"
  using drain_gauges [of v6 "client_reads r" m] drain_gauges [of v6 "server_reads r"]
  by (auto simp: poll_step_def split: prod.splits) (metis snd_conv)+

lemma pump_gauges: "gauges (snd (pump v6 rs m)) = gauges m"
proof (induction v6 rs m rule: pump.induct)
  case (2 v6 r rs m)
  then show ?case using poll_step_gauges [of v6 r m] by (auto split: prod.splits)
qed simp

text \<open>An HTTP/2 connection touches no gauge but its own.\<close>

lemma upd_stream_metrics [simp]: "h2_metrics (upd_stream sid f conn) = h2_metrics conn"
  by (simp add: upd_stream_def)

lemma get_stream_metrics: "http2_get_stream al sid conn = (b, c) \<Longrightarrow> h2_metrics c = h2_metrics conn"
  by (auto simp: http2_get_stream_def Let_def split: if_splits option.splits)

lemma complete_request_gauges [simp]: "gauges (h2_metrics (complete_request sid conn)) = gauges (h2_metrics conn)"
  by (simp add: complete_request_def count_request_def gauges_def metrics_increment_http2_requests_def)

lemma callback_gauges: "h2_callback al ev conn = (b, c) \<Longrightarrow> gauges (h2_metrics c) = gauges (h2_metrics conn)"
  by (cases ev)
    (auto simp: on_begin_headers_callback_def on_header_callback_def on_data_chunk_recv_callback_def
      on_frame_recv_callback_def Let_def
      split: prod.splits bool.splits if_splits frame_type.splits dest!: get_stream_metrics)

lemma callbacks_gauges: "h2_callbacks evs conn = (b, c) \<Longrightarrow> gauges (h2_metrics c) = gauges (h2_metrics conn)"
proof (induction evs conn rule: h2_callbacks.induct)
  case (2 al ev evs conn)
  obtain ok d where step: "h2_callback al ev conn = (ok, d)" by (cases "h2_callback al ev conn")
  show ?case
  proof (cases ok)
    case True
    with step "2.prems" have "h2_callbacks evs d = (b, c)" by simp
    with step True have "gauges (h2_metrics c) = gauges (h2_metrics d)" using "2.IH" by simp
    with callback_gauges [OF step] show ?thesis by simp
  next
    case False
    with step "2.prems" callback_gauges [OF step] show ?thesis by simp
  qed
qed simp

lemma input_gauges:
  "http2_process_input evs recv_ok len conn = (r, c) \<Longrightarrow> gauges (h2_metrics c) = gauges (h2_metrics conn)"
  by (auto simp: http2_process_input_def gauges_def [of "metrics_add_http2_bytes n m" for n m] metrics_add_http2_bytes_def
      gauges_def dest!: callbacks_gauges split: prod.splits if_splits)

lemma process_streams_metrics:
  "process_streams envs i conn = Some (c, out) \<Longrightarrow> h2_metrics c = h2_metrics conn"
proof (induction envs arbitrary: i conn out)
  case (Cons env envs)
  from Cons.prems show ?case by (cases rule: process_streams_step) (use Cons.IH in fastforce)+
qed simp

lemma loop_gauges:
  "http2_loop ts conn = Some (c, out) \<Longrightarrow> gauges (h2_metrics c) = gauges (h2_metrics conn)"
proof (induction ts arbitrary: conn out)
  case (Cons t ts)
  from Cons.prems show ?case
  proof (cases rule: loop_turn)
    case (pass evs recv_ok len e d o1)
    have "gauges (h2_metrics d) = gauges (h2_metrics conn)"
      using input_gauges [OF pass(2)] pass(3) process_streams_metrics by fastforce
    with pass(4) Cons.IH show ?thesis by metis
  qed (auto dest: Cons.IH input_gauges)
qed simp

lemma http2_connection_gauges:
  "handle_http2_connection ienv ts m = Some (m', out) \<Longrightarrow> gauges m' = gauges m"
  by (auto simp: handle_http2_connection_def http2_init_context_def Let_def metrics_increment_http2_active_connections_def
      metrics_decrement_http2_active_connections_def http2_conn_init_def gauges_def
      dest!: loop_gauges [unfolded gauges_def] split: if_splits option.splits)

lemma HandleConnect_gauges:
  "HandleConnect v6 env host st m = Some (r, st', m', out) \<Longrightarrow> gauges m' = gauges m"
  using pump_gauges [of v6 "rounds env" m]
  by (auto simp: HandleConnect_def Let_def split: option.splits if_splits prod.splits dest!: http2_connection_gauges)

lemma HandleRequest_gauges:
  "HandleRequest env pr request st = Some (r, st', out) \<Longrightarrow> gauges (p_metrics st') = gauges (p_metrics st)"
  by (auto simp: HandleRequest_def Let_def split: if_splits Option.bind_splits dest!: relay_gauges)

lemma dispatch_gauges:
  assumes "dispatch env pr request st = Some (status, st', out)"
  shows "gauges (p_metrics st') = gauges (p_metrics st)"
  using assms
  by (auto simp: dispatch_def Let_def split: if_splits Option.bind_splits prod.splits
      dest!: HandleRequest_gauges HandleConnect_gauges)

lemma fold_gauges: "(\<And>i m. gauges (g i m) = gauges m) \<Longrightarrow> gauges (fold g xs m) = gauges m"
  by (induction xs arbitrary: m) simp_all

lemma serve_hit_gauges: "serve_hit info env n d m = Some (m', ps) \<Longrightarrow> gauges m' = gauges m"
  by (auto simp: serve_hit_def Let_def fold_gauges split: if_splits)

lemma answer_gauges:
  "answer regexec env buf st = Some (e, st', out) \<Longrightarrow>
     gauges (p_metrics st') = gauges (p_metrics st)"
  unfolding answer_def Let_def
  by (auto split: if_splits Option.bind_splits option.splits prod.splits
      dest!: dispatch_gauges serve_hit_gauges)

lemma receive_gauges:
  "receive regexec env st = Some (e, st', out) \<Longrightarrow>
     gauges (p_metrics st') = gauges (p_metrics st)"
  by (auto simp: receive_def Let_def split: if_splits dest: answer_gauges)

lemma sint_plus_1:
  assumes "0 \<le> sint (w :: i32)" "sint w < 2 ^ 31 - 1"
  shows "sint (w + 1) = sint w + 1"
  using assms by (simp add: sint_word_ariths signed_take_bit_int_eq_self)

lemma close_open_gauges:
  assumes "gauges m' = gauges (open_gauges v6 m)"
    and "0 \<le> sint (active_connections m)" "sint (active_connections m) < 2 ^ 31 - 1"
    and "0 \<le> sint (ipv6_active_connections m)" "sint (ipv6_active_connections m) < 2 ^ 31 - 1"
  shows "gauges (close_gauges v6 m') = gauges m"
  using assms sint_plus_1 [OF assms(2,3)] sint_plus_1 [OF assms(4,5)]
  by (auto simp: gauges_def open_gauges_def close_gauges_def Let_def metrics_increment_active_connections_def
      metrics_increment_requests_def metrics_increment_ipv6_requests_def
      metrics_increment_ipv6_active_connections_def metrics_decrement_active_connections_def
      metrics_decrement_ipv6_active_connections_def)

section \<open>Connecting\<close>

lemma first_connected_iff:
  "first_connected skip rps = Some rp \<longleftrightarrow>
     (\<exists>us vs. rps = us @ rp # vs \<and> \<not> skip (ai_addr rp) \<and> socket_ok rp \<and> connect_ok rp \<and>
        (\<forall>u \<in> set us. skip (ai_addr u) \<or> \<not> socket_ok u \<or> \<not> connect_ok u))" (is "?L rps \<longleftrightarrow> ?R rps")
proof (induction rps)
  case (Cons r rps)
  let ?bad = "skip (ai_addr r) \<or> \<not> socket_ok r \<or> \<not> connect_ok r"
  have "?R (r # rps) \<longleftrightarrow> (if ?bad then ?R rps else rp = r)"
    by (auto simp: Cons_eq_append_conv) (metis append_Cons list.set_intros(1) set_ConsD)+
  with Cons show ?case by auto
qed simp

lemma first_connected_None:
  "first_connected skip rps = None \<longleftrightarrow> (\<forall>u \<in> set rps. skip (ai_addr u) \<or> \<not> socket_ok u \<or> \<not> connect_ok u)"
  by (induction rps) auto

section \<open>A cache hit\<close>

lemma concat_pieces: "0 < n \<Longrightarrow> concat (pieces n d) = d"
proof (induction n d rule: pieces.induct)
  case (1 n d)
  then show ?case by (subst pieces.simps) (auto simp: pieces.simps [of _ "[]"])
qed

lemma pieces_bound: "list_all (\<lambda>p. 0 < length p \<and> length p \<le> n) (pieces n d)"
proof (induction n d rule: pieces.induct)
  case (1 n d)
  then show ?case by (subst pieces.simps) auto
qed

lemma last_piece_length:
  "0 < n \<Longrightarrow> d \<noteq> [] \<Longrightarrow> pieces n d \<noteq> [] \<and> length (last (pieces n d)) = Suc ((length d - 1) mod n)"
proof (induction n d rule: pieces.induct)
  case (1 n d)
  have eq: "pieces n d = take n d # pieces n (drop n d)" using "1.prems" by (subst pieces.simps) simp
  show ?case
  proof (cases "length d \<le> n")
    case True
    with "1.prems" eq have "pieces n d = [d]" "(length d - 1) mod n = length d - 1"
      by (simp_all add: pieces.simps [of n "[]"])
    with "1.prems" show ?thesis by simp
  next
    case False
    then have "(length d - 1) mod n = (length d - 1 - n) mod n" by (intro le_mod_geq) simp
    with "1.IH" "1.prems" False show ?thesis by (simp add: eq)
  qed
qed

lemma last_piece_full: "0 < n \<Longrightarrow> d \<noteq> [] \<Longrightarrow> length (last (pieces n d)) = n \<longleftrightarrow> n dvd length d"
  using last_piece_length [of n d]
  by (cases "length d") (auto simp: dvd_eq_mod_eq_0 mod_Suc)

end
