(* ===== verification/Server_Laws.thy ===== *)
theory Server_Laws
  imports Proxy_Laws Config_Laws
begin

text \<open>
  The accept loop: the invariant of the slots, the threads and the semaphore; and the settings that
  no sequence of requests and reloads changes.
\<close>

section \<open>Slots, threads and the semaphore\<close>

fun own_socket :: "int \<times> phase \<Rightarrow> bool" where
  "own_socket (fd, Waiting x) \<longleftrightarrow> x = fd"
| "own_socket (fd, Running x) \<longleftrightarrow> x = fd"
| "own_socket (fd, _) \<longleftrightarrow> True"

definition running_count :: "server \<Rightarrow> nat" where
  "running_count s = length (filter running (threads s))"

definition server_ok :: "int \<Rightarrow> int \<Rightarrow> server \<Rightarrow> bool" where
  "server_ok clients limit s \<longleftrightarrow>
     length (slots s) = nat clients \<and> ITERATOR s = length (threads s) \<and> ITERATOR s \<le> nat clients \<and>
     (\<forall>i < length (threads s). slots s ! i = Some (fst (threads s ! i)) \<and> own_socket (threads s ! i)) \<and>
     sem_value s + int (running_count s) = limit \<and> (0 \<le> limit \<longrightarrow> 0 \<le> sem_value s)"

lemma running_simps [simp]:
  "running (fd, Created) = False" "running (fd, Waiting x) = False" "running (fd, Running x) = True"
  "running (fd, Finished) = False"
  by (simp_all add: running_def)

lemma filter_update:
  "i < length xs \<Longrightarrow> length (filter P (xs[i := y])) + of_bool (P (xs ! i)) = length (filter P xs) + of_bool (P y)"
proof (induction xs arbitrary: i)
  case (Cons x xs)
  then show ?case using Cons.IH [of "i - 1"] by (cases i) auto
qed simp

lemma server_ok_thread:
  assumes "server_ok clients limit s" "i < length (threads s)" "fst th = fst (threads s ! i)" "own_socket th"
    and "v + of_bool (running th) = sem_value s + of_bool (running (threads s ! i))" "0 \<le> limit \<longrightarrow> 0 \<le> v"
  shows "server_ok clients limit (s\<lparr>threads := (threads s)[i := th], sem_value := v\<rparr>)"
proof -
  let ?t = "s\<lparr>threads := (threads s)[i := th], sem_value := v\<rparr>"
  have "int (running_count ?t) + of_bool (running (threads s ! i)) = int (running_count s) + of_bool (running th)"
    using arg_cong [OF filter_update [OF assms(2), of running th], of int] by (simp add: running_count_def)
  moreover have "sem_value s + int (running_count s) = limit" using assms(1) by (simp add: server_ok_def)
  ultimately have sem: "sem_value ?t + int (running_count ?t) = limit" using assms(5) by simp
  have "slots ?t ! j = Some (fst (threads ?t ! j)) \<and> own_socket (threads ?t ! j)" if "j < length (threads ?t)" for j
    using that assms(1-4) by (cases "j = i") (auto simp: server_ok_def)
  then show ?thesis using assms(1,6) sem by (simp add: server_ok_def)
qed

lemma accept_ok:
  assumes "server_ok clients limit s" "accept_connection a ipstr fd s = Some t"
  shows "server_ok clients limit t"
proof -
  let ?n = "length (threads s)"
  from assms(2) consider
      (denied) "?n < nat clients" "t = s\<lparr>slots := (slots s)[?n := Some 0]\<rparr>"
    | (started) "?n < nat clients" "t = s\<lparr>slots := (slots s)[?n := Some fd], threads := threads s @ [(fd, Created)],
        ITERATOR := ?n + 1\<rparr>"
    using assms(1) by (auto simp: accept_connection_def server_ok_def split: if_splits option.splits bool.splits)
  then show ?thesis
    using assms(1) by cases (auto simp: server_ok_def running_count_def nth_append less_Suc_eq)
qed

lemma server_step_ok:
  assumes "server_step a s t" "server_ok clients limit s"
  shows "server_ok clients limit t"
  using assms
proof cases
  case (accept_step ipstr fd)
  then show ?thesis using assms(2) by (blast intro: accept_ok)
next
  case (read_slot i fd x)
  then show ?thesis
    using server_ok_thread [OF assms(2), of i "(fd, Waiting x)" "sem_value s"] assms(2)
    by (auto simp: server_ok_def)
next
  case (sem_wait i fd x)
  then show ?thesis
    using server_ok_thread [OF assms(2), of i "(fd, Running x)" "sem_value s - 1"] assms(2)
    by (auto simp: server_ok_def)
next
  case (sem_post i fd x)
  then show ?thesis
    using server_ok_thread [OF assms(2), of i "(fd, Finished)" "sem_value s + 1"] assms(2)
    by (auto simp: server_ok_def)
qed

lemma reachable_ok: "reachable a clients limit s \<Longrightarrow> server_ok clients limit s"
proof (induction rule: reachable.induct)
  case start
  then show ?case by (simp add: server_ok_def server_init_def running_count_def)
next
  case (step s t)
  then show ?case using server_step_ok by blast
qed

section \<open>Settings that stay\<close>

definition no_content_types :: "'r filter_state \<Rightarrow> bool" where
  "no_content_types f \<longleftrightarrow> content_type_blocklist f = [] \<and> content_type_blocklist_file (saved_cfg f) = []"

lemma no_content_types_load:
  "no_content_types f \<Longrightarrow> content_type_blocklist_file cfg = [] \<Longrightarrow> no_content_types (filter_load fs regcomp cfg f)"
  by (simp add: no_content_types_def filter_load_def filter_clear_def load_content_type_list_def Let_def)

lemma no_content_types_init:
  "content_type_blocklist f = [] \<Longrightarrow> content_type_blocklist_file cfg = [] \<Longrightarrow>
     no_content_types (filter_init fs regcomp cfg f)"
  using no_content_types_load [of "f\<lparr>saved_cfg := cfg, filter_enabled := True\<rparr>" cfg fs regcomp]
  by (simp add: filter_init_def Let_def no_content_types_def)

lemma no_content_types_reload: "no_content_types f \<Longrightarrow> no_content_types (filter_reload fs regcomp f)"
  using no_content_types_load [of f "saved_cfg f" fs regcomp] by (simp add: filter_reload_def no_content_types_def)

lemma no_content_types_blocked: "no_content_types f \<Longrightarrow> \<not> type_blocked f r"
  by (simp add: no_content_types_def type_blocked_def filter_is_content_type_blocked_def split: option.split)

interpretation never_verified: keeping_machine "serve_event getenv regcomp regexec" "\<lambda>st. \<not> verify_peer (p_tls st)"
  for getenv regcomp regexec
  by unfold_locales
     (auto simp: serve_event_def same_rest_def split: proxy_event.splits prod.splits dest!: THREAD_ROUTINE_rest)

interpretation types_unset: keeping_machine "serve_event getenv regcomp regexec" "\<lambda>st. no_content_types (p_filter st)"
  for getenv regcomp regexec
proof
  fix s t :: "'a proxy_state" and x
  assume inv: "no_content_types (p_filter s)" and st: "serve_event getenv regcomp regexec x s = Some t"
  show "no_content_types (p_filter t)"
  proof (cases x)
    case (Client env)
    with st inv show ?thesis by (auto simp: serve_event_def same_rest_def dest!: THREAD_ROUTINE_rest)
  next
    case (Config_written fs enoent path junk)
    with st inv show ?thesis
      by (auto simp: serve_event_def config_hot_reload_def no_content_types_reload split: prod.splits option.splits)
  qed
qed

end
