(* ===== verification/Proxy_Props.thy ===== *)
theory Proxy_Props
  imports Server_Laws Cache_Props
begin

text \<open>
  The properties of the request handler of \<^verbatim>\<open>Main.c\<close>, with the concrete request, filter and state at
  which they are applied.
\<close>

section \<open>A concrete proxy\<close>

definition demo_filter :: "string filter_state" where
  "demo_filter =
     \<lparr>domain_trie_root = None, f_allow_ips = [],
      f_deny_ips = [\<lparr>cb_addr = 10, cb_mask = 255, cb_is_ipv6 = False, cb_addr6 = [], cb_mask6 = []\<rparr>],
      url_patterns = [], content_type_blocklist = [''video/''], block_page_html = ''blocked'',
      filter_enabled = True, saved_cfg = zero_config, hot_reload_running = True\<rparr>"

definition demo_tunnel :: tunnel_env where
  "demo_tunnel =
     \<lparr>tunnel_addrs = None, servername = None, accept_ok = True, upstream_ok = True, alpn_client = [],
      rounds = [], h2_init = \<lparr>conn_malloc_ok = True, session_new_ok = True, submit_settings_ok = True\<rparr>, h2_turns = []\<rparr>"

definition demo_event :: "string \<Rightarrow> relay_event" where
  "demo_event s = \<lparr>chunk = s, realloc_ok = True, send_ret = int (length s)\<rparr>"

definition demo_split :: "relay_event list" where
  \<comment> \<open>a blocked response whose headers come in two pieces\<close>
  "demo_split = [demo_event (''Content-Type: video/a'' @ CRLF), demo_event (CRLF @ ''xx''), demo_event ''yy'']"

definition demo_addr :: addrinfo where
  "demo_addr = \<lparr>ai_addr = Sockaddr_in 1, socket_ok = True, connect_ok = True\<rparr>"

definition demo_request :: string where
  "demo_request = request_text ''http'' ''a'' (Some ''80'') ''/'' ''HTTP/1.1'' [(''K'', ''v'')]"

definition demo_client :: request_env where
  "demo_client =
     \<lparr>peer_ipv6 = False, first_recv = demo_request, more_recv = [], request_alloc_ok = True, errno_einval = False,
      new_trace_id = ''t'', date_text = ''d'', stack_memory = [], find_time = 150, server_addrs = Some [demo_addr],
      request_send_ret = 1, response_alloc_ok = True, events = [demo_event ''he'', demo_event ''llo''],
      last_realloc_ok = True, cache_env = demo_env, hit_send_ret = (\<lambda>_. 1), tunnel = demo_tunnel\<rparr>"

definition demo_state :: "string proxy_state" where
  "demo_state =
     \<lparr>p_cfg = demo_config\<lparr>max_bytes := 100\<rparr>, p_cache = empty_cache, p_metrics = metrics_init, p_filter = demo_filter,
      p_auth = \<lparr>allow_ips = [], deny_ips = [], auth_users = [], auth_enabled = False\<rparr>,
      p_tls = \<lparr>verify_peer = False, verify_locations = None, default_x509 = None, cert_cache = []\<rparr>, p_sem = 10\<rparr>"

definition demo_parsed :: ParsedRequest where
  "demo_parsed = request_of ''http'' ''a'' (Some ''80'') ''/'' ''HTTP/1.1'' [(''K'', ''v'')] 8"

lemma demo_forward:
  "\<exists>t. forward_request 100 demo_parsed =
       Some (''GET / HTTP/1.1'' @ CRLF @ ''K: v'' @ CRLF @ ''Connection: close'' @ CRLF @ ''Host: a'' @ CRLF @ CRLF, t) \<and>
     server_port (pr_port t) 80 = Some 80"
proof -
  have "case forward_request 100 demo_parsed of
      None \<Rightarrow> False
    | Some (req, t) \<Rightarrow> req = ''GET / HTTP/1.1'' @ CRLF @ ''K: v'' @ CRLF @ ''Connection: close'' @ CRLF @ ''Host: a'' @ CRLF @ CRLF \<and>
        server_port (pr_port t) 80 = Some 80" by code_simp
  then show ?thesis by (auto split: option.splits)
qed

lemma demo_max_bytes [simp]: "unat (max_bytes (p_cfg demo_state)) = 100"
  by (simp add: demo_state_def)

section \<open>Relaying a response\<close>

lemma relay_ok_start: "0 < max_len \<Longrightarrow> relay_ok max_len (relay_start max_len m)"
  by (simp add: relay_ok_def relay_start_def)

lemma relay_start_sel [simp]:
  "response (relay_start n m) = []" "sent (relay_start n m) = []" "\<not> ct_blocked (relay_start n m)"
  by (simp_all add: relay_start_def)

lemma AddCache_total:
  assumes "cache_inv s"
  obtains r t where "AddCache cfg env d (int (length d)) url s = Some (r, t)" "cache_inv t"
proof -
  from assms inv_refines obtain A where A: "refines s A" by blast
  have "0 \<le> int (length d)" "nat (int (length d)) \<le> length d" by simp_all
  from AddCache_refines [OF A this, of cfg env url] obtain r t B where
    "AddCache cfg env d (int (length d)) url s = Some (r, t)" "refines t B" by blast
  then show thesis using that refines_inv by blast
qed

lemma HandleRequest_unfold:
  fixes st :: "'r proxy_state"
  defines "n \<equiv> unat (max_bytes (p_cfg st))"
  assumes req: "forward_request n pr = Some (req, pr')" "server_port (pr_port pr') 80 = Some q"
    and t: "relay (p_filter st) (peer_ipv6 env) (events env) (relay_start n (p_metrics st)) = Some t"
      "length (response t) < allocated t"
  shows "HandleRequest env pr request st =
     (if ConnectEndServer (p_filter st) (server_addrs env) = None then Some (-1, st, [])
      else if request_send_ret env < 0 then Some (-1, st, [To_server req])
      else if \<not> response_alloc_ok env then Some (-1, st, [To_server req])
      else let st' = st\<lparr>p_metrics := relay_metrics t\<rparr>;
             out = To_server req # map To_client (sent t); block = To_client (block_response (p_filter st))
           in if ct_blocked t then Some (0, count_error st', out @ [block, block])
              else if type_blocked (p_filter st) (response t) then Some (0, count_error st', out @ [block])
              else map_option (\<lambda>(_, c). (0, st'\<lparr>p_cache := c\<rparr>, out))
                (AddCache (p_cfg st) (cache_env env) (response t) (int (length (response t))) request (p_cache st)))"
proof -
  have room: "\<not> (if x then length (response t) + 1 else allocated t) \<le> length (response t)" for x
    using t(2) by simp
  show ?thesis
    unfolding HandleRequest_def Let_def n_def [symmetric] req(1) relay_start_def [symmetric]
    by (simp only: bind.bind_lunit split: prod.split) (simp add: req(2) t(1) room count_error_def map_option_case split: option.split prod.split)
qed



text \<open>A relay that nothing interrupts.\<close>

lemma relay_whole:
  assumes "max_bytes (p_cfg st) \<noteq> 0"
    and req: "forward_request (unat (max_bytes (p_cfg st))) pr = Some (req, pr')" "server_port (pr_port pr') 80 \<noteq> None"
    and up: "ConnectEndServer (p_filter st) (server_addrs env) \<noteq> None" "0 \<le> request_send_ret env" "response_alloc_ok env"
    and chunks: "list_all (\<lambda>e. length (chunk e) \<le> unat (max_bytes (p_cfg st)) \<and> realloc_ok e \<and> 0 \<le> send_ret e)
        (events env)"
    and free: "\<forall>j \<le> length (events env). \<not> type_blocked (p_filter st) (received (take j (events env)))"
    and add: "AddCache (p_cfg st) (cache_env env) (received (events env)) (int (length (received (events env)))) request
        (p_cache st) = Some (r, c)"
  shows "\<exists>st'. HandleRequest env pr request st = Some (0, st', To_server req # map To_client (map chunk (events env))) \<and>
    p_cache st' = c"
proof -
  let ?n = "unat (max_bytes (p_cfg st))" and ?f = "p_filter st"
  have n: "0 < ?n" using assms(1) by (simp add: unat_gt_0)
  have "\<not> stops ?f (response (relay_start ?n (p_metrics st)) @ received (take j (events env)))"
    if "0 < j" "j \<le> length (events env)" for j
    using free that by (simp add: stops_def)
  from relay_complete [OF chunks relay_ok_start [OF n] this] obtain t where
    t: "relay ?f (peer_ipv6 env) (events env) (relay_start ?n (p_metrics st)) = Some t"
      "response t = received (events env)" "sent t = map chunk (events env)" "\<not> ct_blocked t"
    by auto
  have "list_all (\<lambda>e. length (chunk e) \<le> ?n) (events env)" using chunks by (simp add: list_all_iff)
  from relay_safe [OF this relay_ok_start [OF n]] t(1) have "length (received (events env)) < allocated t"
    by (metis option.inject t(2))
  moreover have "\<not> type_blocked ?f (received (events env))" using free by (auto dest: spec [of _ "length (events env)"])
  moreover from req(2) obtain q where q: "server_port (pr_port pr') 80 = Some q" by blast
  ultimately show ?thesis
    using up t(2-4) add HandleRequest_unfold [OF req(1) q t(1), of request] by (simp add: Let_def)
qed

lemma demo_events: "events demo_client = [demo_event ''he'', demo_event ''llo'']"
  by (simp add: demo_client_def)

lemma demo_received: "received (events demo_client) = ''hello''"
  by (simp add: demo_events demo_event_def)

lemma demo_upstream:
  "max_bytes (p_cfg demo_state) \<noteq> 0" "ConnectEndServer (p_filter demo_state) (server_addrs demo_client) \<noteq> None"
  "0 \<le> request_send_ret demo_client" "response_alloc_ok demo_client"
  "list_all (\<lambda>e. length (chunk e) \<le> unat (max_bytes (p_cfg demo_state)) \<and> realloc_ok e \<and> 0 \<le> send_ret e) (events demo_client)"
  by (simp_all add: demo_state_def demo_client_def demo_event_def demo_addr_def ConnectEndServer_def demo_filter_def
      filter_is_ip_blocked_def block_matches_def)

lemma demo_types_free:
  "\<forall>j \<le> length (events demo_client). \<not> type_blocked (p_filter demo_state) (received (take j (events demo_client)))"
proof -
  have "\<not> type_blocked (p_filter demo_state) []" "\<not> type_blocked (p_filter demo_state) ''he''"
    "\<not> type_blocked (p_filter demo_state) ''hello''"
    by (simp_all add: type_blocked_def parse_content_type_header_def)
  then show ?thesis by (auto simp: demo_events demo_event_def le_Suc_eq)
qed

text \<open>
  What the client gets is what the server sent. When the connection, the buffers and every
  \<^verbatim>\<open>send\<close> succeed and the type filter never fires, the server is sent the forwarded request, the client
  is sent exactly the chunks received, in order, and the cache is given their concatenation under
  the request as its key.
\<close>
theorem response_relayed:
  assumes "max_bytes (p_cfg st) \<noteq> 0"
    and req: "forward_request (unat (max_bytes (p_cfg st))) pr = Some (req, pr')" "server_port (pr_port pr') 80 \<noteq> None"
    and up: "ConnectEndServer (p_filter st) (server_addrs env) \<noteq> None" "0 \<le> request_send_ret env" "response_alloc_ok env"
    and chunks: "list_all (\<lambda>e. length (chunk e) \<le> unat (max_bytes (p_cfg st)) \<and> realloc_ok e \<and> 0 \<le> send_ret e)
        (events env)"
    and free: "\<forall>j \<le> length (events env). \<not> type_blocked (p_filter st) (received (take j (events env)))"
    and add: "AddCache (p_cfg st) (cache_env env) (received (events env)) (int (length (received (events env)))) request
        (p_cache st) = Some (r, c)"
  shows "\<exists>st'. HandleRequest env pr request st = Some (0, st', To_server req # map To_client (map chunk (events env))) \<and>
    p_cache st' = c"
  using relay_whole [OF assms] .

theorem response_relayed_witness:
  "\<exists>st' req. HandleRequest demo_client demo_parsed demo_request demo_state =
     Some (0, st', To_server req # map To_client [''he'', ''llo'']) \<and> prefix ''GET / HTTP/1.1'' req"
proof -
  from demo_forward obtain req t where
    f: "forward_request (unat (max_bytes (p_cfg demo_state))) demo_parsed = Some (req, t)" "server_port (pr_port t) 80 \<noteq> None"
      "prefix ''GET / HTTP/1.1'' req"
    by auto
  note u = demo_upstream and b = demo_types_free
  have "cache_inv (p_cache demo_state)" using refines_inv [OF empty_refines] by (simp add: demo_state_def)
  from AddCache_total [OF this] obtain r c where
    "AddCache (p_cfg demo_state) (cache_env demo_client) (received (events demo_client))
       (int (length (received (events demo_client)))) demo_request (p_cache demo_state) = Some (r, c)" by metis
  from response_relayed [OF u(1) f(1,2) u(2-5) b this] f(3) show ?thesis by (auto simp: demo_events demo_event_def)
qed

text \<open>
  A response of a blocked type is stopped where its headers end. When the relay loop stops a
  response, the client was sent exactly the chunks before the one that completed the headers; none
  of the bytes received with or after that chunk went out. A client is sent part of a blocked
  response only where the headers arrive in several pieces.
\<close>
theorem blocked_response_cut:
  assumes "0 < max_len" "list_all (\<lambda>e. length (chunk e) \<le> max_len) es"
    and "relay f v6 es (relay_start max_len m) = Some t" "ct_blocked t"
  shows "\<exists>k < length es. sent t = map chunk (take k es) \<and>
    headers_complete (received (take (Suc k) es)) \<and> type_blocked f (received (take (Suc k) es)) \<and>
    (\<forall>j \<le> k. \<not> (headers_complete (received (take j es)) \<and> type_blocked f (received (take j es))))"
proof -
  from relay_prefix [OF assms(3,2) relay_ok_start [OF assms(1)]] obtain k where
    k: "cut_at f es (relay_start max_len m) k t" by auto
  have "\<not> stops f []" by (simp add: stops_def headers_complete_def)
  have k': "0 < k" "k \<le> length es" "sent t = map chunk (take (k - 1) es)" "stops f (received (take k es))"
    "\<And>j. 0 < j \<Longrightarrow> j < k \<Longrightarrow> \<not> stops f (received (take j es))"
    using k assms(4) by (auto simp: cut_at_def)
  have "\<not> stops f (received (take j es))" if "j \<le> k - 1" for j
    using that k'(1,5) \<open>\<not> stops f []\<close> by (cases "j = 0") auto
  with k' show ?thesis unfolding stops_def by (intro exI [of _ "k - 1"]) auto
qed

theorem blocked_response_cut_witness:
  "\<exists>t. relay demo_filter False demo_split (relay_start 64 metrics_init) = Some t \<and>
     (\<exists>k < length demo_split. sent t = map chunk (take k demo_split))"
proof -
  have "case relay demo_filter False demo_split (relay_start 64 metrics_init) of None \<Rightarrow> False | Some t \<Rightarrow> ct_blocked t"
    by code_simp
  then obtain t where t: "relay demo_filter False demo_split (relay_start 64 metrics_init) = Some t" "ct_blocked t"
    by (auto split: option.splits)
  have "0 < (64 :: nat)" "list_all (\<lambda>e. length (chunk e) \<le> 64) demo_split" by (simp_all add: demo_event_def demo_split_def)
  from blocked_response_cut [OF this t] t(1) show ?thesis by blast
qed

text \<open>
  A client that goes away leaves a cut response in the cache. Once a \<^verbatim>\<open>send\<close> to the client fails,
  nothing more of the response is read, and everything else \<^verbatim>\<open>HandleRequest\<close> does, storing in the cache
  included, is what it does for a response that ends with that chunk.
\<close>
theorem disconnect_cuts_cached_response:
  fixes st :: "'r proxy_state"
  assumes "events env = us @ e # vs" "send_ret e < 0"
  shows "HandleRequest env pr request st = HandleRequest (env\<lparr>events := us @ [e]\<rparr>) pr request st"
proof -
  have "relay f v6 (us @ e # vs) s = relay f v6 (us @ [e]) s" for s and f :: "'r filter_state" and v6
    using assms(2) by (induction us arbitrary: s) (simp_all add: Let_def)
  then show ?thesis using assms(1) by (simp add: HandleRequest_def Let_def cong: if_cong)
qed

theorem disconnect_cuts_cached_response_witness:
  "\<exists>env. length (events env) = 2 \<and>
     HandleRequest env demo_parsed demo_request demo_state =
     HandleRequest (env\<lparr>events := [demo_event ''he''\<lparr>send_ret := -1\<rparr>]\<rparr>) demo_parsed demo_request demo_state"
  using disconnect_cuts_cached_response
    [of "demo_client\<lparr>events := [demo_event ''he''\<lparr>send_ret := -1\<rparr>, demo_event ''llo'']\<rparr>" "[]"
      "demo_event ''he''\<lparr>send_ret := -1\<rparr>" "[demo_event ''llo'']" demo_parsed demo_request demo_state]
  by (intro exI [of _ "demo_client\<lparr>events := [demo_event ''he''\<lparr>send_ret := -1\<rparr>, demo_event ''llo'']\<rparr>"]) simp

section \<open>Access control\<close>


definition blocking_filter :: "string filter_state" where
  "blocking_filter = demo_filter\<lparr>url_patterns := [''/'']\<rparr>"

lemma demo_parse:
  "\<exists>pr. parse_request demo_client 100 demo_request = Some (0, pr, ''t'') \<and> pr_host pr = Str ''a'' \<and> pr_path pr = Str ''/'' \<and>
     pr_method pr = Str ''GET''"
proof -
  have "case parse_request demo_client 100 demo_request of
      None \<Rightarrow> False
    | Some (r, pr, trace) \<Rightarrow> r = 0 \<and> trace = ''t'' \<and> pr_host pr = Str ''a'' \<and> pr_path pr = Str ''/'' \<and> pr_method pr = Str ''GET''"
    by code_simp
  then show ?thesis by (auto split: option.splits)
qed


text \<open>
  The end server is the first usable address that the filter allows. \<^verbatim>\<open>ConnectEndServer\<close> connects to
  an address exactly when it is the first one of the resolved list that is not blocked and whose
  socket and connection succeed; it fails exactly when there is none.
\<close>
theorem end_server_allowed:
  "(ConnectEndServer f (Some rps) = Some rp \<longleftrightarrow>
      (\<exists>us vs. rps = us @ rp # vs \<and> \<not> filter_is_ip_blocked f (ai_addr rp) \<and> socket_ok rp \<and> connect_ok rp \<and>
        list_all (\<lambda>u. \<not> (\<not> filter_is_ip_blocked f (ai_addr u) \<and> socket_ok u \<and> connect_ok u)) us)) \<and>
   (ConnectEndServer f (Some rps) = None \<longleftrightarrow>
      list_all (\<lambda>u. \<not> (\<not> filter_is_ip_blocked f (ai_addr u) \<and> socket_ok u \<and> connect_ok u)) rps) \<and>
   ConnectEndServer f None = None"
  by (auto simp: ConnectEndServer_def first_connected_iff first_connected_None list_all_iff)

text \<open>
  C19: The address filter does not hold for tunnels. A reachable address that the filter blocks, and
  that \<^verbatim>\<open>ConnectEndServer\<close> therefore refuses, is connected to for a \<^verbatim>\<open>CONNECT\<close> request, and the client is
  told that the connection is established.
\<close>
theorem tunnel_ignores_address_filter:
  assumes "filter_is_ip_blocked f (ai_addr rp)" "socket_ok rp" "connect_ok rp"
    and "HandleConnect v6 (env\<lparr>tunnel_addrs := Some [rp]\<rparr>) host st m = Some (r, st', m', out)"
  shows "ConnectEndServer f (Some [rp]) = None \<and> tunnel_target (Some [rp]) = Some rp \<and> To_client conn_est \<in> set out"
  using assms
  by (auto simp: ConnectEndServer_def tunnel_target_def HandleConnect_def Let_def
      split: if_splits prod.splits option.splits)

theorem tunnel_ignores_address_filter_witness:
  "ConnectEndServer demo_filter (Some [demo_addr\<lparr>ai_addr := Sockaddr_in 10\<rparr>]) = None \<and>
   tunnel_target (Some [demo_addr\<lparr>ai_addr := Sockaddr_in 10\<rparr>]) = Some (demo_addr\<lparr>ai_addr := Sockaddr_in 10\<rparr>) \<and>
   (\<exists>r st' m' out. HandleConnect False (demo_tunnel\<lparr>tunnel_addrs := Some [demo_addr\<lparr>ai_addr := Sockaddr_in 10\<rparr>]\<rparr>)
      (Some ''h'') (p_tls demo_state) metrics_init = Some (r, st', m', out) \<and> To_client conn_est \<in> set out)"
proof -
  let ?rp = "demo_addr\<lparr>ai_addr := Sockaddr_in 10\<rparr>"
  have b: "filter_is_ip_blocked demo_filter (ai_addr ?rp)" "socket_ok ?rp" "connect_ok ?rp"
    by (simp_all add: demo_filter_def demo_addr_def filter_is_ip_blocked_def block_matches_def)
  obtain r st' m' out where
    h: "HandleConnect False (demo_tunnel\<lparr>tunnel_addrs := Some [?rp]\<rparr>) (Some ''h'') (p_tls demo_state) metrics_init = Some (r, st', m', out)"
    using b by (auto simp: HandleConnect_def tunnel_target_def demo_tunnel_def Let_def)
  from tunnel_ignores_address_filter [OF b h] h show ?thesis by blast
qed

section \<open>A cache hit\<close>

lemma cache_hit_pieces:
  assumes "0 < n" "\<not> n dvd length d"
  shows "\<exists>m' ps. serve_hit info env n d m = Some (m', ps) \<and> concat ps = d \<and>
    list_all (\<lambda>p. 0 < length p \<and> length p \<le> n) ps"
proof -
  have "d \<noteq> []" using assms(2) by auto
  then show ?thesis
    using assms last_piece_full [of n d] concat_pieces [of n d] pieces_bound [of n d]
    by (simp add: serve_hit_def Let_def)
qed

text \<open>
  A cached response is sent whole. Unless its length is a multiple of \<^verbatim>\<open>max_bytes\<close>, the bytes of a
  hit are sent in pieces of at most \<^verbatim>\<open>max_bytes\<close> bytes whose concatenation is the cached response.
\<close>
theorem cache_hit_sent_whole:
  assumes "0 < n" "\<not> n dvd length d"
  shows "\<exists>m' ps. serve_hit info env n d m = Some (m', ps) \<and> concat ps = d \<and>
    list_all (\<lambda>p. 0 < length p \<and> length p \<le> n) ps"
  using cache_hit_pieces [OF assms] .

theorem cache_hit_sent_whole_witness:
  "\<exists>m' ps. serve_hit True demo_client 2 ''hello'' metrics_init = Some (m', ps) \<and> concat ps = ''hello''"
  using cache_hit_sent_whole [of 2 "''hello''" True demo_client metrics_init] by auto

text \<open>
  The log line of a hit reads outside the array. At the log levels that let \<^verbatim>\<open>LOG_INFO\<close> through, a
  cached response without NUL bytes whose length is a multiple of \<^verbatim>\<open>max_bytes\<close>, the empty one included,
  makes the thread log as a string an array that holds no terminator.
\<close>
theorem cache_hit_logs_unterminated:
  assumes "n dvd length d" "NUL \<notin> set d"
  shows "serve_hit True env n d m = None"
proof (cases "d = [] \<or> n = 0")
  case False
  then have "set (last (pieces n d)) \<subseteq> set d"
    using last_piece_length [of n d] concat_pieces [of n d] by (metis UN_upper last_in_set neq0_conv set_concat)
  with False assms last_piece_full [of n d] show ?thesis by (auto simp: serve_hit_def Let_def)
qed (auto simp: serve_hit_def Let_def)

theorem cache_hit_logs_unterminated_witness:
  "serve_hit True demo_client 2 ''abcd'' metrics_init = None"
  by (rule cache_hit_logs_unterminated) simp_all

lemma access_status_same: "same_rest st st' \<Longrightarrow> access_status regexec env st' pr = access_status regexec env st pr"
  by (simp add: access_status_def same_rest_def cong: if_cong cptr.case_cong)



section \<open>Error pages\<close>

lemma error_body_length:
  "length (error_body 400) = 95" "length (error_body 404) = 91" "length (error_body 407) = 125"
  "length (error_body 500) = 115" "length (error_body 501) = 103" "length (error_body 505) = 125"
  by (simp_all add: error_body_def)

lemma shown_lengths:
  "show_nat 95 = ''95''" "show_nat 91 = ''91''" "show_nat 122 = ''122''" "show_nat 115 = ''115''"
  "show_nat 103 = ''103''" "show_nat 125 = ''125''"
  by code_simp+

text \<open>
  The announced length of an error page is its length, except for 407. For every status but 403
  that \<^verbatim>\<open>ThrowError\<close> knows, the page is sent whole (a date of at most 49 characters leaves it below the
  1024 bytes of the buffer) and its \<^verbatim>\<open>Content-Length\<close> line gives the length of its body; the page for
  407 announces 122 bytes and has 125.
\<close>
theorem error_page_length:
  assumes "length date < 50" "status \<in> {400, 404, 407, 500, 501, 505}"
  shows "\<exists>ls n. ThrowError date f status = (1, [http_response ls (error_body status)]) \<and>
    (''Content-Length: '' @ show_nat n) \<in> set ls \<and>
    (if status = 407 then n = 122 \<and> length (error_body status) = 125 else n = length (error_body status))"
proof -
  define n where "n = (if status = 407 then 122 else length (error_body status))"
  from assms(2) obtain ls where ls: "error_lines date status = Some ls"
    and len: "length (concat (map (\<lambda>l. l @ CRLF) ls)) \<le> 250 + length date"
    and cl: "(''Content-Length: '' @ show_nat n) \<in> set ls"
    unfolding n_def by (auto simp: error_lines_def error_body_length shown_lengths)
  have "length (error_body status) \<le> 125" using assms(2) by (auto simp: error_body_length)
  with len assms(1) have "length (http_response ls (error_body status)) \<le> 1023" by (simp add: http_response_def)
  then have "snprintf 1024 (http_response ls (error_body status)) = http_response ls (error_body status)"
    by (simp add: snprintf_def)
  moreover have "status \<noteq> 403" using assms(2) by auto
  ultimately have "ThrowError date f status = (1, [http_response ls (error_body status)])"
    using ls by (simp add: ThrowError_def)
  with cl show ?thesis by (intro exI [of _ ls] exI [of _ n]) (simp add: n_def error_body_length)
qed

theorem error_page_length_witness:
  "\<exists>ls. ThrowError ''today'' demo_filter 404 = (1, [http_response ls (error_body 404)]) \<and>
     ''Content-Length: 91'' \<in> set ls"
  using error_page_length [of "''today''" 404 demo_filter] by (auto simp: error_body_length shown_lengths)

text \<open>
  A long block page is cut. A page of at least 1024 bytes is announced with its full length, but
  the 403 response, in both places that build one, is cut at 1023 bytes, headers included.
\<close>
theorem block_page_truncated:
  assumes "1024 \<le> length (filter_get_block_page f)"
  shows "\<exists>resp. ThrowError date f 403 = (1, [resp]) \<and> length resp = 1023"
    and "length (block_response f) = 1023"
  using assms by (simp_all add: ThrowError_def block_response_def Let_def snprintf_def http_response_def min_absorb2)

theorem block_page_truncated_witness:
  "length (block_response (demo_filter\<lparr>block_page_html := replicate 2000 (CHR ''x'')\<rparr>)) = 1023"
  by (rule block_page_truncated(2)) (simp add: filter_get_block_page_def demo_filter_def)

section \<open>The forwarded request\<close>

text \<open>
  C28: What the end server sees. For a request with a well-formed header table that fits the buffer, the
  proxy forwards the request line with the path and version, then the client's headers with
  \<^verbatim>\<open>Connection: close\<close>, without \<^verbatim>\<open>Proxy-Connection\<close>, and with the request's host as \<^verbatim>\<open>Host\<close> where the
  header is missing or names the local machine; every other header is passed on unchanged, the
  credentials in \<^verbatim>\<open>Proxy-Authorization\<close> included.
\<close>
theorem forwarded_headers:
  assumes "headers_ok pr" "pr_host pr = Str h" "pr_path pr = Str p" "pr_version pr = Str v" "pr_buf pr \<noteq> None"
  shows "\<exists>t. forward_headers pr = Some t \<and> header_value t = forwarded_table h (header_value pr) \<and>
    header_value t ''Proxy-Authorization'' = header_value pr ''Proxy-Authorization'' \<and>
    (length p + length v + 7 + ParsedHeader_headersLen t + 1 \<le> max_len \<longrightarrow>
       forward_request max_len pr =
         Some (c_str (''GET '' @ p @ '' '' @ v @ CRLF @ concat (map header_line (headers t)) @ CRLF), t))"
proof -
  from forward_headers_law [OF assms(1,2)] obtain t where
    t: "forward_headers pr = Some t" "header_value t = forwarded_table h (header_value pr)" by blast
  moreover have "forwarded_table h tbl ''Proxy-Authorization'' = tbl ''Proxy-Authorization''" for tbl
    by (simp add: forwarded_table_def Let_def split: option.split)
  ultimately show ?thesis using forward_request_law [OF assms t(1)] by auto
qed

theorem forwarded_headers_witness:
  "\<exists>t. forward_headers demo_parsed = Some t \<and> header_value t ''Host'' = Some ''a'' \<and>
     header_value t ''Connection'' = Some ''close'' \<and> header_value t ''K'' = Some ''v''"
proof -
  have "headers_ok demo_parsed" "pr_host demo_parsed = Str ''a''" "pr_path demo_parsed = Str ''/''"
    "pr_version demo_parsed = Str ''HTTP/1.1''" "pr_buf demo_parsed \<noteq> None"
    by (simp_all add: demo_parsed_def request_of_def headers_ok_def headersused_def)
  from forwarded_headers [OF this, of 0] obtain t where
    t: "forward_headers demo_parsed = Some t" "header_value t = forwarded_table ''a'' (header_value demo_parsed)" by blast
  have "header_value demo_parsed ''K'' = Some ''v''" "header_value demo_parsed ''Host'' = None"
    by (simp_all add: header_value_slots demo_parsed_def request_of_def)
  then show ?thesis by (intro exI [of _ t]) (simp add: t forwarded_table_def Let_def)
qed

section \<open>The thread of a client\<close>

text \<open>
  The semaphore is given back on every path. Whatever a client sends, when its thread returns the
  semaphore has its old value and the configuration, the filter and the access lists are untouched.
\<close>
theorem thread_posts_semaphore:
  assumes "THREAD_ROUTINE regexec env st = Some (st', out)"
  shows "p_sem st' = p_sem st \<and> p_cfg st' = p_cfg st \<and> p_filter st' = p_filter st \<and> p_auth st' = p_auth st"
  using THREAD_ROUTINE_rest [OF assms] by (simp add: same_rest_def)

theorem thread_posts_semaphore_witness:
  "\<exists>st' out. THREAD_ROUTINE (\<lambda>_ _. False) (demo_client\<lparr>first_recv := []\<rparr>) demo_state = Some (st', out) \<and> p_sem st' = 10"
proof -
  obtain st' out where t: "THREAD_ROUTINE (\<lambda>_ _. False) (demo_client\<lparr>first_recv := []\<rparr>) demo_state = Some (st', out)"
    by (simp add: THREAD_ROUTINE_def receive_def)
  from thread_posts_semaphore [OF this] t show ?thesis by (auto simp: demo_state_def)
qed



end
