(* ===== verification/Server_Props.thy ===== *)
theory Server_Props
  imports Server_Laws
begin

text \<open>The properties of \<^verbatim>\<open>main\<close>: its accept loop, and settings that never take effect.\<close>

section \<open>The accept loop\<close>

definition open_access :: auth_state where
  "open_access = \<lparr>allow_ips = [], deny_ips = [], auth_users = [], auth_enabled = False\<rparr>"

lemma open_access_allows: "check_ip_allowed open_access ip = Some True"
  by (simp add: check_ip_allowed_def open_access_def)

definition one_running :: server where
  "one_running = \<lparr>slots = [Some 7], ITERATOR = 1, threads = [(7, Running 7)], sem_value = 0\<rparr>"

lemma one_client_steps:
  "reachable open_access 1 1 \<lparr>slots = [Some 7], ITERATOR = 1, threads = [(7, Waiting 7)], sem_value = 1\<rparr>"
  "reachable open_access 1 1 one_running"
proof -
  have "accept_connection open_access ''1.2.3.4'' 7 (server_init 1 1) =
      Some \<lparr>slots = [Some 7], ITERATOR = 1, threads = [(7, Created)], sem_value = 1\<rparr>"
    by (simp add: accept_connection_def open_access_allows server_init_def)
  from reachable.step [OF reachable.start server_step.accept_step [OF this]]
  have "reachable open_access 1 1 \<lparr>slots = [Some 7], ITERATOR = 1, threads = [(7, Created)], sem_value = 1\<rparr>" .
  from reachable.step [OF this server_step.read_slot [of 0 _ 7 7]]
  show w: "reachable open_access 1 1 \<lparr>slots = [Some 7], ITERATOR = 1, threads = [(7, Waiting 7)], sem_value = 1\<rparr>"
    by simp
  from reachable.step [OF w server_step.sem_wait [of 0 _ 7 7]]
  show "reachable open_access 1 1 one_running" by (simp add: one_running_def)
qed

text \<open>
  C20: The semaphore limits the clients that are served at once. In every reachable state of the accept
  loop and its threads the semaphore is the limit it was created with less the threads between
  their wait and their post, so never more than the limit run.
\<close>
theorem clients_limited:
  assumes "reachable a clients limit s" "0 \<le> limit"
  shows "sem_value s = limit - int (running_count s) \<and> int (running_count s) \<le> limit"
  using reachable_ok [OF assms(1)] assms(2) by (auto simp: server_ok_def)

theorem clients_limited_witness: "sem_value one_running = 1 - int (running_count one_running)"
  using clients_limited [OF one_client_steps(2)] by simp

text \<open>
  C22: A thread serves the connection it was started for. Although a thread reads its socket through a
  pointer into a shared array after \<^verbatim>\<open>main\<close> went on accepting, and a denied connection overwrites a
  slot, every thread that waits or runs holds the socket of the connection it was started for.
\<close>
theorem thread_has_own_socket:
  assumes "reachable a clients limit s" "i < length (threads s)"
    and "threads s ! i = (fd, Waiting x) \<or> threads s ! i = (fd, Running x)"
  shows "x = fd"
  using reachable_ok [OF assms(1)] assms(2,3) by (force simp: server_ok_def)

theorem thread_has_own_socket_witness: "threads one_running ! 0 = (7, Running 7) \<and> (7 :: int) = 7"
  using thread_has_own_socket [OF one_client_steps(2), of 0 7 7] by (simp add: one_running_def)

text \<open>
  C21: A waiting client can always be served. With a positive limit, from every reachable state in which
  a thread waits for the semaphore there is a continuation after which that thread runs.
\<close>
theorem waiting_client_can_run:
  assumes "reachable a clients limit s" "0 < limit" "i < length (threads s)" "threads s ! i = (fd, Waiting x)"
  shows "\<exists>t. (server_step a)\<^sup>*\<^sup>* s t \<and> threads t ! i = (fd, Running x)"
proof (cases "0 < sem_value s")
  case True
  from server_step.sem_wait [OF assms(3,4) True] assms(3) show ?thesis
    by (intro exI [of _ "s\<lparr>threads := (threads s)[i := (fd, Running x)], sem_value := sem_value s - 1\<rparr>"]) auto
next
  case False
  with reachable_ok [OF assms(1)] assms(2) have "0 < running_count s" "sem_value s = 0" by (auto simp: server_ok_def)
  then obtain th where "th \<in> set (threads s)" "running th"
    by (metis filter_False length_0_conv less_irrefl running_count_def)
  then obtain j fd' y where j: "j < length (threads s)" "threads s ! j = (fd', Running y)"
    by (auto simp: in_set_conv_nth running_def split: phase.splits) (metis prod.collapse)
  define t where "t = s\<lparr>threads := (threads s)[j := (fd', Finished)], sem_value := sem_value s + 1\<rparr>"
  have st: "server_step a s t" unfolding t_def by (rule server_step.sem_post [OF j])
  have "i \<noteq> j" using assms(4) j(2) by auto
  then have i: "i < length (threads t)" "threads t ! i = (fd, Waiting x)" "0 < sem_value t"
    using assms(3,4) \<open>sem_value s = 0\<close> by (simp_all add: t_def)
  from st server_step.sem_wait [OF i] i(1) show ?thesis
    by (intro exI [of _ "t\<lparr>threads := (threads t)[i := (fd, Running x)], sem_value := sem_value t - 1\<rparr>"])
      (auto intro: rtranclp.rtrancl_into_rtrancl)
qed

theorem waiting_client_can_run_witness:
  "\<exists>t. (server_step open_access)\<^sup>*\<^sup>* \<lparr>slots = [Some 7], ITERATOR = 1, threads = [(7, Waiting 7)], sem_value = 1\<rparr> t \<and>
     threads t ! 0 = (7, Running 7)"
  by (rule waiting_client_can_run [OF one_client_steps(1)]) simp_all

text \<open>
  The server accepts \<^verbatim>\<open>max_clients\<close> clients in its life. \<^verbatim>\<open>ITERATOR\<close> is never reset, so in a reachable
  state the next accepted connection is stored outside \<^verbatim>\<open>CONNECTED_SOCKET_ID\<close> exactly when as many
  threads as \<^verbatim>\<open>max_clients\<close> were started, also when all of them have finished.
\<close>
theorem accept_leaves_array:
  assumes "reachable a clients limit s" "check_ip_allowed a ipstr = Some allowed"
  shows "accept_connection a ipstr fd s = None \<longleftrightarrow> length (threads s) = nat clients"
  using reachable_ok [OF assms(1)] assms(2)
  by (auto simp: accept_connection_def server_ok_def split: bool.split)

theorem accept_leaves_array_witness: "accept_connection open_access ''1.2.3.4'' 8 one_running = None"
  using accept_leaves_array [OF one_client_steps(2) open_access_allows] by (simp add: one_running_def)

section \<open>Settings that never take effect\<close>

definition static_state :: "string proxy_state" where
  \<comment> \<open>the static variables before \<^verbatim>\<open>main\<close> runs\<close>
  "static_state =
     \<lparr>p_cfg = zero_config, p_cache = empty_cache, p_metrics = metrics_init,
      p_filter = \<lparr>domain_trie_root = None, f_allow_ips = [], f_deny_ips = [], url_patterns = [],
        content_type_blocklist = [], block_page_html = [], filter_enabled = False, saved_cfg = zero_config,
        hot_reload_running = False\<rparr>,
      p_auth = open_access,
      p_tls = \<lparr>verify_peer = False, verify_locations = None, default_x509 = None, cert_cache = []\<rparr>, p_sem = 0\<rparr>"

text \<open>
  A client limit from the command line does not reach the semaphore. \<^verbatim>\<open>sem_init\<close> runs before the
  arguments are read: started with \<^verbatim>\<open>--max-clients=50\<close> and no file, the proxy has room for 50 sockets
  but serves 10 clients at once.
\<close>
theorem argument_limit_ignored:
  "\<exists>st. proxy_start (\<lambda>_. None) True (\<lambda>_. None) False [''proxy'', ''--max-clients=50''] Some static_state = Some st \<and>
     max_clients (p_cfg st) = 50 \<and> p_sem st = 10"
proof -
  have "case proxy_start (\<lambda>_. None) True (\<lambda>_. None) False [''proxy'', ''--max-clients=50''] Some static_state of
      None \<Rightarrow> False | Some st \<Rightarrow> max_clients (p_cfg st) = 50 \<and> p_sem st = 10" by code_simp
  then show ?thesis by (auto split: option.splits)
qed

text \<open>
  C37: Upstream certificates are never verified. \<^verbatim>\<open>InitOpenSSL\<close> runs before the configuration is read and
  sees the zeroed \<^verbatim>\<open>g_config\<close>: whatever the files, the environment and the arguments ask for, and
  after any sequence of requests and reloads, \<^verbatim>\<open>SSL_VERIFY_PEER\<close> is not set.
\<close>
theorem upstream_never_verified:
  assumes "proxy_start fs enoent getenv etc_ok argv regcomp static_state = Some st"
    and "run_ops (serve_event getenv regcomp regexec) evs st = Some st'"
  shows "\<not> verify_peer (p_tls st')"
proof -
  from assms(1) have "p_tls st = InitOpenSSL zero_config (p_tls static_state)"
    by (auto simp: proxy_start_def Let_def static_state_def split: option.splits)
  then have "\<not> verify_peer (p_tls st)" by (simp add: InitOpenSSL_def zero_config_def static_state_def)
  from never_verified.run_keeps [OF this assms(2)] show ?thesis .
qed

lemma default_start:
  "\<exists>st. proxy_start (\<lambda>_. None) True (\<lambda>_. None) False [''proxy'', ''9090''] Some static_state = Some st \<and>
     tls_verify_peer (p_cfg st)"
proof -
  have "case proxy_start (\<lambda>_. None) True (\<lambda>_. None) False [''proxy'', ''9090''] Some static_state of
      None \<Rightarrow> False | Some st \<Rightarrow> tls_verify_peer (p_cfg st)" by code_simp
  then show ?thesis by (auto split: option.splits)
qed

theorem upstream_never_verified_witness:
  "\<exists>st. proxy_start (\<lambda>_. None) True (\<lambda>_. None) False [''proxy'', ''9090''] Some static_state = Some st \<and>
     tls_verify_peer (p_cfg st) \<and> \<not> verify_peer (p_tls st)"
  using default_start upstream_never_verified [of "\<lambda>_. None" True "\<lambda>_. None" False "[''proxy'', ''9090'']" Some _ "\<lambda>_ _. False" "[]"]
  by fastforce

text \<open>
  No response is ever blocked by its content type. No file, environment variable or argument
  names the list of content types, so after every start and every sequence of requests and reloads
  the list is empty and the check lets every response through.
\<close>
theorem content_types_never_blocked:
  assumes "proxy_start fs enoent getenv etc_ok argv regcomp static_state = Some st"
    and "run_ops (serve_event getenv regcomp regexec) evs st = Some st'"
  shows "\<not> type_blocked (p_filter st') resp" "\<not> filter_is_content_type_blocked (p_filter st') content_type"
proof -
  from assms(1) obtain g where g: "config_startup fs enoent getenv etc_ok argv zero_config = Some g"
    and f: "p_filter st = filter_init fs regcomp g (p_filter static_state)"
    by (auto simp: proxy_start_def Let_def static_state_def split: option.splits)
  have "content_type_blocklist_file g = []"
    by (rule no_types.startup [OF g]) (simp add: config_init_defaults_def zero_config_def)
  then have "no_content_types (p_filter st)"
    unfolding f by (intro no_content_types_init) (simp_all add: static_state_def)
  from types_unset.run_keeps [OF this assms(2)] show "\<not> type_blocked (p_filter st') resp"
    "\<not> filter_is_content_type_blocked (p_filter st') content_type"
    using no_content_types_blocked by (auto simp: no_content_types_def filter_is_content_type_blocked_def)
qed

theorem content_types_never_blocked_witness:
  "\<exists>st. proxy_start (\<lambda>_. None) True (\<lambda>_. None) False [''proxy'', ''9090''] Some static_state = Some st \<and>
     \<not> filter_is_content_type_blocked (p_filter st) ''video/mp4''"
  using default_start
    content_types_never_blocked(2) [of "\<lambda>_. None" True "\<lambda>_. None" False "[''proxy'', ''9090'']" Some _ "\<lambda>_ _. False" "[]"]
  by fastforce

end
