(* ===== verification/Http3.thy ===== *)
theory Http3
  imports Prelude Machine
begin

text \<open>
  \<^verbatim>\<open>src/src/http3.c\<close>: the QUIC worker. The library \<^verbatim>\<open>quiche\<close> is not part of the repository: what its
  functions return for a datagram is part of the datagram's record. The table of connections is a
  list in the order of \<^verbatim>\<open>HASH_ADD\<close>; \<^verbatim>\<open>HASH_FIND\<close> is an argument. \<^term>\<open>None\<close> stands for undefined behaviour.
\<close>

section \<open>Address validation tokens\<close>

definition mint_token :: "string \<Rightarrow> string \<Rightarrow> string" where
  "mint_token dcid addr = ''quiche'' @ addr @ dcid"

definition validate_token :: "string \<Rightarrow> string \<Rightarrow> nat \<Rightarrow> string option" where
  \<comment> \<open>the original connection id, which has to fit \<^verbatim>\<open>odcid_len\<close> bytes\<close>
  "validate_token token addr odcid_len =
     (if length token < 6 \<or> take 6 token \<noteq> ''quiche'' then None
      else
        let token = drop 6 token
        in if length token < length addr \<or> take (length addr) token \<noteq> addr then None
           else
             let token = drop (length addr) token
             in if odcid_len < length token then None else Some token)"

definition gen_cid :: "(nat \<Rightarrow> int) \<Rightarrow> nat \<Rightarrow> string" where
  \<comment> \<open>\<^verbatim>\<open>rand\<close> is given by its results\<close>
  "gen_cid rand cid_len = map (\<lambda>i. char_of (nat (rand i mod 256))) [0..<cid_len]"

section \<open>Packets out\<close>

text \<open>The value of the library's \<^verbatim>\<open>QUICHE_ERR_DONE\<close>.\<close>

abbreviation (input) QUICHE_ERR_DONE :: int where "QUICHE_ERR_DONE \<equiv> -1"

record egress =
  written :: int \<comment> \<open>the result of \<^verbatim>\<open>quiche_conn_send\<close>\<close>
  out_bytes :: string
  send_to :: string
  sendto_ret :: int

fun flush_egress :: "egress list \<Rightarrow> (string \<times> string) list" where
  \<comment> \<open>the datagrams given to \<^verbatim>\<open>sendto\<close> with their addresses; where the results end, the loop is still running\<close>
  "flush_egress [] = []"
| "flush_egress (e # es) =
     (if written e = QUICHE_ERR_DONE then []
      else if written e < 0 then []
      else (send_to e, take (nat (written e)) (out_bytes e)) #
           (if sendto_ret e \<noteq> written e then [] else flush_egress es))"

section \<open>Connections\<close>

record conn_io =
  cid :: string \<comment> \<open>the key in the table\<close>
  quiche_handle :: nat
  http3 :: bool \<comment> \<open>not \<^verbatim>\<open>NULL\<close>\<close>
  peer_addr :: string

datatype h3_event =
    QUICHE_H3_EVENT_HEADERS | QUICHE_H3_EVENT_DATA | QUICHE_H3_EVENT_FINISHED
  | QUICHE_H3_EVENT_RESET | QUICHE_H3_EVENT_PRIORITY_UPDATE | QUICHE_H3_EVENT_GOAWAY

record h3_packet =
  header_ok :: bool
  version_supported :: bool
  scid :: string
  dcid :: string
  token :: string
  negotiate_ok :: bool
  retry_ok :: bool
  rands :: "nat \<Rightarrow> int"
  new_conn :: "nat option"
  recv_done :: int
  established :: bool
  h3_new_ok :: bool
  polled :: "(int \<times> h3_event) list"
  packet_egress :: "egress list"

datatype h3_out =
    Version_negotiation string string string \<comment> \<open>the peer and the two identifiers\<close>
  | Retry string string string string \<comment> \<open>the peer, the identifiers and the token\<close>
  | Send_response nat int "(string \<times> string) list"
  | Send_body nat int string
  | Udp string string
  | Poll int

definition h3_answer :: "nat \<Rightarrow> int \<times> h3_event \<Rightarrow> h3_out list" where
  "h3_answer q ev =
     (case ev of
        (s, QUICHE_H3_EVENT_HEADERS) \<Rightarrow>
          [Send_response q s [('':status'', ''200''), (''server'', ''quiche''), (''content-length'', ''14'')],
           Send_body q s (''HTTP/3 Echo!'' @ CRLF)]
      | _ \<Rightarrow> [])"

definition h3_serve :: "h3_packet \<Rightarrow> conn_io \<Rightarrow> conn_io list \<Rightarrow> conn_io list \<times> h3_out list" where
  \<comment> \<open>from \<^verbatim>\<open>quiche_conn_recv\<close> on\<close>
  "h3_serve p c cs =
     (let flushed = map (\<lambda>(a, b). Udp a b) (flush_egress (packet_egress p))
      in if recv_done p < 0 then (cs, [])
         else if \<not> established p then (cs, flushed)
         else
           let c' = (if http3 c then c else c\<lparr>http3 := h3_new_ok p\<rparr>)
           in (map (\<lambda>x. if x = c then c' else x) cs,
               (if http3 c' then concat (map (h3_answer (quiche_handle c)) (polled p)) else []) @ flushed))"

definition h3_datagram ::
  "(conn_io list \<Rightarrow> string \<Rightarrow> conn_io option) \<Rightarrow> h3_packet \<Rightarrow> string \<Rightarrow> conn_io list \<Rightarrow>
   (conn_io list \<times> h3_out list) option" where
  \<comment> \<open>a datagram that was received from \<^verbatim>\<open>peer\<close>; \<^verbatim>\<open>cid\<close> has 16 bytes\<close>
  "h3_datagram hash_find p peer cs =
     (if \<not> header_ok p then Some (cs, [])
      else (case hash_find cs (dcid p) of
              Some c \<Rightarrow> Some (h3_serve p c cs)
            | None \<Rightarrow>
                if \<not> version_supported p
                then Some (cs, if negotiate_ok p then [Version_negotiation peer (scid p) (dcid p)] else [])
                else if token p = []
                then Some (cs, if retry_ok p
                               then [Retry peer (scid p) (gen_cid (rands p) 16) (mint_token (dcid p) peer)] else [])
                else (case validate_token (token p) peer 20 of
                        None \<Rightarrow> Some (cs, [])
                      | Some _ \<Rightarrow>
                          (case new_conn p of
                             None \<Rightarrow> Some (cs, [])
                           | Some q \<Rightarrow>
                               if length (scid p) > 16 then None
                               else
                                 let c = \<lparr>cid = scid p, quiche_handle = q, http3 = False, peer_addr = peer\<rparr>
                                 in Some (h3_serve p c (cs @ [c]))))))"

section \<open>The worker\<close>

datatype h3_recv =
    Recv_failed \<comment> \<open>with \<^verbatim>\<open>EWOULDBLOCK\<close> or another error, the turn ends\<close>
  | Received h3_packet string \<comment> \<open>the datagram and the peer's address\<close>

record h3_turn =
  closed :: "nat \<Rightarrow> bool" \<comment> \<open>\<^verbatim>\<open>quiche_conn_is_closed\<close> after the timeout was handled\<close>
  timeouts :: "nat \<Rightarrow> u64"
  timeout_egress :: "nat \<Rightarrow> egress list"
  poll_res :: int
  poll_eintr :: bool
  pollin :: bool
  h3_recv :: h3_recv

definition h3_sweep :: "h3_turn \<Rightarrow> conn_io list \<Rightarrow> conn_io list \<times> h3_out list" where
  \<comment> \<open>the pass over all connections before \<^verbatim>\<open>poll\<close>\<close>
  "h3_sweep t cs =
     (filter (\<lambda>c. \<not> closed t (quiche_handle c)) cs,
      concat (map (\<lambda>c. map (\<lambda>(a, b). Udp a b) (flush_egress (timeout_egress t (quiche_handle c)))) cs))"

definition poll_timeout :: "u64 list \<Rightarrow> int" where
  \<comment> \<open>the milliseconds given to \<^verbatim>\<open>poll\<close>, from the timeouts of the connections in nanoseconds\<close>
  "poll_timeout ts =
     (let min_timeout = foldl (\<lambda>m t. if t < m then t else m) (- 1) ts;
          timeout_ms = (if min_timeout \<noteq> - 1 then sint (word_of_int (uint min_timeout div 1000000) :: i32) else -1)
      in if timeout_ms > 0 \<and> timeout_ms < 500 then timeout_ms else 500)"

definition h3_turn_step ::
  "(conn_io list \<Rightarrow> string \<Rightarrow> conn_io option) \<Rightarrow> h3_turn \<Rightarrow> conn_io list \<Rightarrow>
   (bool \<times> conn_io list \<times> h3_out list) option" where
  \<comment> \<open>one turn of \<^verbatim>\<open>while (1)\<close>: whether it goes on\<close>
  "h3_turn_step hash_find t cs =
     (case h3_sweep t cs of
        (cs, out) \<Rightarrow>
          (let out = out @ [Poll (poll_timeout (map (\<lambda>c. timeouts t (quiche_handle c)) cs))]
           in if poll_res t < 0 then Some (poll_eintr t, cs, out)
              else if poll_res t > 0 \<and> pollin t
              then (case h3_recv t of
                      Recv_failed \<Rightarrow> Some (True, cs, out)
                    | Received p peer \<Rightarrow>
                        map_option (\<lambda>(cs, out'). (True, cs, out @ out')) (h3_datagram hash_find p peer cs))
              else Some (True, cs, out)))"

fun http3_worker_thread ::
  "(conn_io list \<Rightarrow> string \<Rightarrow> conn_io option) \<Rightarrow> h3_turn list \<Rightarrow> conn_io list \<Rightarrow>
   (conn_io list \<times> h3_out list) option" where
  "http3_worker_thread hash_find [] cs = Some (cs, [])"
| "http3_worker_thread hash_find (t # ts) cs =
     (case h3_turn_step hash_find t cs of
        None \<Rightarrow> None
      | Some (go_on, cs, out) \<Rightarrow>
          if \<not> go_on then Some (cs, out)
          else map_option (\<lambda>(cs, outs). (cs, out @ outs)) (http3_worker_thread hash_find ts cs))"

section \<open>Start\<close>

record quiche_config =
  application_protos :: string
  max_idle_timeout :: nat
  max_recv_udp_payload_size :: nat
  max_send_udp_payload_size :: nat
  initial_max_data :: nat
  initial_max_stream_data :: nat \<comment> \<open>of all three kinds of streams\<close>
  initial_max_streams :: nat \<comment> \<open>of both directions\<close>
  disable_active_migration :: bool
  cert_chain_loaded :: bool
  priv_key_loaded :: bool

record h3_start_env =
  quic_config_ok :: bool
  cert_ok :: bool \<comment> \<open>\<^verbatim>\<open>server.crt\<close> could be loaded; the result is not looked at\<close>
  key_ok :: bool
  h3_config_ok :: bool
  udp_fd :: int
  udp_bind_ok :: bool
  worker_create_ok :: bool

record h3_state =
  g_quic_config :: "quiche_config option"
  g_http3_config :: bool \<comment> \<open>not \<^verbatim>\<open>NULL\<close>\<close>
  g_udp_socket :: int
  worker_port :: "int option" \<comment> \<open>the UDP port the running worker thread reads from\<close>

definition h3_init_state :: h3_state where
  "h3_init_state = \<lparr>g_quic_config = None, g_http3_config = False, g_udp_socket = -1, worker_port = None\<rparr>"

definition start_http3_server :: "h3_start_env \<Rightarrow> int \<Rightarrow> h3_state \<Rightarrow> h3_state option" where
  \<comment> \<open>\<^verbatim>\<open>pthread_detach\<close> of a thread that could not be created is undefined\<close>
  "start_http3_server env port st =
     (if \<not> quic_config_ok env then Some (st\<lparr>g_quic_config := None\<rparr>)
      else
        let st = st\<lparr>g_quic_config := Some
                     \<lparr>application_protos = [CHR 0x02] @ ''h3'', max_idle_timeout = 5000,
                      max_recv_udp_payload_size = 1350, max_send_udp_payload_size = 1350,
                      initial_max_data = 10000000, initial_max_stream_data = 1000000, initial_max_streams = 100,
                      disable_active_migration = True, cert_chain_loaded = cert_ok env, priv_key_loaded = key_ok env\<rparr>\<rparr>;
            st = st\<lparr>g_http3_config := h3_config_ok env\<rparr>
        in if \<not> h3_config_ok env then Some st
           else
             let st = st\<lparr>g_udp_socket := udp_fd env\<rparr>
             in if udp_fd env < 0 then Some st
                else if \<not> udp_bind_ok env then Some st
                else if \<not> worker_create_ok env then None
                else Some (st\<lparr>worker_port := Some port\<rparr>))"

end
