(* ===== verification/Http3_Props.thy ===== *)
theory Http3_Props
  imports Http3
begin

text \<open>Properties of the QUIC worker: its tokens, and which datagrams reach a connection.\<close>

section \<open>Tokens\<close>

lemma validate_token_iff:
  "validate_token tok addr n = Some odcid \<longleftrightarrow> tok = mint_token odcid addr \<and> length odcid \<le> n"
proof
  assume v: "validate_token tok addr n = Some odcid"
  let ?r = "drop 6 tok"
  from v have "take 6 tok = ''quiche''" "take (length addr) ?r = addr" "odcid = drop (length addr) ?r" "length odcid \<le> n"
    by (auto simp: validate_token_def Let_def split: if_splits)
  then show "tok = mint_token odcid addr \<and> length odcid \<le> n"
    unfolding mint_token_def by (metis append_take_drop_id)
next
  assume "tok = mint_token odcid addr \<and> length odcid \<le> n"
  then show "validate_token tok addr n = Some odcid" by (simp add: validate_token_def mint_token_def)
qed

text \<open>
  A token is valid exactly when it is the one the worker mints. For every address and every bound of the
  original connection id, validation accepts a byte string and returns an id if and only if
  the string is the token minted for that id and address and the id fits. A token holds no secret.
\<close>
theorem token_valid_iff:
  "validate_token tok addr n = Some odcid \<longleftrightarrow> tok = mint_token odcid addr \<and> length odcid \<le> n"
  by (rule validate_token_iff)

section \<open>Connections\<close>

definition came_with_token :: "h3_turn set \<Rightarrow> conn_io \<Rightarrow> bool" where
  \<comment> \<open>a datagram from the connection's peer that made it and carried the token minted for that peer\<close>
  "came_with_token T c \<longleftrightarrow>
     (\<exists>t \<in> T. \<exists>p odcid. h3_recv t = Received p (peer_addr c) \<and> cid c = scid p \<and> new_conn p = Some (quiche_handle c) \<and>
        token p = mint_token odcid (peer_addr c) \<and> length odcid \<le> 20)"

definition all_validated :: "h3_turn set \<Rightarrow> conn_io list \<Rightarrow> bool" where
  "all_validated T cs \<longleftrightarrow> (\<forall>c \<in> set cs. came_with_token T c)"

definition validated_handle :: "h3_turn set \<Rightarrow> nat \<Rightarrow> bool" where
  "validated_handle T q \<longleftrightarrow> (\<exists>c. came_with_token T c \<and> quiche_handle c = q)"

fun out_ok :: "h3_turn set \<Rightarrow> h3_out \<Rightarrow> bool" where
  \<comment> \<open>responses go to validated connections only, and the worker never waits longer than half a second\<close>
  "out_ok T (Send_response q s hs) \<longleftrightarrow> validated_handle T q"
| "out_ok T (Send_body q s b) \<longleftrightarrow> validated_handle T q"
| "out_ok T (Poll w) \<longleftrightarrow> 0 < w \<and> w \<le> 500"
| "out_ok T _ \<longleftrightarrow> True"

definition table_search :: "(conn_io list \<Rightarrow> string \<Rightarrow> conn_io option) \<Rightarrow> bool" where
  \<comment> \<open>what the hash table's search promises\<close>
  "table_search f \<longleftrightarrow> (\<forall>cs k c. f cs k = Some c \<longrightarrow> c \<in> set cs \<and> cid c = k)"

fun short_id :: "h3_recv \<Rightarrow> bool" where
  "short_id (Received p _) \<longleftrightarrow> length (scid p) \<le> 16"
| "short_id Recv_failed \<longleftrightarrow> True"

lemma came_with_token_http3 [simp]: "came_with_token T (c\<lparr>http3 := b\<rparr>) = came_with_token T c"
  by (simp add: came_with_token_def)

lemma serve_validated:
  assumes "all_validated T cs" "came_with_token T c"
  shows "all_validated T (fst (h3_serve p c cs)) \<and> list_all (out_ok T) (snd (h3_serve p c cs))"
proof -
  have "validated_handle T (quiche_handle c)" using assms(2) by (auto simp: validated_handle_def)
  then have "list_all (out_ok T) (h3_answer (quiche_handle c) ev)" for ev
    by (auto simp: h3_answer_def split: prod.split h3_event.split)
  then have "list_all (out_ok T) (concat (map (h3_answer (quiche_handle c)) evs))" for evs
    by (induction evs) simp_all
  moreover have "list_all (out_ok T) (map (\<lambda>(a, b). Udp a b) xs)" for xs
    by (induction xs) auto
  ultimately show ?thesis
    using assms by (auto simp: h3_serve_def all_validated_def Let_def)
qed

lemma datagram_validated:
  assumes "all_validated T cs" "t \<in> T" "h3_recv t = Received p peer" "length (scid p) \<le> 16" "table_search f"
  shows "\<exists>r. h3_datagram f p peer cs = Some r \<and> all_validated T (fst r) \<and> list_all (out_ok T) (snd r)"
proof (cases "f cs (dcid p)")
  case None
  let ?c = "\<lambda>q. \<lparr>cid = scid p, quiche_handle = q, http3 = False, peer_addr = peer\<rparr>"
  have "came_with_token T (?c q)" if "validate_token (token p) peer 20 = Some i" "new_conn p = Some q" for q i
    using assms(2,3) that by (auto simp: came_with_token_def validate_token_iff)
  moreover from this assms(1) have "all_validated T (cs @ [?c q])"
    if "validate_token (token p) peer 20 = Some i" "new_conn p = Some q" for q i
    using that by (auto simp: all_validated_def)
  ultimately show ?thesis
    using serve_validated assms(1,4) None
    by (auto simp: h3_datagram_def Let_def simp del: split_paired_Ex split: option.splits)
next
  case (Some c)
  with assms(1,5) have "came_with_token T c" by (auto simp: table_search_def all_validated_def)
  from serve_validated [OF assms(1) this] Some assms(1) show ?thesis
    by (auto simp: h3_datagram_def simp del: split_paired_Ex)
qed

lemma poll_timeout_bounds: "0 < poll_timeout ts \<and> poll_timeout ts \<le> 500"
  by (simp add: poll_timeout_def Let_def)

lemma turn_validated:
  assumes "all_validated T cs" "t \<in> T" "short_id (h3_recv t)" "table_search f"
  shows "\<exists>go cs' out. h3_turn_step f t cs = Some (go, cs', out) \<and> all_validated T cs' \<and> list_all (out_ok T) out"
proof -
  obtain ds o1 where s: "h3_sweep t cs = (ds, o1)" by fastforce
  have "list_all (out_ok T) (map (\<lambda>(a, b). Udp a b) xs)" for xs by (induction xs) auto
  then have "list_all (out_ok T) (concat (map (\<lambda>c. map (\<lambda>(a, b). Udp a b) (g c)) cs))" for g
    by (induction cs) simp_all
  with s assms(1) have ds: "all_validated T ds" "list_all (out_ok T) o1"
    by (auto simp: h3_sweep_def all_validated_def)
  show ?thesis
  proof (cases "h3_recv t")
    case Recv_failed
    with ds s poll_timeout_bounds show ?thesis by (auto simp: h3_turn_step_def Let_def)
  next
    case (Received p peer)
    with assms(3) have "length (scid p) \<le> 16" by simp
    from datagram_validated [OF ds(1) assms(2) Received this assms(4)] obtain r where
      "h3_datagram f p peer ds = Some r" "all_validated T (fst r)" "list_all (out_ok T) (snd r)" by blast
    with ds s Received poll_timeout_bounds show ?thesis
      by (auto simp: h3_turn_step_def Let_def split: prod.split)
  qed
qed

lemma worker_validated:
  "all_validated T cs \<Longrightarrow> list_all (\<lambda>t. t \<in> T \<and> short_id (h3_recv t)) ts \<Longrightarrow> table_search f \<Longrightarrow>
     \<exists>cs' out. http3_worker_thread f ts cs = Some (cs', out) \<and> all_validated T cs' \<and> list_all (out_ok T) out"
proof (induction ts arbitrary: cs)
  case (Cons t ts)
  then have t: "t \<in> T" "short_id (h3_recv t)" by simp_all
  from turn_validated [OF Cons.prems(1) t Cons.prems(3)] obtain go ds out where
    d: "h3_turn_step f t cs = Some (go, ds, out)" "all_validated T ds" "list_all (out_ok T) out" by blast
  with Cons.IH [OF d(2)] Cons.prems show ?case by (cases go) fastforce+
qed simp


definition first_match :: "conn_io list \<Rightarrow> string \<Rightarrow> conn_io option" where
  "first_match cs k = find (\<lambda>c. cid c = k) cs"

definition demo_packet :: "string \<Rightarrow> string \<Rightarrow> h3_packet" where
  "demo_packet d tok =
     \<lparr>header_ok = True, version_supported = True, scid = ''client'', dcid = d, token = tok, negotiate_ok = True,
      retry_ok = True, rands = (\<lambda>_. 97), new_conn = Some 1, recv_done = 10, established = True, h3_new_ok = True,
      polled = [(0, QUICHE_H3_EVENT_HEADERS)],
      packet_egress = [\<lparr>written = 2, out_bytes = ''hi'', send_to = ''addr'', sendto_ret = 2\<rparr>,
                       \<lparr>written = QUICHE_ERR_DONE, out_bytes = [], send_to = [], sendto_ret = 0\<rparr>]\<rparr>"

definition demo_h3_turn :: "h3_packet \<Rightarrow> h3_turn" where
  "demo_h3_turn p =
     \<lparr>closed = (\<lambda>_. False), timeouts = (\<lambda>_. 20000000), timeout_egress = (\<lambda>_. []), poll_res = 1, poll_eintr = False,
      pollin = True, h3_recv = Received p ''addr''\<rparr>"


end
