(* ===== verification/Logger.thy ===== *)
theory Logger
  imports Config Machine
begin

text \<open>
  \<^verbatim>\<open>src/src/logger.c\<close> and the part of \<^verbatim>\<open>main\<close> that configures it: the level filter, the sinks and the
  rotation of the log file. The clock and \<^verbatim>\<open>strftime\<close> are texts of the environment, the files a map from
  paths to contents. \<^term>\<open>None\<close> stands for signed overflow.
\<close>

section \<open>Data\<close>

fun level_value :: "LogLevelEnum \<Rightarrow> nat" where
  "level_value LOG_LEVEL_DEBUG = 0"
| "level_value LOG_LEVEL_INFO = 1"
| "level_value LOG_LEVEL_WARN = 2"
| "level_value LOG_LEVEL_ERROR = 3"
| "level_value LOG_LEVEL_CRITICAL = 4"

lemma level_value_inj: "level_value a = level_value b \<longleftrightarrow> a = b"
  by (cases a; cases b) simp_all

instantiation LogLevelEnum :: linorder
begin

definition less_eq_LogLevelEnum :: "LogLevelEnum \<Rightarrow> LogLevelEnum \<Rightarrow> bool" where
  "less_eq_LogLevelEnum a b \<longleftrightarrow> level_value a \<le> level_value b"

definition less_LogLevelEnum :: "LogLevelEnum \<Rightarrow> LogLevelEnum \<Rightarrow> bool" where
  "less_LogLevelEnum a b \<longleftrightarrow> level_value a < level_value b"

instance
  by standard (auto simp: less_eq_LogLevelEnum_def less_LogLevelEnum_def level_value_inj)

end

datatype LogFormat = LOG_FORMAT_PLAIN | LOG_FORMAT_SQUID | LOG_FORMAT_CLF | LOG_FORMAT_JSON

record LoggerConfig =
  lc_level :: LogLevelEnum
  lc_format :: LogFormat
  lc_log_file :: string
  lc_use_stdout :: bool
  lc_use_syslog :: bool
  lc_rotation_enabled :: bool
  lc_max_file_size_mb :: int

record logger_state =
  g_logger_config :: LoggerConfig
  g_log_fp :: "string option" \<comment> \<open>the path of the open file\<close>
  log_files :: file_system

record log_env =
  fstat_ok :: bool
  rename_ok :: bool
  reopen_ok :: bool
  local_time :: string
  squid_time :: string
  utc_time :: string
  clf_time :: string
  elapsed_squid :: string
  elapsed_json :: string

datatype log_out = Stdout string | Stderr string | Syslog nat string

section \<open>The log file\<close>

definition file_text :: "string \<Rightarrow> logger_state \<Rightarrow> string" where
  "file_text p st = (case log_files st p of None \<Rightarrow> [] | Some t \<Rightarrow> t)"

definition open_append :: "string \<Rightarrow> logger_state \<Rightarrow> logger_state" where
  \<comment> \<open>\<^verbatim>\<open>fopen(path, "a")\<close>, which creates the file\<close>
  "open_append p st = st\<lparr>g_log_fp := Some p, log_files := (log_files st)(p \<mapsto> file_text p st)\<rparr>"

definition rename_file :: "string \<Rightarrow> string \<Rightarrow> file_system \<Rightarrow> file_system" where
  "rename_file old new fs = (case fs old of None \<Rightarrow> fs | Some t \<Rightarrow> (fs(old := None))(new \<mapsto> t))"

definition int_result :: "int \<Rightarrow> int option" where
  "int_result n = (if - (2 ^ 31) \<le> n \<and> n < 2 ^ 31 then Some n else None)"

definition max_log_size :: "int \<Rightarrow> int option" where
  \<comment> \<open>\<^verbatim>\<open>max_file_size_mb * 1024 * 1024\<close>, computed as \<^verbatim>\<open>int\<close>\<close>
  "max_log_size mb = Option.bind (int_result (mb * 1024)) (\<lambda>k. int_result (k * 1024))"

definition backup_name :: "string \<Rightarrow> string" where
  "backup_name p = snprintf 1024 (p @ ''.1'')"

definition rotate_log_if_needed :: "log_env \<Rightarrow> logger_state \<Rightarrow> logger_state option" where
  "rotate_log_if_needed env st =
     (let c = g_logger_config st
      in case g_log_fp st of
           None \<Rightarrow> Some st
         | Some p \<Rightarrow>
             if \<not> lc_rotation_enabled c \<or> \<not> fstat_ok env then Some st
             else (case max_log_size (lc_max_file_size_mb c) of
                     None \<Rightarrow> None
                   | Some max_size \<Rightarrow>
                       if int (length (file_text p st)) < max_size then Some st
                       else
                         let st = (if rename_ok env
                                   then st\<lparr>log_files := rename_file (lc_log_file c) (backup_name (lc_log_file c)) (log_files st)\<rparr>
                                   else st)
                         in Some (if reopen_ok env then open_append (lc_log_file c) st else st\<lparr>g_log_fp := None\<rparr>)))"

definition write_file :: "string \<Rightarrow> logger_state \<Rightarrow> logger_state" where
  "write_file text st =
     (case g_log_fp st of
        None \<Rightarrow> st
      | Some p \<Rightarrow> st\<lparr>log_files := (log_files st)(p \<mapsto> file_text p st @ text)\<rparr>)"

section \<open>Operations\<close>

definition logger_set_level :: "LogLevelEnum \<Rightarrow> logger_state \<Rightarrow> logger_state" where
  "logger_set_level l st = st\<lparr>g_logger_config := (g_logger_config st)\<lparr>lc_level := l\<rparr>\<rparr>"

definition logger_init :: "bool \<Rightarrow> LoggerConfig option \<Rightarrow> logger_state \<Rightarrow> bool \<times> logger_state" where
  \<comment> \<open>\<^verbatim>\<open>fopen_ok\<close> says whether the file can be opened\<close>
  "logger_init fopen_ok config st =
     (let st = (case config of None \<Rightarrow> st | Some c \<Rightarrow> st\<lparr>g_logger_config := c\<rparr>);
          p = lc_log_file (g_logger_config st)
      in if p = [] then (True, st)
         else if fopen_ok then (True, open_append p st)
         else (False, st\<lparr>g_log_fp := None\<rparr>))"

definition logger_shutdown :: "logger_state \<Rightarrow> logger_state" where
  "logger_shutdown st = st\<lparr>g_log_fp := None\<rparr>"

definition level_to_string :: "LogLevelEnum \<Rightarrow> string" where
  "level_to_string l =
     (case l of LOG_LEVEL_DEBUG \<Rightarrow> ''DEBUG'' | LOG_LEVEL_INFO \<Rightarrow> ''INFO'' | LOG_LEVEL_WARN \<Rightarrow> ''WARN''
      | LOG_LEVEL_ERROR \<Rightarrow> ''ERROR'' | LOG_LEVEL_CRITICAL \<Rightarrow> ''CRITICAL'')"

definition syslog_level :: "LogLevelEnum \<Rightarrow> nat" where
  "syslog_level l =
     (case l of LOG_LEVEL_DEBUG \<Rightarrow> 7 | LOG_LEVEL_INFO \<Rightarrow> 6 | LOG_LEVEL_WARN \<Rightarrow> 4
      | LOG_LEVEL_ERROR \<Rightarrow> 3 | LOG_LEVEL_CRITICAL \<Rightarrow> 2)"

definition json_field :: "string \<Rightarrow> string \<Rightarrow> string" where
  "json_field k v = [QUOTE] @ k @ [QUOTE] @ '':'' @ v"

definition json_string :: "string \<Rightarrow> string" where
  \<comment> \<open>nothing is escaped\<close>
  "json_string v = [QUOTE] @ v @ [QUOTE]"

fun json_fields :: "string list \<Rightarrow> string" where
  "json_fields [] = []"
| "json_fields [f] = f"
| "json_fields (f # g # fs) = f @ '','' @ json_fields (g # fs)"

definition log_text :: "log_env \<Rightarrow> LogFormat \<Rightarrow> LogLevelEnum \<Rightarrow> string \<Rightarrow> string \<Rightarrow> string \<Rightarrow> string \<Rightarrow> string" where
  "log_text env fmt level file line func buffer =
     snprintf 4096
       (if fmt = LOG_FORMAT_JSON
        then ''{'' @ json_fields [json_field ''timestamp'' (json_string (local_time env)),
               json_field ''level'' (json_string (level_to_string level)),
               json_field ''file'' (json_string (file @ '':'' @ line)),
               json_field ''func'' (json_string func), json_field ''msg'' (json_string buffer)] @ ''}'' @ [LF]
        else ''['' @ local_time env @ ''] ['' @ level_to_string level @ ''] ['' @ file @ '':'' @ line @ ''] '' @ buffer @ [LF])"

definition logger_log ::
  "log_env \<Rightarrow> LogLevelEnum \<Rightarrow> string \<Rightarrow> string \<Rightarrow> string \<Rightarrow> string \<Rightarrow> logger_state \<Rightarrow> (logger_state \<times> log_out list) option" where
  \<comment> \<open>\<^verbatim>\<open>line\<close> is the decimal line number and \<^verbatim>\<open>msg\<close> the text of the format and its arguments\<close>
  "logger_log env level file line func msg st =
     (if level < lc_level (g_logger_config st) then Some (st, [])
      else
        let buffer = snprintf 2048 msg;
            c = g_logger_config st;
            text = log_text env (lc_format c) level file line func buffer
        in case rotate_log_if_needed env st of
             None \<Rightarrow> None
           | Some st \<Rightarrow>
               Some (write_file text st,
                 (if \<not> lc_use_stdout c then []
                  else if lc_format c \<noteq> LOG_FORMAT_JSON \<and> LOG_LEVEL_ERROR \<le> level then [Stderr text]
                  else [Stdout text]) @
                 (if lc_use_syslog c
                  then [Syslog (syslog_level level) (''['' @ file @ '':'' @ line @ ''] '' @ buffer)] else [])))"

definition or_dash :: "string option \<Rightarrow> string" where
  "or_dash s = (case s of None \<Rightarrow> ''-'' | Some t \<Rightarrow> t)"

record access_record =
  a_client_ip :: "string option"
  a_status :: int
  a_size :: nat
  a_method :: "string option"
  a_url :: "string option"
  a_content_type :: "string option"
  a_trace_id :: "string option"

definition access_entry :: "log_env \<Rightarrow> LogFormat \<Rightarrow> access_record \<Rightarrow> string" where
  \<comment> \<open>the text the format gives, before it is cut to the buffer\<close>
  "access_entry env fmt a =
     (let ip = or_dash (a_client_ip a); m = or_dash (a_method a); u = or_dash (a_url a);
          ct = or_dash (a_content_type a); trace = or_dash (a_trace_id a)
      in case fmt of
           LOG_FORMAT_SQUID \<Rightarrow>
             squid_time env @ '' '' @ elapsed_squid env @ '' '' @ ip @ '' '' @
             (if a_status a \<ge> 400 then ''ERR'' else ''TCP_MISS'') @ ''/'' @ show_int (a_status a) @ '' '' @
             show_nat (a_size a) @ '' '' @ m @ '' '' @ u @ '' - DIRECT/- '' @ ct @ '' ['' @ trace @ '']'' @ [LF]
         | LOG_FORMAT_JSON \<Rightarrow>
             ''{'' @ json_fields [json_field ''type'' (json_string ''access''),
               json_field ''timestamp'' (json_string (utc_time env)), json_field ''client_ip'' (json_string ip),
               json_field ''status'' (show_int (a_status a)), json_field ''size'' (show_nat (a_size a)),
               json_field ''method'' (json_string m), json_field ''url'' (json_string u),
               json_field ''elapsed_ms'' (elapsed_json env), json_field ''content_type'' (json_string ct),
               json_field ''trace_id'' (json_string trace)] @ ''}'' @ [LF]
         | _ \<Rightarrow>
             ip @ '' - - ['' @ clf_time env @ ''] '' @ [QUOTE] @ m @ '' '' @ u @ '' HTTP/1.1'' @ [QUOTE] @ '' '' @
             show_int (a_status a) @ '' '' @ show_nat (a_size a) @ '' '' @ [QUOTE] @ ''-'' @ [QUOTE] @ '' '' @
             [QUOTE] @ ''-'' @ [QUOTE] @ '' ['' @ trace @ '']'' @ [LF])"

definition logger_access_log ::
  "log_env \<Rightarrow> access_record \<Rightarrow> logger_state \<Rightarrow> (logger_state \<times> log_out list) option" where
  "logger_access_log env a st =
     (let c = g_logger_config st; text = snprintf 4096 (access_entry env (lc_format c) a)
      in case rotate_log_if_needed env st of
           None \<Rightarrow> None
         | Some st \<Rightarrow> Some (write_file text st, if lc_use_stdout c then [Stdout text] else []))"

definition logger_settings :: "bool \<Rightarrow> ProxyConfig \<Rightarrow> LoggerConfig" where
  \<comment> \<open>\<^verbatim>\<open>log_cfg\<close> as \<^verbatim>\<open>main\<close> fills it; \<^verbatim>\<open>use_stdout\<close> keeps what the stack held, \<^verbatim>\<open>junk\<close>\<close>
  "logger_settings junk g =
     \<lparr>lc_level = runtime_log_level (log_level g),
      lc_format = (if log_format g = ''JSON'' then LOG_FORMAT_JSON
                   else if log_format g = ''CLF'' then LOG_FORMAT_CLF else LOG_FORMAT_SQUID),
      lc_log_file = strncpy_term 512 (log_file g), lc_use_stdout = junk, lc_use_syslog = False,
      lc_rotation_enabled = log_rotation g, lc_max_file_size_mb = log_max_size_mb g\<rparr>"

end
