(* ===== verification/Logger_Props.thy ===== *)
theory Logger_Props
  imports Logger
begin

text \<open>
  Properties of the logger: the files stay bounded under rotation and no text is lost before the next
  rotation; an access record is one line unless it is cut; and the sizes at which the rotation is not
  defined.
\<close>

section \<open>Rotation\<close>

definition log_ready :: "logger_state \<Rightarrow> string \<Rightarrow> int \<Rightarrow> bool" where
  "log_ready st p mb \<longleftrightarrow>
     g_log_fp st = Some p \<and> lc_log_file (g_logger_config st) = p \<and> length p < 512 \<and>
     lc_rotation_enabled (g_logger_config st) \<and> lc_max_file_size_mb (g_logger_config st) = mb \<and> 1 \<le> mb \<and> mb < 2048"

definition env_ok :: "log_env \<Rightarrow> bool" where
  "env_ok env \<longleftrightarrow> fstat_ok env \<and> rename_ok env \<and> reopen_ok env"

lemma backup_name_append: "length p < 512 \<Longrightarrow> backup_name p = p @ ''.1''"
  by (simp add: backup_name_def snprintf_def)

lemma max_log_size_Some: "1 \<le> mb \<Longrightarrow> mb < 2048 \<Longrightarrow> max_log_size mb = Some (mb * 1048576)"
  by (simp add: max_log_size_def int_result_def)

lemma max_log_size_None: "2048 \<le> mb \<Longrightarrow> max_log_size mb = None"
  by (auto simp: max_log_size_def int_result_def)

lemma same_fp: "g_log_fp st = Some p \<Longrightarrow> st\<lparr>g_log_fp := Some p\<rparr> = st"
  by (cases st) simp

lemma rotate_ready:
  assumes "log_ready st p mb" "env_ok env"
  shows "rotate_log_if_needed env st =
    Some (if int (length (file_text p st)) < mb * 1048576 then st
          else st\<lparr>log_files := (log_files st)(p \<mapsto> [], p @ ''.1'' \<mapsto> file_text p st)\<rparr>)"
proof (cases "int (length (file_text p st)) < mb * 1048576")
  case True
  with assms show ?thesis
    by (auto simp: rotate_log_if_needed_def log_ready_def env_ok_def max_log_size_Some)
next
  case False
  with assms obtain t where t: "log_files st p = Some t"
    by (cases "log_files st p") (auto simp: log_ready_def file_text_def)
  have b: "backup_name p = p @ ''.1''" using assms backup_name_append by (simp add: log_ready_def)
  have "open_append p (st\<lparr>log_files := rename_file p (p @ ''.1'') (log_files st)\<rparr>) =
      st\<lparr>log_files := (log_files st)(p \<mapsto> [], p @ ''.1'' \<mapsto> t)\<rparr>"
    using assms t same_fp [of "st\<lparr>log_files := (log_files st)(p \<mapsto> [], p @ ''.1'' \<mapsto> t)\<rparr>" p]
    by (auto simp: open_append_def rename_file_def file_text_def log_ready_def fun_upd_twist)
  with False assms t b show ?thesis
    by (auto simp: rotate_log_if_needed_def log_ready_def env_ok_def max_log_size_Some file_text_def Let_def)
qed

text \<open>One entry is appended to the file, or to an empty file whose predecessor is the backup.\<close>

definition entry_written :: "string \<Rightarrow> int \<Rightarrow> string \<Rightarrow> logger_state \<Rightarrow> logger_state \<Rightarrow> bool" where
  "entry_written p mb text st st' \<longleftrightarrow>
     (if int (length (file_text p st)) < mb * 1048576
      then file_text p st' = file_text p st @ text \<and> file_text (p @ ''.1'') st' = file_text (p @ ''.1'') st
      else file_text p st' = text \<and> file_text (p @ ''.1'') st' = file_text p st)"

lemma write_ready:
  assumes "log_ready st p mb"
  shows "log_ready (write_file text st) p mb" "file_text p (write_file text st) = file_text p st @ text"
    "file_text (p @ ''.1'') (write_file text st) = file_text (p @ ''.1'') st"
    "g_logger_config (write_file text st) = g_logger_config st"
  using assms by (auto simp: log_ready_def write_file_def file_text_def)

lemma rotate_write:
  assumes "log_ready st p mb" "env_ok env"
  shows "\<exists>st1. rotate_log_if_needed env st = Some st1 \<and> log_ready (write_file text st1) p mb \<and>
    entry_written p mb text st (write_file text st1)"
proof (cases "int (length (file_text p st)) < mb * 1048576")
  case True
  with rotate_ready [OF assms] write_ready [OF assms(1)] show ?thesis by (simp add: entry_written_def)
next
  case False
  let ?st1 = "st\<lparr>log_files := (log_files st)(p \<mapsto> [], p @ ''.1'' \<mapsto> file_text p st)\<rparr>"
  have "log_ready ?st1 p mb" using assms by (simp add: log_ready_def)
  moreover have "file_text p ?st1 = []" "file_text (p @ ''.1'') ?st1 = file_text p st"
    by (simp_all add: file_text_def)
  ultimately show ?thesis
    using False rotate_ready [OF assms] write_ready [of "?st1" p mb "text"]
    by (simp add: entry_written_def)
qed

lemma log_writes:
  assumes "log_ready st p mb" "env_ok env" "lc_level (g_logger_config st) \<le> level"
  shows "\<exists>st' out text. logger_log env level src line func msg st = Some (st', out) \<and>
    log_ready st' p mb \<and> entry_written p mb text st st' \<and> length text < 4096"
  using rotate_write [OF assms(1,2)] assms(3)
  by (fastforce simp: logger_log_def log_text_def snprintf_def Let_def)

lemma access_writes:
  assumes "log_ready st p mb" "env_ok env"
  shows "\<exists>st' out. logger_access_log env a st = Some (st', out) \<and> log_ready st' p mb \<and>
    entry_written p mb (snprintf 4096 (access_entry env (lc_format (g_logger_config st)) a)) st st'"
  using rotate_write [OF assms] by (fastforce simp: logger_access_log_def Let_def)

section \<open>Every sequence of calls\<close>

datatype log_op =
    Log log_env LogLevelEnum string string string string
  | Access log_env access_record
  | Set_level LogLevelEnum

fun log_step :: "log_op \<Rightarrow> logger_state \<Rightarrow> logger_state option" where
  "log_step (Log env l src line func msg) st = map_option fst (logger_log env l src line func msg st)"
| "log_step (Access env a) st = map_option fst (logger_access_log env a st)"
| "log_step (Set_level l) st = Some (logger_set_level l st)"

fun log_op_ok :: "log_op \<Rightarrow> bool" where
  "log_op_ok (Log env _ _ _ _ _) = env_ok env"
| "log_op_ok (Access env _) = env_ok env"
| "log_op_ok (Set_level _) = True"

definition log_bounded :: "string \<Rightarrow> int \<Rightarrow> logger_state \<Rightarrow> bool" where
  "log_bounded p mb st \<longleftrightarrow>
     log_ready st p mb \<and> int (length (file_text p st)) < mb * 1048576 + 4096 \<and>
     int (length (file_text (p @ ''.1'') st)) < mb * 1048576 + 4096"

lemma written_bounded:
  "entry_written p mb text st st' \<Longrightarrow> log_ready st' p mb \<Longrightarrow> log_bounded p mb st \<Longrightarrow> length text < 4096 \<Longrightarrow>
   log_bounded p mb st'"
  by (auto simp: entry_written_def log_bounded_def log_ready_def split: if_splits)

lemma log_step_bounded:
  assumes b: "log_bounded p mb st" and ok: "log_op_ok x"
  shows "\<exists>t. log_step x st = Some t \<and> log_bounded p mb t"
proof (cases x)
  case (Log env l src line func msg)
  show ?thesis
  proof (cases "l < lc_level (g_logger_config st)")
    case True
    with Log b show ?thesis by (simp add: logger_log_def)
  next
    case False
    from b have ready: "log_ready st p mb" by (simp add: log_bounded_def)
    from log_writes [OF ready, of env l src line func msg] False Log ok written_bounded [OF _ _ b] show ?thesis
      by fastforce
  qed
next
  case (Access env a)
  from b have ready: "log_ready st p mb" by (simp add: log_bounded_def)
  have l: "length (snprintf 4096 u) < 4096" for u by (simp add: snprintf_def)
  from access_writes [OF ready, of env a] Access ok written_bounded [OF _ _ b l] show ?thesis by fastforce
next
  case (Set_level l)
  with b show ?thesis by (simp add: log_bounded_def log_ready_def logger_set_level_def file_text_def)
qed

interpretation bounded_log: safe_machine log_step log_op_ok "log_bounded p mb" for p mb
  by unfold_locales (rule log_step_bounded)

text \<open>
  C29: Rotation bounds the log. With rotation enabled and a limit of 1 to 2047 megabytes, every sequence
  of log calls, access records and level changes returns, and the file and its one backup stay below
  the limit plus one record of 4096 bytes, as long as renaming and reopening succeed.
\<close>
theorem log_files_bounded:
  assumes "log_bounded p mb st" "list_all log_op_ok ops"
  shows "\<exists>st'. run_ops log_step ops st = Some st' \<and>
    int (length (file_text p st')) < mb * 1048576 + 4096 \<and>
    int (length (file_text (p @ ''.1'') st')) < mb * 1048576 + 4096"
  using bounded_log.run_safe [OF assms] by (auto simp: log_bounded_def)

definition demo_log_env :: log_env where
  "demo_log_env =
     \<lparr>fstat_ok = True, rename_ok = True, reopen_ok = True, local_time = ''T'', squid_time = ''1.000'', utc_time = ''T'',
      clf_time = ''T'', elapsed_squid = ''     2'', elapsed_json = ''2.00''\<rparr>"

definition demo_logger :: logger_state where
  "demo_logger = snd (logger_init True
     (Some \<lparr>lc_level = LOG_LEVEL_INFO, lc_format = LOG_FORMAT_SQUID, lc_log_file = ''p'', lc_use_stdout = False,
            lc_use_syslog = False, lc_rotation_enabled = True, lc_max_file_size_mb = 1\<rparr>)
     \<lparr>g_logger_config = \<lparr>lc_level = LOG_LEVEL_INFO, lc_format = LOG_FORMAT_PLAIN, lc_log_file = [], lc_use_stdout = True,
        lc_use_syslog = False, lc_rotation_enabled = False, lc_max_file_size_mb = 10\<rparr>,
      g_log_fp = None, log_files = \<lambda>_. None\<rparr>)"

lemma demo_logger_simps [simp]:
  "g_log_fp demo_logger = Some ''p''" "log_files demo_logger = [''p'' \<mapsto> []]"
  "g_logger_config demo_logger =
     \<lparr>lc_level = LOG_LEVEL_INFO, lc_format = LOG_FORMAT_SQUID, lc_log_file = ''p'', lc_use_stdout = False,
      lc_use_syslog = False, lc_rotation_enabled = True, lc_max_file_size_mb = 1\<rparr>"
  by (simp_all add: demo_logger_def logger_init_def open_append_def file_text_def Let_def)

lemma demo_logger_ready: "log_ready demo_logger ''p'' 1"
  by (simp add: log_ready_def)

theorem log_files_bounded_witness:
  "\<exists>st'. run_ops log_step [Set_level LOG_LEVEL_WARN, Log demo_log_env LOG_LEVEL_ERROR ''f.c'' ''1'' ''f'' ''hello''] demo_logger =
     Some st' \<and> int (length (file_text ''p'' st')) < 1048576 + 4096"
proof -
  have b: "log_bounded ''p'' 1 demo_logger"
    using demo_logger_ready by (simp add: log_bounded_def file_text_def)
  show ?thesis
    using log_files_bounded [OF b, of "[Set_level LOG_LEVEL_WARN, Log demo_log_env LOG_LEVEL_ERROR ''f.c'' ''1'' ''f'' ''hello'']"]
    by (fastforce simp: env_ok_def demo_log_env_def)
qed

section \<open>One access record\<close>

lemma json_fields_append_LF:
  "LF \<in> set (json_fields fs) \<longleftrightarrow> (\<exists>f \<in> set fs. LF \<in> set f)"
  by (induction fs rule: json_fields.induct) auto

definition access_fields :: "log_env \<Rightarrow> access_record \<Rightarrow> string list" where
  "access_fields env a =
     [squid_time env, utc_time env, clf_time env, elapsed_squid env, elapsed_json env, or_dash (a_client_ip a),
      or_dash (a_method a), or_dash (a_url a), or_dash (a_content_type a), or_dash (a_trace_id a)]"

lemma show_nat_LF [simp]: "LF \<notin> set (show_nat n)"
  using show_nat_digits [of n] by (fastforce simp: isdigit_def code_def)

lemma show_int_LF [simp]: "LF \<notin> set (show_int i)"
  by (simp add: show_int_def)

lemma access_entry_line:
  assumes "\<forall>f \<in> set (access_fields env a). LF \<notin> set f"
  shows "\<exists>u. access_entry env fmt a = u @ [LF] \<and> LF \<notin> set u"
  using assms
  by (cases fmt)
    (auto simp: access_entry_def Let_def access_fields_def json_fields_append_LF json_field_def json_string_def
      intro!: exI [of _ "butlast (access_entry env fmt a)"])

text \<open>
  An access record is one line or none. When no field holds a line feed, the text written for a record
  of less than 4096 bytes is one line that ends in its only line feed; a longer record, as a long URL
  makes it, is cut and has no line feed, so the next record continues its line.
\<close>
theorem access_record_lines:
  assumes "log_ready st p mb" "env_ok env" "\<forall>f \<in> set (access_fields env a). LF \<notin> set f"
  shows "\<exists>st' out text. logger_access_log env a st = Some (st', out) \<and> entry_written p mb text st st' \<and>
    filter (\<lambda>c. c = LF) text =
      (if length (access_entry env (lc_format (g_logger_config st)) a) < 4096 then [LF] else [])"
proof -
  let ?e = "access_entry env (lc_format (g_logger_config st)) a"
  from access_entry_line [OF assms(3)] obtain u where u: "?e = u @ [LF]" "LF \<notin> set u" by blast
  then have "filter (\<lambda>c. c = LF) (snprintf 4096 ?e) = (if length ?e < 4096 then [LF] else [])"
    by (auto simp: snprintf_def filter_empty_conv dest: in_set_takeD)
  with access_writes [OF assms(1,2), of a] show ?thesis by blast
qed

definition demo_record :: access_record where
  "demo_record =
     \<lparr>a_client_ip = Some ''10.0.0.1'', a_status = 200, a_size = 0, a_method = Some ''GET'', a_url = Some ''/'',
      a_content_type = None, a_trace_id = Some ''t''\<rparr>"

lemma demo_entry:
  "access_entry demo_log_env LOG_FORMAT_SQUID demo_record =
     ''1.000      2 10.0.0.1 TCP_MISS/200 0 GET / - DIRECT/- - [t]'' @ [LF]"
  by (simp add: access_entry_def demo_log_env_def demo_record_def or_dash_def show_int_def show_nat.simps
      char_of_def bit_numeral_rec bit_Suc_0_iff)

theorem access_record_lines_witness:
  "\<exists>st' out text. logger_access_log demo_log_env demo_record demo_logger = Some (st', out) \<and>
     entry_written ''p'' 1 text demo_logger st' \<and> filter (\<lambda>c. c = LF) text = [LF]"
  using access_record_lines [OF demo_logger_ready, of demo_log_env demo_record]
  by (simp add: env_ok_def demo_entry) (simp add: access_fields_def demo_log_env_def demo_record_def or_dash_def)

section \<open>The size limit\<close>

text \<open>
  A size limit of 2048 megabytes or more passes validation and overflows. With rotation enabled the
  product \<^verbatim>\<open>max_file_size_mb * 1024 * 1024\<close> does not fit an \<^verbatim>\<open>int\<close>, so the first access record after the
  start has no defined behaviour.
\<close>
theorem log_limit_overflows:
  assumes "config_validate g = 0" "log_rotation g" "2048 \<le> log_max_size_mb g" "fstat_ok env"
    and "logger_init True (Some (logger_settings junk g)) st0 = (ok, st)"
  shows "ok \<and> logger_access_log env a st = None"
proof -
  from assms(1) have f: "log_file g \<noteq> []" "length (log_file g) < 512"
    by (auto simp: config_validate_def split: if_splits)
  with assms have "ok" "g_log_fp st = Some (log_file g)" "g_logger_config st = logger_settings junk g"
    by (auto simp: logger_init_def open_append_def logger_settings_def strncpy_term_def Let_def)
  with assms(2-4) show ?thesis
    by (simp add: logger_access_log_def rotate_log_if_needed_def logger_settings_def max_log_size_None Let_def)
qed

theorem log_limit_overflows_witness:
  "let g = (config_init_defaults zero_config)\<lparr>log_rotation := True, log_max_size_mb := 2048\<rparr>
   in config_validate g = 0 \<and>
      logger_access_log demo_log_env demo_record (snd (logger_init True (Some (logger_settings True g)) demo_logger)) = None"
proof -
  let ?g = "(config_init_defaults zero_config)\<lparr>log_rotation := True, log_max_size_mb := 2048\<rparr>"
  have v: "config_validate ?g = 0"
    by (simp add: config_validate_def config_init_defaults_def zero_config_def strncpy_term_def log_level_from_string_def
        strcaseeq_def)
  obtain ok st where i: "logger_init True (Some (logger_settings True ?g)) demo_logger = (ok, st)"
    by (cases "logger_init True (Some (logger_settings True ?g)) demo_logger")
  have "ok \<and> logger_access_log demo_log_env demo_record st = None"
    by (rule log_limit_overflows [OF v _ _ _ i]) (simp_all add: demo_log_env_def)
  with v i show ?thesis by (simp add: Let_def)
qed

end
