(* ===== verification/Admin.thy ===== *)
theory Admin
  imports Metrics Config
begin

text \<open>
  \<^verbatim>\<open>src/src/admin.c\<close>: the administration server, which answers one request per connection with the
  metrics, the health or the status, and its start and stop. The socket calls are arguments.
\<close>

section \<open>A request\<close>

definition scan_word :: "nat \<Rightarrow> string \<Rightarrow> (string \<times> string) option" where
  \<comment> \<open>the conversion \<^verbatim>\<open>%ns\<close> of \<^verbatim>\<open>sscanf\<close>: the word and what follows it\<close>
  "scan_word n s =
     (let t = dropWhile isspace s; w = take n (takeWhile (\<lambda>c. \<not> isspace c) t)
      in if w = [] then None else Some (w, drop (length w) t))"

definition admin_path :: "string \<Rightarrow> string option" where
  \<comment> \<open>\<^verbatim>\<open>None\<close> where \<^verbatim>\<open>sscanf\<close> does not return 2\<close>
  "admin_path buf =
     (case scan_word 15 buf of
        None \<Rightarrow> None
      | Some (_, rest) \<Rightarrow> map_option fst (scan_word 255 rest))"

record admin_env =
  a_recv :: string \<comment> \<open>empty where \<^verbatim>\<open>recv\<close> returns at most 0\<close>
  a_response_ok :: bool
  a_export_ok :: bool

abbreviation APOSTROPHE :: char where "APOSTROPHE \<equiv> CHR 0x27"

definition reply :: "string list \<Rightarrow> string \<Rightarrow> string" where
  "reply ls body = concat (map (\<lambda>l. l @ CRLF) ls) @ CRLF @ body"

definition status_body :: "ProxyConfig \<Rightarrow> string option \<Rightarrow> string" where
  "status_body g metrics =
     ''<html><head><title>Proxy Status</title></head>'' @
     ''<body style='' @ [APOSTROPHE] @ ''font-family:sans-serif; padding:20px;'' @ [APOSTROPHE] @ ''>'' @
     ''<h1>Proxy Server Status</h1>'' @
     ''<h2>Configuration</h2>'' @
     ''<ul>'' @
     ''<li>Port: '' @ show_int (port g) @ ''</li>'' @
     ''<li>Max Clients: '' @ show_int (max_clients g) @ ''</li>'' @
     ''<li>Caching Enabled: '' @ (if enable_cache g then ''Yes'' else ''No'') @ ''</li>'' @
     ''</ul>'' @
     ''<h2>Live Metrics</h2>'' @
     ''<pre style='' @ [APOSTROPHE] @ ''background:#f4f4f4; padding:10px;'' @ [APOSTROPHE] @ ''>'' @
     (case metrics of None \<Rightarrow> ''Unavailable'' | Some t \<Rightarrow> t) @ ''</pre>'' @
     ''</body></html>''"

definition admin_reply :: "admin_env \<Rightarrow> ProxyConfig \<Rightarrow> ServerMetrics \<Rightarrow> string \<Rightarrow> string" where
  \<comment> \<open>what is sent for a path; the query and the method are not looked at\<close>
  "admin_reply env g m path =
     (if path = ''/metrics''
      then (case metrics_export_prometheus (a_export_ok env) m of
              Some t \<Rightarrow>
                snprintf 8192 (reply [''HTTP/1.1 200 OK'', ''Content-Type: text/plain'', ''Connection: close''] t)
            | None \<Rightarrow> reply [''HTTP/1.1 500 Internal Server Error'', ''Connection: close''] [])
      else if path = ''/health''
      then snprintf 8192 (reply [''HTTP/1.1 200 OK'', ''Content-Type: application/json'', ''Connection: close'']
             (''{'' @ [QUOTE] @ ''status'' @ [QUOTE] @ '': '' @ [QUOTE] @ ''UP'' @ [QUOTE] @ ''}''))
      else if path = ''/status''
      then snprintf 8192 (reply [''HTTP/1.1 200 OK'', ''Content-Type: text/html'', ''Connection: close'']
             (status_body g (metrics_export_prometheus (a_export_ok env) m)))
      else reply [''HTTP/1.1 404 Not Found'', ''Connection: close''] [])"

definition handle_admin_request :: "admin_env \<Rightarrow> ProxyConfig \<Rightarrow> ServerMetrics \<Rightarrow> string list" where
  \<comment> \<open>what is sent before the socket is closed\<close>
  "handle_admin_request env g m =
     (if a_recv env = [] then []
      else (case admin_path (c_str (take 2047 (a_recv env))) of
              None \<Rightarrow> []
            | Some path \<Rightarrow> if \<not> a_response_ok env then [] else [admin_reply env g m path]))"

definition admin_thread_turn ::
  "bool \<Rightarrow> admin_env \<Rightarrow> ProxyConfig \<Rightarrow> ServerMetrics \<Rightarrow> ServerMetrics \<times> string list" where
  \<comment> \<open>one connection of \<^verbatim>\<open>admin_thread_func\<close>; \<^verbatim>\<open>v6\<close> is the family of the client's address\<close>
  "admin_thread_turn v6 env g m =
     (let m = (if v6 then metrics_increment_ipv6_active_connections m else m);
          m = metrics_increment_active_connections m;
          out = handle_admin_request env g m;
          m = (if v6 then metrics_decrement_ipv6_active_connections m else m)
      in (metrics_decrement_active_connections m, out))"

section \<open>Start and stop\<close>

record admin_state =
  g_admin_socket :: int
  g_admin_thread :: bool \<comment> \<open>a thread was created\<close>
  g_admin_running :: bool

definition admin_init_state :: admin_state where
  "admin_init_state = \<lparr>g_admin_socket = -1, g_admin_thread = False, g_admin_running = False\<rparr>"

record AdminConfig =
  adm_port :: int
  adm_enabled :: bool

record admin_start_env =
  admin_fd :: int \<comment> \<open>what \<^verbatim>\<open>socket\<close> returns\<close>
  admin_bind_ok :: bool
  admin_listen_ok :: bool
  admin_create_ok :: bool

definition admin_server_start ::
  "admin_start_env \<Rightarrow> AdminConfig option \<Rightarrow> admin_state \<Rightarrow> bool \<times> admin_state \<times> int list" where
  \<comment> \<open>the result, the static variables, and the descriptors closed\<close>
  "admin_server_start env config st =
     (case config of
        None \<Rightarrow> (False, st, [])
      | Some c \<Rightarrow>
          if \<not> adm_enabled c then (False, st, [])
          else
            let fd = admin_fd env; st = st\<lparr>g_admin_socket := fd\<rparr>
            in if fd < 0 then (False, st, [])
               else if \<not> admin_bind_ok env then (False, st, [fd])
               else if \<not> admin_listen_ok env then (False, st, [fd])
               else if \<not> admin_create_ok env then (False, st\<lparr>g_admin_running := False\<rparr>, [fd])
               else (True, st\<lparr>g_admin_running := True, g_admin_thread := True\<rparr>, []))"

definition admin_server_stop :: "admin_state \<Rightarrow> (admin_state \<times> int list) option" where
  \<comment> \<open>\<^verbatim>\<open>pthread_join\<close> is only defined for a thread that was created and not joined yet\<close>
  "admin_server_stop st =
     (let st = st\<lparr>g_admin_running := False\<rparr>;
          closed = (if g_admin_socket st \<ge> 0 then [g_admin_socket st] else []);
          st = (if g_admin_socket st \<ge> 0 then st\<lparr>g_admin_socket := -1\<rparr> else st)
      in if g_admin_thread st then Some (st\<lparr>g_admin_thread := False\<rparr>, closed) else None)"

end
