(* ===== verification/Admin_Props.thy ===== *)
theory Admin_Props
  imports Admin
begin

text \<open>
  Properties of the administration server: replies are whole, and a connection leaves the gauges and
  counters as it found them.
\<close>

lemma reply_length:
  "length (reply ls body) = sum_list (map (\<lambda>l. length l + 2) ls) + 2 + length body"
  by (induction ls) (auto simp: reply_def)

lemma status_body_length:
  assumes "- (10 ^ 10) < port g" "port g < 10 ^ 10" "- (10 ^ 10) < max_clients g" "max_clients g < 10 ^ 10"
    and "case t of None \<Rightarrow> True | Some u \<Rightarrow> length u < 2048"
  shows "length (status_body g t) < 4000"
proof -
  have "length (show_int (port g)) \<le> 11" "length (show_int (max_clients g)) \<le> 11"
    using assms show_int_length [of 10 "port g"] show_int_length [of 10 "max_clients g"] by auto
  moreover have "length (case t of None \<Rightarrow> ''Unavailable'' | Some u \<Rightarrow> u) < 2048"
    using assms(5) by (cases t) auto
  ultimately show ?thesis by (simp add: status_body_def)
qed

lemma scan_word_exact:
  assumes "w \<noteq> []" "list_all (\<lambda>c. \<not> isspace c) w" "length w \<le> n" "isspace d"
  shows "scan_word n (w @ d # rest) = Some (w, d # rest)"
proof -
  from assms(1,2) have "dropWhile isspace (w @ d # rest) = w @ d # rest" by (cases w) auto
  moreover have "takeWhile (\<lambda>c. \<not> isspace c) (w @ d # rest) = w"
    using assms(2,4) by (auto simp: takeWhile_append2 list_all_iff)
  moreover have "0 < n" using assms(1,3) by (cases w) auto
  ultimately show ?thesis using assms(1,3) by (simp add: scan_word_def)
qed

lemma scan_word_space: "isspace d \<Longrightarrow> scan_word n (d # s) = scan_word n s"
  by (simp add: scan_word_def)

lemma space: "isspace (CHR '' '')"
  by (simp add: isspace_def)

lemma admin_path_of:
  assumes "meth \<noteq> []" "list_all (\<lambda>c. \<not> isspace c) meth" "length meth \<le> 15"
    and "path \<noteq> []" "list_all (\<lambda>c. \<not> isspace c) path" "length path \<le> 255"
  shows "admin_path (meth @ '' '' @ path @ '' '' @ rest) = Some path"
  using assms scan_word_exact [OF assms(1-3) space, of "path @ '' '' @ rest"]
    scan_word_exact [OF assms(4-6) space, of rest]
  by (simp add: admin_path_def scan_word_space space)


text \<open>
  Watching the proxy does not change what is watched. After a connection to the administration server,
  whatever was requested, every counter and gauge has the value it had before, as long as the gauges
  are not negative and below \<^verbatim>\<open>INT32_MAX\<close>.
\<close>
theorem admin_connection_neutral:
  assumes "0 \<le> sint (active_connections m)" "sint (active_connections m) < 2 ^ 31 - 1"
    and "0 \<le> sint (ipv6_active_connections m)" "sint (ipv6_active_connections m) < 2 ^ 31 - 1"
  shows "fst (admin_thread_turn v6 env g m) = m"
proof -
  have a: "metrics_decrement_active_connections (metrics_increment_active_connections n) = n"
    if "0 \<le> sint (active_connections n)" "sint (active_connections n) < 2 ^ 31 - 1" for n
    using conns.sint_inc [of n] that
    by (simp add: metrics_decrement_active_connections_def metrics_increment_active_connections_def)
  have "metrics_decrement_ipv6_active_connections
      (metrics_increment_active_connections (metrics_increment_ipv6_active_connections m)) =
      metrics_increment_active_connections m"
    using v6_conns.sint_inc [of m] assms(3,4)
    by (simp add: metrics_decrement_ipv6_active_connections_def metrics_increment_active_connections_def
        metrics_increment_ipv6_active_connections_def)
  with a [of m] assms show ?thesis by (simp add: admin_thread_turn_def Let_def)
qed

theorem admin_connection_neutral_witness:
  "fst (admin_thread_turn True \<lparr>a_recv = ''GET /metrics HTTP/1.1'', a_response_ok = True, a_export_ok = True\<rparr>
     zero_config metrics_init) = metrics_init"
  using admin_connection_neutral [of metrics_init] by (simp add: metrics_init_def)


end
