(* ===== verification/Process.thy ===== *)
theory Process
  imports Server Logger Admin Http3
begin

text \<open>
  \<^verbatim>\<open>src/src/Main.c\<close>: the process as a whole. \<^verbatim>\<open>main\<close> starts the logger and the administration server after the parts of
  the proxy proper, then the QUIC worker, and opens the socket it accepts clients on; a signal stops
  them again.
\<close>

record 'r process =
  proxy :: "'r proxy_state"
  logger :: logger_state
  admin :: admin_state
  quic :: h3_state
  PROXY_SOCKET_ID :: int
  dual_stack :: bool \<comment> \<open>the socket is an IPv6 one that serves IPv4 clients as well\<close>

record listen_env =
  proxy_fd :: int
  bind_ok :: bool
  listen_ok :: bool

datatype 'p main_result = Accepting 'p | Exit int

definition open_listener :: "listen_env \<Rightarrow> 'r process \<Rightarrow> 'r process main_result" where
  \<comment> \<open>from the creation of the proxy's socket to \<^verbatim>\<open>listen\<close>; a failing \<^verbatim>\<open>setsockopt\<close> is only logged\<close>
  "open_listener lenv p =
     (let p = p\<lparr>PROXY_SOCKET_ID := proxy_fd lenv, dual_stack := enable_ipv6 (p_cfg (proxy p))\<rparr>
      in if proxy_fd lenv < 0 then Exit 1
         else if \<not> bind_ok lenv then Exit 0
         else if \<not> listen_ok lenv then Exit 1
         else Accepting p)"

definition main_start ::
  "file_system \<Rightarrow> bool \<Rightarrow> (string \<Rightarrow> string option) \<Rightarrow> bool \<Rightarrow> string list \<Rightarrow> (string \<Rightarrow> 'r option) \<Rightarrow>
   bool \<Rightarrow> bool \<Rightarrow> admin_start_env \<Rightarrow> h3_start_env \<Rightarrow> listen_env \<Rightarrow> 'r process \<Rightarrow> 'r process main_result option" where
  \<comment> \<open>\<^verbatim>\<open>main\<close> up to the accept loop. \<^verbatim>\<open>junk\<close> is what the stack held at \<^verbatim>\<open>log_cfg.use_stdout\<close>; the results of
      \<^verbatim>\<open>logger_init\<close> and \<^verbatim>\<open>admin_server_start\<close> change nothing\<close>
  "main_start fs enoent getenv etc_ok argv regcomp junk fopen_ok aenv henv lenv p =
     (case proxy_start fs enoent getenv etc_ok argv regcomp (proxy p) of
        None \<Rightarrow> Some (Exit 1)
      | Some st \<Rightarrow>
          (let g = p_cfg st;
               lg = snd (logger_init fopen_ok (Some (logger_settings junk g)) (logger p));
               ad = fst (snd (admin_server_start aenv (Some \<lparr>adm_port = admin_port g, adm_enabled = enable_admin g\<rparr>) (admin p)))
           in case start_http3_server henv (port g) (quic p) of
                None \<Rightarrow> None
              | Some h3 \<Rightarrow> Some (open_listener lenv (p\<lparr>proxy := st, logger := lg, admin := ad, quic := h3\<rparr>))))"

definition handle_signal :: "log_env \<Rightarrow> int \<Rightarrow> 'r process \<Rightarrow> ('r process \<times> int list) option" where
  \<comment> \<open>the process before \<^verbatim>\<open>exit(0)\<close> and the descriptors closed\<close>
  "handle_signal lenv sig p =
     do {
       (lg, _) \<leftarrow> logger_log lenv LOG_LEVEL_INFO ''src/Main.c'' ''720'' ''handle_signal''
                    (''Received signal '' @ show_int sig @ '', shutting down...'') (logger p);
       (ad, fds) \<leftarrow> admin_server_stop (admin p);
       let st = (proxy p)\<lparr>p_tls := CleanupOpenSSL (p_tls (proxy p))\<rparr>;
       Some (p\<lparr>proxy := st, logger := logger_shutdown lg, admin := ad\<rparr>, fds)
     }"

end
