(* ===== verification/Process_Props.thy ===== *)
theory Process_Props
  imports Process Server_Props Logger_Props Auth_Laws
begin

text \<open>
  Properties in which several parts take part: what a signal does after each kind of start, what a
  client can write into the access log, and how the address rules meet a socket that serves both
  address families.
\<close>

section \<open>Stopping\<close>

definition admin_up :: "admin_start_env \<Rightarrow> ProxyConfig \<Rightarrow> bool" where
  "admin_up aenv g \<longleftrightarrow>
     enable_admin g \<and> 0 \<le> admin_fd aenv \<and> admin_bind_ok aenv \<and> admin_listen_ok aenv \<and> admin_create_ok aenv"

lemma admin_start_thread:
  "g_admin_thread (fst (snd (admin_server_start aenv (Some \<lparr>adm_port = n, adm_enabled = enable_admin g\<rparr>) admin_init_state))) =
     admin_up aenv g"
  "admin_up aenv g \<Longrightarrow>
   g_admin_socket (fst (snd (admin_server_start aenv (Some \<lparr>adm_port = n, adm_enabled = enable_admin g\<rparr>) admin_init_state))) =
     admin_fd aenv"
  by (simp_all add: admin_server_start_def admin_up_def admin_init_state_def Let_def)

lemma log_without_rotation:
  assumes "\<not> lc_rotation_enabled (g_logger_config st)"
  shows "\<exists>lg out. logger_log env l src line func msg st = Some (lg, out)"
proof -
  from assms have "rotate_log_if_needed env st = Some st"
    by (simp add: rotate_log_if_needed_def Let_def split: option.split)
  then show ?thesis by (simp add: logger_log_def Let_def)
qed

lemma main_start_parts:
  assumes "main_start fs enoent getenv etc_ok argv regcomp junk fopen_ok aenv henv lenv p = Some (Accepting q)"
  obtains st where "proxy_start fs enoent getenv etc_ok argv regcomp (proxy p) = Some st" "proxy q = st"
    "logger q = snd (logger_init fopen_ok (Some (logger_settings junk (p_cfg st))) (logger p))"
    "admin q = fst (snd (admin_server_start aenv
       (Some \<lparr>adm_port = admin_port (p_cfg st), adm_enabled = enable_admin (p_cfg st)\<rparr>) (admin p)))"
    "start_http3_server henv (port (p_cfg st)) (quic p) = Some (quic q)" "dual_stack q = enable_ipv6 (p_cfg st)"
  using assms by (auto simp: main_start_def open_listener_def Let_def split: option.splits if_splits)


lemma default_parts:
  "\<exists>st. proxy_start (\<lambda>_. None) True (\<lambda>_. None) False [''proxy'', ''9090''] Some static_state = Some st \<and>
     \<not> log_rotation (p_cfg st) \<and> enable_admin (p_cfg st) \<and> \<not> enable_http3 (p_cfg st) \<and> port (p_cfg st) = 9090"
proof -
  have "case proxy_start (\<lambda>_. None) True (\<lambda>_. None) False [''proxy'', ''9090''] Some static_state of
      None \<Rightarrow> False | Some st \<Rightarrow> \<not> log_rotation (p_cfg st) \<and> enable_admin (p_cfg st) \<and> \<not> enable_http3 (p_cfg st) \<and> port (p_cfg st) = 9090" by code_simp
  then show ?thesis by (auto split: option.splits)
qed

definition demo_process :: "string process" where
  "demo_process = \<lparr>proxy = static_state, logger = demo_logger, admin = admin_init_state, quic = h3_init_state,
     PROXY_SOCKET_ID = 0, dual_stack = False\<rparr>"

definition demo_h3_start :: h3_start_env where
  "demo_h3_start = \<lparr>quic_config_ok = True, cert_ok = False, key_ok = False, h3_config_ok = True, udp_fd = 6,
     udp_bind_ok = True, worker_create_ok = True\<rparr>"

definition demo_listen :: listen_env where
  "demo_listen = \<lparr>proxy_fd = 7, bind_ok = True, listen_ok = True\<rparr>"

definition demo_admin_env :: "bool \<Rightarrow> admin_start_env" where
  "demo_admin_env b = \<lparr>admin_fd = 5, admin_bind_ok = b, admin_listen_ok = True, admin_create_ok = True\<rparr>"

lemma default_main_start:
  "\<exists>q. main_start (\<lambda>_. None) True (\<lambda>_. None) False [''proxy'', ''9090''] Some False True (demo_admin_env b) demo_h3_start demo_listen demo_process = Some (Accepting q) \<and>
     \<not> log_rotation (p_cfg (proxy q)) \<and> (admin_up (demo_admin_env b) (p_cfg (proxy q)) \<longleftrightarrow> b)"
  using default_parts by (auto simp: main_start_def demo_process_def Let_def admin_up_def demo_admin_env_def
      open_listener_def demo_listen_def start_http3_server_def demo_h3_start_def)


section \<open>The QUIC worker\<close>

lemma start_http3_worker:
  "start_http3_server env n st = Some st' \<Longrightarrow> worker_port st' =
     (if quic_config_ok env \<and> h3_config_ok env \<and> 0 \<le> udp_fd env \<and> udp_bind_ok env then Some n else worker_port st)"
  by (auto simp: start_http3_server_def Let_def split: if_splits)

text \<open>
  The QUIC worker is started whatever the configuration says: after a start that reaches the accept
  loop it reads from the UDP port with the number of the proxy's TCP port exactly when quiche gave its
  two configurations and the socket could be opened and bound. Neither \<^verbatim>\<open>enable_http3\<close> nor the loading
  of the certificate and its key takes part.
\<close>

theorem quic_worker_started_iff:
  assumes "main_start fs enoent getenv etc_ok argv regcomp junk fopen_ok aenv henv lenv p = Some (Accepting q)"
    and "worker_port (quic p) = None"
  shows "worker_port (quic q) =
    (if quic_config_ok henv \<and> h3_config_ok henv \<and> 0 \<le> udp_fd henv \<and> udp_bind_ok henv
     then Some (port (p_cfg (proxy q))) else None)"
  using start_http3_worker assms(2) main_start_parts [OF assms(1)] by metis

theorem quic_worker_started_iff_witness:
  "\<exists>q. main_start (\<lambda>_. None) True (\<lambda>_. None) False [''proxy'', ''9090''] Some False True (demo_admin_env True) demo_h3_start demo_listen demo_process = Some (Accepting q) \<and>
     \<not> enable_http3 (p_cfg (proxy q)) \<and> worker_port (quic q) = Some 9090"
proof -
  from default_parts obtain q where
    q: "main_start (\<lambda>_. None) True (\<lambda>_. None) False [''proxy'', ''9090''] Some False True (demo_admin_env True) demo_h3_start demo_listen demo_process = Some (Accepting q)"
      "\<not> enable_http3 (p_cfg (proxy q))" "port (p_cfg (proxy q)) = 9090"
    by (auto simp: main_start_def demo_process_def Let_def open_listener_def demo_listen_def start_http3_server_def demo_h3_start_def)
  with quic_worker_started_iff [OF q(1)] show ?thesis
    by (simp add: demo_process_def h3_init_state_def demo_h3_start_def)
qed


section \<open>The access log\<close>

text \<open>
  C39: A client can write lines of its own into the access log. A header \<^verbatim>\<open>X-Trace-Id\<close> of less than 64
  characters may hold a line feed; it becomes the trace id of the request, and in the line formats the
  record for the request is written as two lines, the second of which starts with text the client
  chose.
\<close>
theorem trace_id_forges_log_line:
  assumes "request_safe proto h prt p v [(''X-Trace-Id'', x @ [LF] @ y)]" "length (x @ [LF] @ y) < 64"
    and "buf = request_text proto h prt p v [(''X-Trace-Id'', x @ [LF] @ y)]" "length buf < max_len" "\<not> errno_einval env"
    and "log_ready st lf mb" "env_ok lenv" "lc_format (g_logger_config st) \<noteq> LOG_FORMAT_JSON"
    and "length (access_entry lenv (lc_format (g_logger_config st)) (a\<lparr>a_trace_id := Some (x @ [LF] @ y)\<rparr>)) < 4096"
  shows "\<exists>pr trace st' out text u. parse_request env max_len buf = Some (0, pr, trace) \<and>
    logger_access_log lenv (a\<lparr>a_trace_id := Some trace\<rparr>) st = Some (st', out) \<and> entry_written lf mb text st st' \<and>
    text = u @ [LF] @ y @ '']'' @ [LF]"
proof -
  let ?kvs = "[(''X-Trace-Id'', x @ [LF] @ y)]" and ?a = "a\<lparr>a_trace_id := Some (x @ [LF] @ y)\<rparr>"
  from parse_request_text [OF assms(1)] obtain n where
    pr: "ParsedRequest_parse False ParsedRequest_create buf (int (length buf)) = Some (0, request_of proto h prt p v ?kvs n)"
    unfolding assms(3) by blast
  have c: "c_str buf = buf" using assms(1,3) by (simp add: request_safe_def c_str_id)
  have "header_value (request_of proto h prt p v ?kvs n) ''X-Trace-Id'' = Some (x @ [LF] @ y)"
    by (simp add: header_value_def ParsedHeader_get_def request_of_def new_slot_def)
  then have "parse_request env max_len buf = Some (0, request_of proto h prt p v ?kvs n, x @ [LF] @ y)"
    using pr c assms(2,4,5) by (simp add: parse_request_def strlen_buffer_def snprintf_def)
  moreover have "\<exists>u. snprintf 4096 (access_entry lenv (lc_format (g_logger_config st)) ?a) = u @ [LF] @ y @ '']'' @ [LF]"
  proof -
    have "\<exists>u. access_entry lenv (lc_format (g_logger_config st)) ?a = u @ [LF] @ y @ '']'' @ [LF]"
      using assms(8) by (cases "lc_format (g_logger_config st)") (auto simp: access_entry_def or_dash_def Let_def)
    with assms(9) show ?thesis by (auto simp: snprintf_def)
  qed
  ultimately show ?thesis using access_writes [OF assms(6,7), of ?a] by metis
qed

definition trace_client :: request_env where
  "trace_client =
     \<lparr>peer_ipv6 = False, first_recv = [], more_recv = [], request_alloc_ok = True, errno_einval = False,
      new_trace_id = ''t'', date_text = ''D'', stack_memory = [], find_time = 1, server_addrs = None,
      request_send_ret = 1, response_alloc_ok = True, events = [], last_realloc_ok = True,
      cache_env = \<lparr>calloc_ok = True, malloc_ok = True, open_ok = True, write_result = 1, mmap_ok = True, time_path = 1,
        time_uptime = 1, time_expires = 1\<rparr>,
      hit_send_ret = \<lambda>_. 1,
      tunnel = \<lparr>tunnel_addrs = None, servername = None, accept_ok = True, upstream_ok = True, alpn_client = [],
        rounds = [], h2_init = \<lparr>conn_malloc_ok = True, session_new_ok = True, submit_settings_ok = True\<rparr>, h2_turns = []\<rparr>\<rparr>"

theorem trace_id_forges_log_line_witness:
  "\<exists>st' out text u. logger_access_log demo_log_env (demo_record\<lparr>a_trace_id := Some ([CHR ''a''] @ [LF] @ ''10.0.0.9 forged'')\<rparr>)
       demo_logger = Some (st', out) \<and>
     entry_written ''p'' 1 text demo_logger st' \<and> text = u @ [LF] @ ''10.0.0.9 forged'' @ '']'' @ [LF]"
proof -
  let ?x = "[CHR ''a'']" and ?y = "''10.0.0.9 forged''"
  have s: "request_safe ''http'' ''a'' (Some ''80'') ''/'' ''HTTP/1.1'' [(''X-Trace-Id'', ?x @ [LF] @ ?y)]"
    by (simp add: request_safe_def uri_safe_def uri_text_def request_text_def line_text_def line_safe_def)
  have n: "length (request_text ''http'' ''a'' (Some ''80'') ''/'' ''HTTP/1.1'' [(''X-Trace-Id'', ?x @ [LF] @ ?y)]) < 100" by code_simp
  have f: "lc_format (g_logger_config demo_logger) \<noteq> LOG_FORMAT_JSON" "env_ok demo_log_env" "\<not> errno_einval trace_client"
    "length (?x @ [LF] @ ?y) < 64"
    by (simp_all add: env_ok_def demo_log_env_def trace_client_def)
  have e: "length (access_entry demo_log_env (lc_format (g_logger_config demo_logger))
      (demo_record\<lparr>a_trace_id := Some (?x @ [LF] @ ?y)\<rparr>)) < 4096"
    by (simp add: access_entry_def demo_log_env_def demo_record_def or_dash_def show_int_def show_nat.simps)
  from trace_id_forges_log_line [OF s f(4) refl n f(3) demo_logger_ready f(2,1) e]
  obtain pr trace st' out entry u where r: "parse_request trace_client 100
      (request_text ''http'' ''a'' (Some ''80'') ''/'' ''HTTP/1.1'' [(''X-Trace-Id'', ?x @ [LF] @ ?y)]) = Some (0, pr, trace)"
    "logger_access_log demo_log_env (demo_record\<lparr>a_trace_id := Some trace\<rparr>) demo_logger = Some (st', out)"
    "entry_written ''p'' 1 entry demo_logger st'" "entry = u @ [LF] @ ?y @ '']'' @ [LF]" by blast
  have "case parse_request trace_client 100
      (request_text ''http'' ''a'' (Some ''80'') ''/'' ''HTTP/1.1'' [(''X-Trace-Id'', ?x @ [LF] @ ?y)]) of
      None \<Rightarrow> False | Some (_, _, t) \<Rightarrow> t = ?x @ [LF] @ ?y" by code_simp
  with r(1) have "trace = ?x @ [LF] @ ?y" by simp
  with r(2-4) show ?thesis by blast
qed

section \<open>Clients of a socket for both address families\<close>

lemma split_on_member: "c \<in> set s \<Longrightarrow> c \<noteq> d \<Longrightarrow> \<exists>w \<in> set (split_on d s). c \<in> set w"
  by (induction s) (auto split: list.splits)

lemma inet_pton4_colon: "CHR '':'' \<in> set s \<Longrightarrow> inet_pton4 s = None"
proof -
  assume c: "CHR '':'' \<in> set s"
  have colon: "\<not> isdigit (CHR '':'')" by (simp add: isdigit_def code_def)
  have "\<exists>w \<in> set (split_on (CHR ''.'') s). CHR '':'' \<in> set w"
    using c by (intro split_on_member) simp_all
  then obtain w where w: "w \<in> set (split_on (CHR ''.'') s)" "CHR '':'' \<in> set w" by blast
  then have "dec_octet w = None"
    using colon by (auto simp: dec_octet_def list_all_iff)
  with w(1) have "None \<in> set (map dec_octet (split_on (CHR ''.'') s))" by force
  then show ?thesis by (auto simp: inet_pton4_def split: list.splits option.splits)
qed

lemma colon_matches: "CHR '':'' \<in> set ip \<Longrightarrow> length r < 64 \<Longrightarrow> ip_matches ip r = Some (ip = r)"
  using strchr_SomeD [of r "CHR ''/''"]
  by (fastforce simp: ip_matches_def inet_pton4_colon Let_def split: option.split)

text \<open>
  C40: Address rules do not hold for IPv4 clients of a socket for both families. With \<^verbatim>\<open>enable_ipv6\<close> the
  listening socket also takes IPv4 clients, whose address \<^verbatim>\<open>inet_ntop\<close> writes as \<^verbatim>\<open>::ffff:\<close> and the
  dotted quad. An address the deny list names is refused in its own form, but in that form it is
  accepted when there is no allow list, and with an allow list every such client is refused, listed or
  not.
\<close>
theorem mapped_client_escapes_rules:
  fixes fs cfg st0 quad
  defines "st \<equiv> auth_init fs cfg st0" and "mapped \<equiv> ''::ffff:'' @ quad"
  assumes "quad \<in> set (deny_ips st)" "mapped \<notin> set (allow_ips st) \<union> set (deny_ips st)"
  shows "check_ip_allowed st quad = Some False \<and> check_ip_allowed st mapped = Some (allow_ips st = [])"
proof -
  have ok: "auth_ok st" unfolding st_def by (rule auth_init_ok)
  then have l: "\<forall>r \<in> set (deny_ips st). length r < 64" "\<forall>r \<in> set (allow_ips st). length r < 64"
    by (auto simp: auth_ok_def)
  have "\<not> matches_any mapped (deny_ips st)" "\<not> matches_any mapped (allow_ips st)"
    using assms(4) l colon_matches [of mapped] by (auto simp: matches_any_def mapped_def)
  moreover have "matches_any quad (deny_ips st)"
    using assms(3) by (auto simp: matches_any_def ip_matches_def)
  ultimately show ?thesis using any_match_eq [OF l(1)] any_match_eq [OF l(2)] by (auto simp: check_ip_allowed_def)
qed

theorem mapped_client_escapes_rules_witness:
  "let st = auth_init [''d'' \<mapsto> ''10.0.0.1'' @ [LF]] (zero_config\<lparr>deny_ip_file := ''d''\<rparr>) open_access
   in check_ip_allowed st ''10.0.0.1'' = Some False \<and> check_ip_allowed st ''::ffff:10.0.0.1'' = Some True"
proof -
  let ?fs = "[''d'' \<mapsto> ''10.0.0.1'' @ [LF]]" and ?cfg = "zero_config\<lparr>deny_ip_file := ''d''\<rparr>"
  have l: "allow_ips (auth_init ?fs ?cfg open_access) = []" "deny_ips (auth_init ?fs ?cfg open_access) = [''10.0.0.1'']"
    by code_simp+
  show ?thesis
    using mapped_client_escapes_rules [of "''10.0.0.1''" "?fs" "?cfg" open_access] l by (simp add: Let_def)
qed

end
