(* ===== verification/Cache_Origin.thy ===== *)
theory Cache_Origin
  imports Cache_Props
begin

text \<open>
  Where the bytes of the cache's entries come from: given the pairs of a request text and a response
  that were obtained from servers, every entry in memory holds one of them, and the operations of
  \<^verbatim>\<open>cache.c\<close> keep it so.
\<close>

definition entry_from :: "(string \<times> string) set \<Rightarrow> CacheModule \<Rightarrow> bool" where
  "entry_from H n \<longleftrightarrow> (\<exists>d. DATA n = Heap_Data d \<and> CLENGTH n = int (length d) \<and> (URL n, d) \<in> H)"

definition spec_traced :: "(string \<times> string) set \<Rightarrow> spec_cache \<Rightarrow> bool" where
  "spec_traced H A \<longleftrightarrow> (\<forall>a. pred_option (entry_from H) (entries A a))"

definition traced :: "(string \<times> string) set \<Rightarrow> cache \<Rightarrow> bool" where
  \<comment> \<open>the cache is well formed and each entry has an origin in \<^verbatim>\<open>H\<close>\<close>
  "traced H s \<longleftrightarrow> cache_inv s \<and> (\<forall>a. pred_option (entry_from H) (heap s a))"

lemma entry_from_strip [simp]: "entry_from H (strip n) = entry_from H n"
  by (simp add: entry_from_def strip_def)

lemma refines_traced: "refines s A \<Longrightarrow> traced H s \<longleftrightarrow> spec_traced H A"
  using refines_inv [of s A] by (auto simp: traced_def spec_traced_def refinesD(2) [symmetric] payload_def option.pred_map comp_def)

lemma tracedE:
  assumes "traced H s"
  obtains A where "refines s A" "spec_traced H A"
  using assms inv_refines refines_traced traced_def by blast

lemma spec_traced_drop: "spec_traced H A \<Longrightarrow> spec_traced H (spec_drop a A)"
  by (simp add: spec_traced_def spec_drop_def)

lemma spec_traced_evict: "spec_traced H A \<Longrightarrow> spec_traced H (spec_evict A)"
  by (simp add: spec_evict_def spec_traced_drop)

lemma spec_traced_fit: "spec_traced H A \<Longrightarrow> spec_traced H (spec_fit limit es A)"
proof (induction limit es A rule: spec_fit.induct)
  case (1 limit es A)
  then show ?case by (subst spec_fit.simps) (auto intro: spec_traced_evict)
qed

lemma spec_traced_touch: "spec_traced H A \<Longrightarrow> spec_traced H (spec_touch now a A)"
proof -
  have "entry_from H (n\<lparr>UPTIME := now, access_count := k\<rparr>) = entry_from H n" for n k
    by (simp add: entry_from_def)
  then show "spec_traced H A \<Longrightarrow> ?thesis"
    by (auto simp: spec_traced_def spec_touch_def option.pred_map comp_def)
qed

lemma spec_traced_find: "spec_traced H A \<Longrightarrow> spec_traced H (snd (spec_find now url A))"
  by (auto simp: spec_find_def spec_purge_def spec_traced_touch spec_traced_drop split: option.split)

lemma entry_from_mono: "entry_from H n \<Longrightarrow> H \<subseteq> K \<Longrightarrow> entry_from K n"
  by (auto simp: entry_from_def)

lemma spec_traced_mono: "spec_traced H A \<Longrightarrow> H \<subseteq> K \<Longrightarrow> spec_traced K A"
  unfolding spec_traced_def using entry_from_mono by (metis (mono_tags, lifting) option.pred_mono_strong)

lemma traced_mono: "traced H s \<Longrightarrow> H \<subseteq> K \<Longrightarrow> traced K s"
  unfolding traced_def using entry_from_mono by (metis (mono_tags, lifting) option.pred_mono_strong)

lemma spec_traced_insert: "spec_traced H A \<Longrightarrow> entry_from H n \<Longrightarrow> spec_traced H (spec_insert n A)"
  by (simp add: spec_traced_def spec_insert_def)

lemma spec_traced_add:
  assumes "spec_traced H A"
  shows "spec_traced (insert (url, d) H) (snd (spec_add cfg env d (int (length d)) url None A))"
proof -
  note K = spec_traced_mono [OF assms subset_insertI [of H "(url, d)"]]
  have "entry_from (insert (url, d) H) (new_node env m (int (length d)) url None d)" for m
    by (simp add: entry_from_def new_node_def)
  with K spec_traced_fit [OF K] show ?thesis by (simp add: spec_add_def Let_def spec_traced_insert)
qed

lemma traced_find:
  assumes "traced H s" "FindCache now url s = Some (r, t)"
  shows "traced H t" and "r = Some a \<Longrightarrow> \<exists>n. heap t a = Some n \<and> URL n = url \<and> entry_from H n"
proof -
  from assms(1) obtain A where A: "refines s A" "spec_traced H A" by (rule tracedE)
  from FindCache_refines [OF A(1), of now url] assms(2) have
    t: "r = fst (spec_find now url A)" "refines t (snd (spec_find now url A))" by auto
  with spec_traced_find [OF A(2)] refines_traced show tr: "traced H t" by blast
  assume "r = Some a"
  with t(1) have l: "spec_lookup url A = Some a" "spec_find now url A = (Some a, spec_touch now a A)"
    by (auto simp: spec_find_def split: option.splits if_splits)
  then have a: "a \<in> set (evict_order A)" "URL (the (entries A a)) = url"
    using spec_lookup_mem refines_sets [OF A(1)] by auto
  then have "a \<in> set (evict_order (spec_touch now a A))" by (simp add: spec_touch_def)
  from refines_node [OF t(2) [unfolded l(2), simplified] this] obtain n where
    n: "heap t a = Some n" "entries (spec_touch now a A) a = Some (strip n)" .
  from n(2) a(2) have "URL n = url" by (auto simp: spec_touch_def strip_def dest: arg_cong [of _ _ URL])
  with n(1) tr show "\<exists>n. heap t a = Some n \<and> URL n = url \<and> entry_from H n"
    unfolding traced_def by (metis option.pred_inject(2))
qed

lemma traced_add:
  assumes "traced H s" "AddCache cfg env d (int (length d)) url s = Some (r, t)" "\<not> stored_on_disk env (int (length d))"
  shows "traced (insert (url, d) H) t"
proof -
  from assms(1) obtain A where A: "refines s A" "spec_traced H A" by (rule tracedE)
  have "0 \<le> int (length d)" "nat (int (length d)) \<le> length d" by simp_all
  from AddCache_refines [OF A(1) this, of cfg env url] obtain disk u where
    "AddCache cfg env d (int (length d)) url s = Some (fst (spec_add cfg env d (int (length d)) url disk A), u)"
    "refines u (snd (spec_add cfg env d (int (length d)) url disk A))"
    "disk \<noteq> None \<longrightarrow> stored_on_disk env (int (length d))" by blast
  moreover from this assms(3) have "disk = None" by blast
  ultimately have "refines t (snd (spec_add cfg env d (int (length d)) url None A))" using assms(2) by simp
  with spec_traced_add [OF A(2)] refines_traced show ?thesis by blast
qed

end
