(* ===== verification/History.thy ===== *)
theory History
  imports Proxy_Props Cache_Origin
begin

text \<open>
  Sequences of requests and reloads with what each client was sent, and where the bytes of a cached
  reply come from: the composition of the request handler of \<^verbatim>\<open>Main.c\<close> with the cache of \<^verbatim>\<open>cache.c\<close>.
\<close>

section \<open>Histories\<close>

definition request_buffer :: "nat \<Rightarrow> request_env \<Rightarrow> string" where
  \<comment> \<open>what \<^verbatim>\<open>BUFFER\<close> holds once the request is read\<close>
  "request_buffer max_len env = read_headers max_len (more_recv env) (take max_len (first_recv env))"

definition request_key :: "'r proxy_state \<Rightarrow> request_env \<Rightarrow> string" where
  \<comment> \<open>the text under which the reply to the request is looked up and stored\<close>
  "request_key st env = c_str (request_buffer (unat (max_bytes (p_cfg st))) env)"

fun history ::
  "(string \<Rightarrow> string option) \<Rightarrow> (string \<Rightarrow> 'r option) \<Rightarrow> ('r \<Rightarrow> string \<Rightarrow> bool) \<Rightarrow> proxy_event list \<Rightarrow>
   'r proxy_state \<Rightarrow> ('r proxy_state \<times> (string \<times> net_output list) list) option" where
  \<comment> \<open>the state after the events, and for each client its request text and what was sent for it\<close>
  "history getenv regcomp regexec [] st = Some (st, [])"
| "history getenv regcomp regexec (Client env # evs) st =
     (case THREAD_ROUTINE regexec env st of
        None \<Rightarrow> None
      | Some (st1, out) \<Rightarrow>
          map_option (\<lambda>(st2, log). (st2, (request_key st env, out) # log)) (history getenv regcomp regexec evs st1))"
| "history getenv regcomp regexec (ev # evs) st =
     (case serve_event getenv regcomp regexec ev st of
        None \<Rightarrow> None
      | Some st1 \<Rightarrow> history getenv regcomp regexec evs st1)"

definition relayed :: "net_output list \<Rightarrow> string \<Rightarrow> bool" where
  \<comment> \<open>a server was asked and \<^verbatim>\<open>d\<close> is what the client was sent of its answer\<close>
  "relayed out d \<longleftrightarrow> (\<exists>req ps entry. out = To_server req # map To_client ps @ [entry] \<and> concat ps = d)"

definition origins :: "(string \<times> net_output list) list \<Rightarrow> (string \<times> string) set" where
  "origins log = {(k, d). \<exists>out. (k, out) \<in> set log \<and> relayed out d}"

fun in_memory :: "proxy_event \<Rightarrow> bool" where
  \<comment> \<open>no reply goes to a cache file\<close>
  "in_memory (Client env) \<longleftrightarrow> (open_ok (cache_env env) \<longrightarrow> length (received (events env)) \<le> 128 * 1024)"
| "in_memory (Config_written _ _ _ _) \<longleftrightarrow> True"

section \<open>The request handler\<close>

text \<open>What is kept of a response is what the client was sent of it, unless the type filter stopped it.\<close>

lemma relay_kept:
  "relay f v6 es s = Some t \<Longrightarrow> response s = concat (sent s) \<Longrightarrow> \<not> ct_blocked t \<Longrightarrow>
     response t = concat (sent t) \<and> length (response t) \<le> length (response s) + length (received es)"
proof (induction es arbitrary: s)
  case (Cons e es)
  from Cons.prems show ?case
    by (auto simp: Let_def split: if_splits dest!: Cons.IH)
qed simp

definition replies :: "string \<Rightarrow> net_output list \<Rightarrow> (string \<times> string) set" where
  "replies k out = {(k, d) | d. relayed out d}"

lemma HandleRequest_traced:
  assumes "HandleRequest env pr request st = Some (r, st', out)" "traced H (p_cache st)" "in_memory (Client env)"
  shows "traced H (p_cache st') \<or> r = 0 \<and> traced (H \<union> replies request (out @ [entry])) (p_cache st')"
proof (cases "p_cache st' = p_cache st")
  case False
  let ?n = "unat (max_bytes (p_cfg st))"
  from False assms(1) have "\<exists>req t q. relay (p_filter st) (peer_ipv6 env) (events env) (relay_start ?n (p_metrics st)) = Some t \<and>
      \<not> ct_blocked t \<and> r = 0 \<and> out = To_server req # map To_client (sent t) \<and>
      AddCache (p_cfg st) (cache_env env) (response t) (int (length (response t))) request (p_cache st) = Some (q, p_cache st')"
    unfolding HandleRequest_def relay_start_def Let_def
    by (auto split: if_splits Option.bind_splits prod.splits)
  then obtain req t q where
    t: "relay (p_filter st) (peer_ipv6 env) (events env) (relay_start ?n (p_metrics st)) = Some t" "\<not> ct_blocked t"
    and out: "r = 0" "out = To_server req # map To_client (sent t)"
    and add: "AddCache (p_cfg st) (cache_env env) (response t) (int (length (response t))) request (p_cache st) = Some (q, p_cache st')"
    by blast
  from relay_kept [OF t(1) _ t(2)] have d: "response t = concat (sent t)" "length (response t) \<le> length (received (events env))"
    by auto
  with assms(3) have "\<not> stored_on_disk (cache_env env) (int (length (response t)))" by (auto simp: stored_on_disk_def)
  from traced_add [OF assms(2) add this] have "traced (insert (request, response t) H) (p_cache st')" .
  moreover have "(request, response t) \<in> replies request (out @ [entry])"
    using out(2) d(1) by (auto simp: replies_def relayed_def)
  ultimately have "traced (H \<union> replies request (out @ [entry])) (p_cache st')" by (auto elim: traced_mono)
  with out(1) show ?thesis by simp
qed (use assms(2) in simp)

lemma dispatch_traced:
  assumes "dispatch env pr request st = Some (status, st', out)" "traced H (p_cache st)" "in_memory (Client env)"
  shows "traced (H \<union> replies request (out @ [entry])) (p_cache st')"
proof (cases "traced H (p_cache st')")
  case True
  then show ?thesis by (rule traced_mono) simp
next
  case False
  have same: "p_cache (count_error s) = p_cache s" for s :: "'a proxy_state" by (simp add: count_error_def)
  from False assms(1,2) obtain r s o' where "HandleRequest env pr request st = Some (r, s, o')"
    "p_cache st' = p_cache s" "r \<noteq> -1 \<longrightarrow> out = o'"
    by (auto simp: dispatch_def Let_def same split: if_splits Option.bind_splits prod.splits)
  with HandleRequest_traced [OF this(1) assms(2,3), of entry] False show ?thesis by auto
qed

lemma answer_traced:
  assumes "answer regexec env buf st = Some (e, st', out)" "traced H (p_cache st)" "in_memory (Client env)"
  shows "traced (H \<union> replies (c_str buf) out) (p_cache st')"
proof (cases "p_cache st' = p_cache st")
  case True
  with assms(2) show ?thesis by (auto elim: traced_mono)
next
  case False
  with assms(1) obtain hit c where c: "FindCache (find_time env) (c_str buf) (p_cache st) = Some (hit, c)"
    and "p_cache st' = c \<or> (\<exists>pr status o' entry. dispatch env pr (c_str buf) (st\<lparr>p_cache := c\<rparr>) = Some (status, st', o') \<and>
      out = o' @ [entry])"
    unfolding answer_def Let_def
    by (auto split: if_splits Option.bind_splits option.splits prod.splits)
  moreover from traced_find(1) [OF assms(2) c] have "traced H c" .
  ultimately show ?thesis
    using dispatch_traced [OF _ _ assms(3), of _ _ "st\<lparr>p_cache := c\<rparr>"] by (auto elim: traced_mono)
qed

lemma THREAD_ROUTINE_traced:
  assumes "THREAD_ROUTINE regexec env st = Some (st', out)" "traced H (p_cache st)" "in_memory (Client env)"
  shows "traced (H \<union> replies (request_key st env) out) (p_cache st')"
proof -
  let ?st0 = "st\<lparr>p_metrics := open_gauges (peer_ipv6 env) (p_metrics st), p_sem := p_sem st - 1\<rparr>"
  from assms(1) obtain e st1 where r: "receive regexec env ?st0 = Some (e, st1, out)" "p_cache st' = p_cache st1"
    by (auto simp: THREAD_ROUTINE_def Let_def split: Option.bind_splits thread_exit.splits)
  then consider "p_cache st1 = p_cache st"
    | "answer regexec env (request_buffer (unat (max_bytes (p_cfg st))) env) ?st0 = Some (e, st1, out)"
    by (auto simp: receive_def request_buffer_def Let_def split: if_splits)
  then show ?thesis
  proof cases
    case 1
    with assms(2) r(2) show ?thesis by (auto elim: traced_mono)
  next
    case 2
    from answer_traced [OF this _ assms(3), of H] assms(2) r(2) show ?thesis by (simp add: request_key_def)
  qed
qed

lemma origins_simps [simp]: "origins [] = {}" "origins ((k, out) # log) = replies k out \<union> origins log"
  by (auto simp: origins_def replies_def)

lemma history_traced:
  "history getenv regcomp regexec evs st = Some (st', log) \<Longrightarrow> traced H (p_cache st) \<Longrightarrow> list_all in_memory evs \<Longrightarrow>
     traced (H \<union> origins log) (p_cache st')"
proof (induction evs arbitrary: st log H)
  case (Cons ev evs)
  show ?case
  proof (cases ev)
    case (Client env)
    with Cons.prems(1) obtain st1 out log1 where
      s: "THREAD_ROUTINE regexec env st = Some (st1, out)" "history getenv regcomp regexec evs st1 = Some (st', log1)"
        "log = (request_key st env, out) # log1"
      by (auto split: option.splits)
    from Cons.prems(3) Client have "in_memory (Client env)" "list_all in_memory evs" by simp_all
    from Cons.IH [OF s(2) THREAD_ROUTINE_traced [OF s(1) Cons.prems(2) this(1)] this(2)] s(3) show ?thesis
      by (simp add: Un_assoc)
  next
    case (Config_written fs enoent path junk)
    with Cons.prems(1) obtain st1 where
      s: "serve_event getenv regcomp regexec ev st = Some st1" "history getenv regcomp regexec evs st1 = Some (st', log)"
      by (auto split: option.splits)
    from s(1) Config_written have "p_cache st1 = p_cache st" by (auto simp: serve_event_def split: prod.splits)
    with Cons.IH [OF s(2)] Cons.prems(2,3) show ?thesis by simp
  qed
qed simp

section \<open>A cached reply has an origin\<close>


definition nothing_loaded :: "string \<Rightarrow> string option" where
  "nothing_loaded = (\<lambda>_. None)"

lemma demo_history:
  "\<exists>st' out a c st'' out2. history nothing_loaded Some (\<lambda>_ _. False) [Client demo_client] demo_state = Some (st', [(demo_request, out)]) \<and>
     FindCache 150 (c_str demo_request) (p_cache st') = Some (Some a, c) \<and>
     answer (\<lambda>_ _. False) demo_client demo_request st' = Some (Fall_through, st'', out2)"
proof -
  have "case history nothing_loaded Some (\<lambda>_ _. False) [Client demo_client] demo_state of
      None \<Rightarrow> False
    | Some (st', log) \<Rightarrow> map fst log = [demo_request] \<and>
        map_option (\<lambda>(r, c). r \<noteq> None) (FindCache 150 (c_str demo_request) (p_cache st')) = Some True \<and>
        map_option fst (answer (\<lambda>_ _. False) demo_client demo_request st') = Some Fall_through" by code_simp
  then show ?thesis by (auto split: option.splits)
qed


end
