(* ===== verification/Settings.thy ===== *)
theory Settings
  imports Proxy_Props Server_Props
begin

text \<open>
  Which settings the handling of a request depends on: a noninterference property of \<^verbatim>\<open>Main.c\<close> with
  the cache, the filters and the tunnel below it.
\<close>

definition same_settings :: "ProxyConfig \<Rightarrow> ProxyConfig \<Rightarrow> bool" where
  \<comment> \<open>the configurations agree in the fields that are read while a request is handled; the last one only
      shows in the outcome of a handshake, which the environment gives\<close>
  "same_settings g h \<longleftrightarrow>
     max_bytes g = max_bytes h \<and> enable_auth g = enable_auth h \<and> log_level g = log_level h \<and>
     max_cache_size g = max_cache_size h \<and> max_element_size g = max_element_size h \<and>
     tls_verify_peer g = tls_verify_peer h"

abbreviation under :: "ProxyConfig \<Rightarrow> 'r proxy_state \<Rightarrow> 'r proxy_state" where
  "under g st \<equiv> st\<lparr>p_cfg := g\<rparr>"

text \<open>A step that commutes with a change of the configuration, branch by branch.\<close>

lemma commute_branches:
  "(\<And>x. m = Some x \<Longrightarrow> k x = map_option f (k' x)) \<Longrightarrow> Option.bind m k = map_option f (Option.bind m k')"
  "(c \<Longrightarrow> a = map_option f a') \<Longrightarrow> (\<not> c \<Longrightarrow> b = map_option f b') \<Longrightarrow>
     (if c then a else b) = map_option f (if c then a' else b')"
  "(r = None \<Longrightarrow> a = map_option f a') \<Longrightarrow> (\<And>x. r = Some x \<Longrightarrow> k x = map_option f (k' x)) \<Longrightarrow>
     (case r of None \<Rightarrow> a | Some x \<Rightarrow> k x) = map_option f (case r of None \<Rightarrow> a' | Some x \<Rightarrow> k' x)"
  "(\<And>x y. p = (x, y) \<Longrightarrow> h x y = map_option f (h' x y)) \<Longrightarrow>
     (case p of (x, y) \<Rightarrow> h x y) = map_option f (case p of (x, y) \<Rightarrow> h' x y)"
  by (cases m; simp) (auto split: option.split prod.split)

lemma under_sel:
  "p_cfg (under g st) = g" "p_cache (under g st) = p_cache st" "p_metrics (under g st) = p_metrics st"
  "p_filter (under g st) = p_filter st" "p_auth (under g st) = p_auth st" "p_tls (under g st) = p_tls st"
  "p_sem (under g st) = p_sem st"
  by simp_all

lemma under_commute:
  "(under g st)\<lparr>p_metrics := m\<rparr> = under g (st\<lparr>p_metrics := m\<rparr>)"
  "(under g st)\<lparr>p_cache := c\<rparr> = under g (st\<lparr>p_cache := c\<rparr>)"
  "(under g st)\<lparr>p_tls := t\<rparr> = under g (st\<lparr>p_tls := t\<rparr>)"
  "(under g st)\<lparr>p_sem := n\<rparr> = under g (st\<lparr>p_sem := n\<rparr>)"
  by simp_all

lemma AddCache_settings: "same_settings g h \<Longrightarrow> AddCache g = AddCache h"
  by (intro ext) (simp add: AddCache_def same_settings_def Let_def cong: if_cong)

lemma HandleRequest_settings:
  assumes "same_settings g (p_cfg st)"
  shows "HandleRequest env pr request (under g st) =
    map_option (\<lambda>(r, st', out). (r, under g st', out)) (HandleRequest env pr request st)"
proof -
  have m: "max_bytes g = max_bytes (p_cfg st)" using assms by (simp add: same_settings_def)
  show ?thesis
    unfolding HandleRequest_def Let_def under_sel m
    by (intro commute_branches) (auto simp: under_commute AddCache_settings [OF assms] split: Option.bind_split)
qed

lemma dispatch_settings:
  assumes "same_settings g (p_cfg st)"
  shows "dispatch env pr request (under g st) =
    map_option (\<lambda>(s, st', out). (s, under g st', out)) (dispatch env pr request st)"
proof -
  have h: "Option.bind (HandleRequest env pr request (under g st)) k =
      Option.bind (HandleRequest env pr request st) (\<lambda>(r, st', out). k (r, under g st', out))"
    for k :: "_ \<Rightarrow> (nat \<times> 'a proxy_state \<times> net_output list) option"
    unfolding HandleRequest_settings [OF assms] by (cases "HandleRequest env pr request st") (simp_all add: split_def)
  show ?thesis
    unfolding dispatch_def Let_def under_sel h prod.case
    by (intro commute_branches) (auto simp: under_commute count_error_def throw_def)
qed

lemma access_status_settings:
  "same_settings g (p_cfg st) \<Longrightarrow> access_status regexec env (under g st) pr = access_status regexec env st pr"
  by (simp add: access_status_def same_settings_def cong: if_cong cptr.case_cong)

lemma answer_settings:
  assumes "same_settings g (p_cfg st)"
  shows "answer regexec env buf (under g st) =
    map_option (\<lambda>(e, st', out). (e, under g st', out)) (answer regexec env buf st)"
proof -
  have "dispatch env pr request (under g (st\<lparr>p_cache := c\<rparr>)) =
      map_option (\<lambda>(s, st', out). (s, under g st', out)) (dispatch env pr request (st\<lparr>p_cache := c\<rparr>))" for pr request c
    using assms by (intro dispatch_settings) simp
  then have d: "Option.bind (dispatch env pr request (under g (st\<lparr>p_cache := c\<rparr>))) k =
      Option.bind (dispatch env pr request (st\<lparr>p_cache := c\<rparr>)) (\<lambda>(s, st', out). k (s, under g st', out))"
    for pr request c and k :: "_ \<Rightarrow> (thread_exit \<times> 'a proxy_state \<times> net_output list) option"
    by (cases "dispatch env pr request (st\<lparr>p_cache := c\<rparr>)") (simp_all add: split_def)
  have l: "logs_info g = logs_info (p_cfg st)" "max_bytes g = max_bytes (p_cfg st)"
    using assms by (simp_all add: logs_info_def same_settings_def)
  have t: "throw env (under g st) status = throw env st status" "throw env (under g (st\<lparr>p_cache := c\<rparr>)) status =
      throw env (st\<lparr>p_cache := c\<rparr>) status" for status c
    by (simp_all add: throw_def)
  show ?thesis
    unfolding answer_def Let_def under_sel l access_status_settings [OF assms] under_commute d t prod.case
    by (intro commute_branches) (auto simp: under_commute split: Option.bind_split)
qed

lemma receive_settings:
  assumes "same_settings g (p_cfg st)"
  shows "receive regexec env (under g st) =
    map_option (\<lambda>(e, st', out). (e, under g st', out)) (receive regexec env st)"
  using assms answer_settings [OF assms] by (simp add: receive_def same_settings_def Let_def)

text \<open>
  C35: Most settings have no effect on requests. The handling of a request (what is sent, and the whole state
  afterwards but for the configuration itself) depends on the configuration only through
  \<^verbatim>\<open>max_bytes\<close>, \<^verbatim>\<open>enable_auth\<close>, \<^verbatim>\<open>log_level\<close>, the two cache sizes and \<^verbatim>\<open>tls_verify_peer\<close>: \<^verbatim>\<open>enable_cache\<close>, \<^verbatim>\<open>enable_throttling\<close>, the rate
  and bandwidth limits, \<^verbatim>\<open>enable_https\<close>, \<^verbatim>\<open>enable_http2\<close>, \<^verbatim>\<open>enable_http3\<close> and the connection limits change nothing.
\<close>
theorem settings_without_effect:
  assumes "same_settings g (p_cfg st)"
  shows "THREAD_ROUTINE regexec env (st\<lparr>p_cfg := g\<rparr>) =
    map_option (\<lambda>(st', out). (st'\<lparr>p_cfg := g\<rparr>, out)) (THREAD_ROUTINE regexec env st)"
proof -
  let ?st0 = "st\<lparr>p_metrics := open_gauges (peer_ipv6 env) (p_metrics st), p_sem := p_sem st - 1\<rparr>"
  have "receive regexec env (under g ?st0) =
      map_option (\<lambda>(e, st', out). (e, under g st', out)) (receive regexec env ?st0)"
    using assms by (intro receive_settings) simp
  then have r: "receive regexec env ((under g st)\<lparr>p_metrics := open_gauges (peer_ipv6 env) (p_metrics st), p_sem := p_sem st - 1\<rparr>) =
      map_option (\<lambda>(e, st', out). (e, under g st', out)) (receive regexec env ?st0)"
    by (simp only: under_commute)
  show ?thesis
    unfolding THREAD_ROUTINE_def Let_def under_sel r
    by (cases "receive regexec env ?st0") (auto split: thread_exit.split)
qed

theorem settings_without_effect_witness:
  "let g = (p_cfg demo_state)\<lparr>enable_cache := False, enable_https := False, enable_throttling := True, rate_limit_rps := 0\<rparr>
   in THREAD_ROUTINE (\<lambda>_ _. False) demo_client (demo_state\<lparr>p_cfg := g\<rparr>) =
      map_option (\<lambda>(st', out). (st'\<lparr>p_cfg := g\<rparr>, out)) (THREAD_ROUTINE (\<lambda>_ _. False) demo_client demo_state)"
  unfolding Let_def by (rule settings_without_effect) (simp add: same_settings_def)

end
