(* ===== verification/Cache_Threads.thy ===== *)
theory Cache_Threads
  imports Cache_Origin
begin

text \<open>
  Client threads that share the cache, interleaved at its lock: \<^verbatim>\<open>FindCache\<close> and \<^verbatim>\<open>AddCache\<close> of \<^verbatim>\<open>cache.c\<close> as
  \<^verbatim>\<open>THREAD_ROUTINE\<close> of \<^verbatim>\<open>Main.c\<close> uses them. \<^verbatim>\<open>LOCK\<close> makes the body of each operation one action;
  \<^verbatim>\<open>FindCache\<close> releases it before the purge of an expired entry, and the caller reads \<^verbatim>\<open>LENGTH\<close> and then, piece
  by piece, \<^verbatim>\<open>DATA\<close> of the entry it got without it; each piece is one action.
\<close>

section \<open>The two critical sections of a lookup\<close>

datatype lookup = Hit addr | Expired | Miss

definition FindCache_locked :: "int \<Rightarrow> string \<Rightarrow> cache \<Rightarrow> (lookup \<times> cache) option" where
  \<comment> \<open>from the lock to the first unlock\<close>
  "FindCache_locked now url s =
     do {
       r \<leftarrow> chain_find (heap s) url (HASH_TABLE s (hash_url url));
       (case r of
          None \<Rightarrow> Some (Miss, s)
        | Some cur \<Rightarrow>
            do {
              n \<leftarrow> heap s cur;
              (if 0 < expires_at n \<and> expires_at n < now then Some (Expired, s)
               else do {
                 s \<leftarrow> upd_node cur (\<lambda>m. m\<lparr>UPTIME := now, access_count := access_count m + 1\<rparr>) s;
                 s \<leftarrow> (if g_eviction_policy s = EVICT_LRU then list_move_to_end cur s else Some s);
                 Some (Hit cur, s)
               })
            })
     }"

lemma FindCache_split:
  "FindCache now url s =
     do {
       (r, s) \<leftarrow> FindCache_locked now url s;
       (case r of
          Hit a \<Rightarrow> Some (Some a, s)
        | Miss \<Rightarrow> Some (None, s)
        | Expired \<Rightarrow> do { s \<leftarrow> Cache_purge url s; Some (None, s) })
     }"
  unfolding FindCache_def FindCache_locked_def
  by (auto split: option.split Option.bind_split)

section \<open>Threads\<close>

datatype job =
    Looking int string
  | Purging string
  | Missed string
  | Storing string string
  | Holding addr string \<comment> \<open>the pointer \<^verbatim>\<open>FindCache\<close> returned\<close>
  | Sending addr string int string \<comment> \<open>with \<^verbatim>\<open>SIZE\<close> and the bytes before \<^verbatim>\<open>POS\<close>, which are sent\<close>
  | Answered string string
  | Gone

record shared =
  sh_cache :: cache
  jobs :: "job list"
  fetched :: "(string \<times> string) list" \<comment> \<open>the requests forwarded so far with the responses\<close>

datatype action =
    Start int string
  | Lookup nat
  | Purge nat
  | Fetch nat string
  | Give_up nat
  | Store nat add_env
  | Read nat

abbreviation move :: "nat \<Rightarrow> job \<Rightarrow> shared \<Rightarrow> shared" where
  "move i j s \<equiv> s\<lparr>jobs := (jobs s)[i := j]\<rparr>"

definition job_at :: "nat \<Rightarrow> shared \<Rightarrow> job" where
  "job_at i s = (if i < length (jobs s) then jobs s ! i else Gone)"

fun thread_do :: "ProxyConfig \<Rightarrow> action \<Rightarrow> shared \<Rightarrow> shared option" where
  \<comment> \<open>an action that the thread is not at changes nothing; \<^term>\<open>None\<close> stands for undefined behaviour\<close>
  "thread_do cfg (Start now url) s = Some (s\<lparr>jobs := jobs s @ [Looking now url]\<rparr>)"
| "thread_do cfg (Lookup i) s =
     (case job_at i s of
        Looking now url \<Rightarrow>
          map_option (\<lambda>(r, c). move i (case r of Hit a \<Rightarrow> Holding a url | Expired \<Rightarrow> Purging url | Miss \<Rightarrow> Missed url)
                                  (s\<lparr>sh_cache := c\<rparr>))
            (FindCache_locked now url (sh_cache s))
      | _ \<Rightarrow> Some s)"
| "thread_do cfg (Purge i) s =
     (case job_at i s of
        Purging url \<Rightarrow> map_option (\<lambda>c. move i (Missed url) (s\<lparr>sh_cache := c\<rparr>)) (Cache_purge url (sh_cache s))
      | _ \<Rightarrow> Some s)"
| "thread_do cfg (Fetch i d) s =
     (case job_at i s of
        Missed url \<Rightarrow> Some (move i (Storing url d) (s\<lparr>fetched := (url, d) # fetched s\<rparr>))
      | _ \<Rightarrow> Some s)"
| "thread_do cfg (Give_up i) s = (case job_at i s of Missed url \<Rightarrow> Some (move i Gone s) | _ \<Rightarrow> Some s)"
| "thread_do cfg (Store i env) s =
     (case job_at i s of
        Storing url d \<Rightarrow>
          map_option (\<lambda>(_, c). move i (Answered url d) (s\<lparr>sh_cache := c\<rparr>))
            (AddCache cfg env d (int (length d)) url (sh_cache s))
      | _ \<Rightarrow> Some s)"
| "thread_do cfg (Read i) s =
     (case job_at i s of
        Holding a url \<Rightarrow>
          do {
            n \<leftarrow> heap (sh_cache s) a;
            Some (move i (Sending a url (CLENGTH n) []) s)
          }
      | Sending a url sz got \<Rightarrow>
          (if int (length got) < sz
           then do {
             n \<leftarrow> heap (sh_cache s) a;
             d \<leftarrow> read_buf (entry_data (sh_cache s) n) (min sz (int (length got) + uint (max_bytes cfg)));
             Some (move i (Sending a url sz (got @ drop (length got) d)) s)
           }
           else Some (move i (Answered url got) s))
      | _ \<Rightarrow> Some s)"

definition threads_start :: shared where
  "threads_start = \<lparr>sh_cache = empty_cache, jobs = [], fetched = []\<rparr>"

fun small_file :: "action \<Rightarrow> bool" where
  "small_file (Fetch i d) \<longleftrightarrow> length d \<le> 128 * 1024"
| "small_file _ \<longleftrightarrow> True"

section \<open>What the cache keeps for a pointer held\<close>

definition same_content :: "CacheModule \<Rightarrow> CacheModule \<Rightarrow> bool" where
  "same_content m n \<longleftrightarrow> URL m = URL n \<and> DATA m = DATA n \<and> CLENGTH m = CLENGTH n"

lemma same_content_simps [simp]:
  "same_content n n" "same_content (strip m) n = same_content m n" "same_content m (strip n) = same_content m n"
  "same_content m (n\<lparr>UPTIME := t, access_count := k\<rparr>) = same_content m n"
  by (simp_all add: same_content_def strip_def)

lemma same_content_trans: "same_content k m \<Longrightarrow> same_content m n \<Longrightarrow> same_content k n"
  by (simp add: same_content_def)

definition spec_later :: "spec_cache \<Rightarrow> spec_cache \<Rightarrow> bool" where
  \<comment> \<open>addresses are not handed out twice, and an entry keeps its content\<close>
  "spec_later A B \<longleftrightarrow> next_addr A \<le> next_addr B \<and>
     (\<forall>a n. a < next_addr A \<longrightarrow> entries B a = Some n \<longrightarrow> (\<exists>m. entries A a = Some m \<and> same_content m n))"

lemma spec_later_refl [simp]: "spec_later A A"
  by (simp add: spec_later_def)

lemma spec_later_trans:
  assumes "spec_later A B" "spec_later B C"
  shows "spec_later A C"
  unfolding spec_later_def
proof (intro conjI allI impI)
  show "next_addr A \<le> next_addr C" using assms by (simp add: spec_later_def)
next
  fix a n
  assume a: "a < next_addr A" "entries C a = Some n"
  then have "a < next_addr B" using assms(1) by (simp add: spec_later_def)
  with a(2) assms(2) obtain m where m: "entries B a = Some m" "same_content m n"
    unfolding spec_later_def by blast
  from assms(1) a(1) m(1) obtain k where "entries A a = Some k" "same_content k m"
    unfolding spec_later_def by blast
  with m(2) show "\<exists>m. entries A a = Some m \<and> same_content m n" by (blast intro: same_content_trans)
qed

lemma spec_later_drop: "spec_later A (spec_drop a A)"
  by (auto simp: spec_later_def spec_drop_def)

lemma spec_later_evict: "spec_later A (spec_evict A)"
  by (simp add: spec_evict_def spec_later_drop)

lemma spec_later_purge: "spec_later A (spec_purge url A)"
  by (simp add: spec_purge_def spec_later_drop split: option.split)

lemma spec_later_touch: "spec_later A (spec_touch now a A)"
  by (auto simp: spec_later_def spec_touch_def)

lemma spec_later_find: "spec_later A (snd (spec_find now url A))"
  by (auto simp: spec_find_def spec_later_purge spec_later_touch split: option.split)

lemma spec_later_insert: "spec_later A (spec_insert n A)"
  by (auto simp: spec_later_def spec_insert_def)

lemma spec_later_fit: "spec_later A (spec_fit limit es A)"
proof (induction limit es A rule: spec_fit.induct)
  case (1 limit es A)
  then show ?case by (subst spec_fit.simps) (auto intro: spec_later_trans [OF spec_later_evict])
qed

lemma spec_later_add: "spec_later A (snd (spec_add cfg env d sz url disk A))"
  by (auto simp: spec_add_def Let_def intro: spec_later_fit spec_later_trans [OF spec_later_fit spec_later_insert])

definition later :: "cache \<Rightarrow> cache \<Rightarrow> bool" where
  "later s t \<longleftrightarrow> fresh s \<le> fresh t \<and>
     (\<forall>a n. a < fresh s \<longrightarrow> heap t a = Some n \<longrightarrow> (\<exists>m. heap s a = Some m \<and> same_content m n))"

lemma later_refl [simp]: "later s s"
  by (simp add: later_def)

lemma refines_later:
  assumes "refines s A" "refines t B" "spec_later A B"
  shows "later s t"
  unfolding later_def
proof (intro conjI allI impI)
  show "fresh s \<le> fresh t" using assms refinesD(3) by (simp add: spec_later_def)
next
  fix a n
  assume a: "a < fresh s" "heap t a = Some n"
  then have "entries B a = Some (strip n)" using fun_cong [OF refinesD(2) [OF assms(2)], of a] by (simp add: payload_def)
  moreover have "a < next_addr A" using a(1) refinesD(3) [OF assms(1)] by simp
  ultimately obtain m where m: "entries A a = Some m" "same_content m (strip n)"
    using assms(3) unfolding spec_later_def by blast
  then have "payload (heap s) a = Some m" using refinesD(2) [OF assms(1)] by simp
  then obtain k where "heap s a = Some k" "m = strip k" by (auto simp: payload_def)
  with m(2) show "\<exists>m. heap s a = Some m \<and> same_content m n" by simp
qed

section \<open>The operations as the threads see them\<close>

lemma FindCache_locked_law:
  assumes "traced H s"
  obtains r t where "FindCache_locked now url s = Some (r, t)" "traced H t" "later s t"
    "\<And>a. r = Hit a \<Longrightarrow> \<exists>n. heap t a = Some n \<and> URL n = url"
proof -
  from assms obtain A where A: "refines s A" by (rule tracedE)
  from FindCache_refines [OF A, of now url] obtain x u where
    u: "FindCache now url s = Some (x, u)" "refines u (snd (spec_find now url A))" by auto
  then obtain r t where r: "FindCache_locked now url s = Some (r, t)"
    unfolding FindCache_split by (auto split: Option.bind_splits)
  show thesis
  proof (cases r)
    case (Hit a)
    with u(1) r have "x = Some a" "u = t" by (simp_all add: FindCache_split)
    with traced_find [OF assms u(1)] refines_later [OF A u(2) spec_later_find] r Hit show thesis
      by (intro that) auto
  next
    case Expired
    with r have "t = s" by (auto simp: FindCache_locked_def split: Option.bind_splits option.splits if_splits)
    with r Expired assms show thesis by (intro that) auto
  next
    case Miss
    with r have "t = s" by (auto simp: FindCache_locked_def split: Option.bind_splits option.splits if_splits)
    with r Miss assms show thesis by (intro that) auto
  qed
qed

lemma Cache_purge_traced:
  assumes "traced H s"
  obtains t where "Cache_purge url s = Some t" "traced H t" "later s t"
proof -
  from assms obtain A where A: "refines s A" "spec_traced H A" by (rule tracedE)
  from Cache_purge_refines [OF A(1), of url] obtain t where
    t: "Cache_purge url s = Some t" "refines t (spec_purge url A)" by auto
  moreover have "spec_traced H (spec_purge url A)"
    using A(2) by (auto simp: spec_purge_def spec_traced_drop split: option.split)
  ultimately show thesis
    using that refines_traced refines_later [OF A(1) _ spec_later_purge] by blast
qed

lemma AddCache_traced:
  assumes "traced H s" "(url, d) \<in> H" "length d \<le> 128 * 1024"
  obtains r t where "AddCache cfg env d (int (length d)) url s = Some (r, t)" "traced H t" "later s t"
proof -
  from assms(1) obtain A where A: "refines s A" by (rule tracedE)
  have "0 \<le> int (length d)" "nat (int (length d)) \<le> length d" by simp_all
  from AddCache_refines [OF A this, of cfg env url] obtain disk t where
    t: "AddCache cfg env d (int (length d)) url s = Some (fst (spec_add cfg env d (int (length d)) url disk A), t)"
    "refines t (snd (spec_add cfg env d (int (length d)) url disk A))" by blast
  have "\<not> stored_on_disk env (int (length d))" using assms(3) by (simp add: stored_on_disk_def)
  from traced_add [OF assms(1) t(1) this] assms(2) have "traced H t" by (simp add: insert_absorb)
  with t refines_later [OF A t(2) spec_later_add] that show thesis by blast
qed

section \<open>Runs of the threads\<close>

text \<open>
  A machine whose operations keep the invariant, and leave defined behaviour only where a named
  hazard is met.
\<close>

locale hazard_machine =
  fixes step :: "'op \<Rightarrow> 's \<Rightarrow> 's option"
    and ok :: "'op \<Rightarrow> bool"
    and inv :: "'s \<Rightarrow> bool"
    and hazard :: "'op \<Rightarrow> 's \<Rightarrow> bool"
  assumes step_cases: "inv s \<Longrightarrow> ok x \<Longrightarrow> if hazard x s then step x s = None else \<exists>t. step x s = Some t \<and> inv t"
begin

lemma undefined_iff: "inv s \<Longrightarrow> ok x \<Longrightarrow> step x s = None \<longleftrightarrow> hazard x s"
  using step_cases [of s x] by (auto split: if_splits)

lemma step_inv: "inv s \<Longrightarrow> ok x \<Longrightarrow> step x s = Some t \<Longrightarrow> inv t"
  using step_cases [of s x] by (auto split: if_splits)

lemma run_inv: "inv s \<Longrightarrow> list_all ok xs \<Longrightarrow> run_ops step xs s = Some t \<Longrightarrow> inv t"
  by (induction xs arbitrary: s) (auto split: option.splits dest: step_inv)

end

fun job_ok :: "(string \<times> string) set \<Rightarrow> cache \<Rightarrow> job \<Rightarrow> bool" where
  "job_ok H c (Holding a url) \<longleftrightarrow> a < fresh c \<and> (\<forall>n. heap c a = Some n \<longrightarrow> URL n = url)"
| "job_ok H c (Sending a url sz got) \<longleftrightarrow> a < fresh c \<and>
     (\<exists>d. (url, d) \<in> H \<and> sz = int (length d) \<and> got = take (length got) d \<and>
        (\<forall>n. heap c a = Some n \<longrightarrow> DATA n = Heap_Data d))"
| "job_ok H c (Storing url d) \<longleftrightarrow> (url, d) \<in> H \<and> length d \<le> 128 * 1024"
| "job_ok H c (Answered url d) \<longleftrightarrow> (url, d) \<in> H"
| "job_ok H c _ \<longleftrightarrow> True"

definition threads_inv :: "shared \<Rightarrow> bool" where
  "threads_inv s \<longleftrightarrow>
     traced (set (fetched s)) (sh_cache s) \<and> (\<forall>j \<in> set (jobs s). job_ok (set (fetched s)) (sh_cache s) j)"

fun reads_freed :: "action \<Rightarrow> shared \<Rightarrow> bool" where
  \<comment> \<open>the thread reads through a pointer whose entry was freed\<close>
  "reads_freed (Read i) s \<longleftrightarrow>
     (case job_at i s of
        Holding a url \<Rightarrow> heap (sh_cache s) a = None
      | Sending a url sz got \<Rightarrow> int (length got) < sz \<and> heap (sh_cache s) a = None
      | _ \<Rightarrow> False)"
| "reads_freed _ s \<longleftrightarrow> False"

lemma job_ok_later: "job_ok H c j \<Longrightarrow> later c c' \<Longrightarrow> H \<subseteq> K \<Longrightarrow> job_ok K c' j"
proof (cases j)
  case (Holding a url)
  assume *: "job_ok H c j" "later c c'"
  have "URL n = url" if "heap c' a = Some n" for n
    using * Holding that unfolding later_def same_content_def by fastforce
  with * Holding show ?thesis by (auto simp: later_def)
next
  case (Sending a url sz got)
  assume *: "job_ok H c j" "later c c'" "H \<subseteq> K"
  with Sending obtain d where d: "a < fresh c" "(url, d) \<in> H" "sz = int (length d)" "got = take (length got) d"
    "\<forall>n. heap c a = Some n \<longrightarrow> DATA n = Heap_Data d" by auto
  have "DATA n = Heap_Data d" if "heap c' a = Some n" for n
    using *(2) d(1,5) that unfolding later_def same_content_def by fastforce
  with * d Sending show ?thesis by (auto simp: later_def)
qed auto

lemma job_at_ok: "threads_inv s \<Longrightarrow> job_ok (set (fetched s)) (sh_cache s) (job_at i s)"
  by (simp add: threads_inv_def job_at_def)

lemma threads_inv_move:
  assumes "threads_inv s" "traced (set (fetched t)) (sh_cache t)" "later (sh_cache s) (sh_cache t)"
    "set (fetched s) \<subseteq> set (fetched t)" "jobs t = (jobs s)[i := j]" "job_ok (set (fetched t)) (sh_cache t) j"
  shows "threads_inv t"
  using assms set_update_subset_insert [of "jobs s" i j] unfolding threads_inv_def
  by (auto intro: job_ok_later)

lemma piece_bounds:
  assumes "0 \<le> u" "int g < sz" "sz = int l"
  shows "0 \<le> min sz (int g + u)" "nat (min sz (int g + u)) \<le> l" "g \<le> nat (min sz (int g + u))"
  using assms by (auto simp: min_def)

lemma thread_do_cases:
  assumes inv: "threads_inv s" and ok: "small_file x"
  shows "if reads_freed x s then thread_do cfg x s = None else \<exists>t. thread_do cfg x s = Some t \<and> threads_inv t"
proof -
  note tr = inv [unfolded threads_inv_def, THEN conjunct1]
  show ?thesis
  proof (cases x)
    case (Start now url)
    with inv show ?thesis by (simp add: threads_inv_def)
  next
    case (Lookup i)
    show ?thesis
    proof (cases "job_at i s")
      case (Looking now url)
      from FindCache_locked_law [OF tr, of now url] obtain r c where
        r: "FindCache_locked now url (sh_cache s) = Some (r, c)" "traced (set (fetched s)) c" "later (sh_cache s) c"
          "\<And>a. r = Hit a \<Longrightarrow> \<exists>n. heap c a = Some n \<and> URL n = url" by metis
      have "a < fresh c" if "r = Hit a" for a
      proof -
        from r(2) obtain A where A: "refines c A" by (rule tracedE)
        from r(4) [OF that] have "a \<in> dom (heap c)" by auto
        with refinesD(1) [OF A] show ?thesis by (auto simp: rep_def)
      qed
      with r Looking Lookup inv show ?thesis
        by (auto split: lookup.split intro!: threads_inv_move [of s, where i = i])
    qed (use Lookup inv in simp_all)
  next
    case (Purge i)
    show ?thesis
    proof (cases "job_at i s")
      case (Purging url)
      from Cache_purge_traced [OF tr, of url] obtain c where
        "Cache_purge url (sh_cache s) = Some c" "traced (set (fetched s)) c" "later (sh_cache s) c" by metis
      with Purging Purge inv show ?thesis by (auto intro!: threads_inv_move [of s, where i = i])
    qed (use Purge inv in simp_all)
  next
    case (Fetch i d)
    with inv ok tr show ?thesis
      by (auto split: job.split intro!: threads_inv_move [of s, where i = i] intro: traced_mono)
  next
    case (Give_up i)
    with inv tr show ?thesis
      by (auto split: job.split intro!: threads_inv_move [of s, where i = i])
  next
    case (Store i env)
    show ?thesis
    proof (cases "job_at i s")
      case (Storing url d)
      with job_at_ok [OF inv, of i] have d: "(url, d) \<in> set (fetched s)" "length d \<le> 128 * 1024" by simp_all
      from AddCache_traced [OF tr d, of cfg env] obtain r c where
        "AddCache cfg env d (int (length d)) url (sh_cache s) = Some (r, c)" "traced (set (fetched s)) c"
        "later (sh_cache s) c" by metis
      with Storing Store inv d show ?thesis by (auto intro!: threads_inv_move [of s, where i = i])
    qed (use Store inv in simp_all)
  next
    case (Read i)
    show ?thesis
    proof (cases "job_at i s")
      case (Holding a url)
      show ?thesis
      proof (cases "heap (sh_cache s) a")
        case None
        with Holding Read show ?thesis by simp
      next
        case (Some n)
        with job_at_ok [OF inv, of i] Holding have url: "URL n = url" "a < fresh (sh_cache s)" by simp_all
        from tr Some have "entry_from (set (fetched s)) n"
          unfolding traced_def by (metis option.pred_inject(2))
        then obtain d where "DATA n = Heap_Data d" "CLENGTH n = int (length d)" "(url, d) \<in> set (fetched s)"
          using url by (auto simp: entry_from_def)
        with Some Holding Read inv tr url(2) show ?thesis
          by (auto intro!: threads_inv_move [of s, where i = i])
      qed
    next
      case (Sending a url sz got)
      with job_at_ok [OF inv, of i] obtain d where d: "a < fresh (sh_cache s)" "(url, d) \<in> set (fetched s)"
        "sz = int (length d)" "got = take (length got) d" "\<forall>n. heap (sh_cache s) a = Some n \<longrightarrow> DATA n = Heap_Data d" by auto
      show ?thesis
      proof (cases "int (length got) < sz")
        case False
        with d(3,4) have "got = d" by simp
        with False d(2) Sending Read inv tr show ?thesis by (auto intro!: threads_inv_move [of s, where i = i])
      next
        case True
        show ?thesis
        proof (cases "heap (sh_cache s) a")
          case None
          with True Sending Read show ?thesis by simp
        next
          case (Some n)
          let ?k = "min sz (int (length got) + uint (max_bytes cfg))"
          have k: "0 \<le> ?k" "nat ?k \<le> length d" "length got \<le> nat ?k" by (rule piece_bounds [OF uint_ge_0 True d(3)])+
          have data: "entry_data (sh_cache s) n = d" using d(5) Some by (simp add: entry_data_def)
          from d(4) have "got @ drop (length got) (take (nat ?k) d) = take (length got) d @ drop (length got) (take (nat ?k) d)" by simp
          also have "\<dots> = take (nat ?k) d"
            using k(3) append_take_drop_id [of "length got" "take (nat ?k) d"] by (simp add: min_absorb1)
          finally have piece: "got @ drop (length got) (take (nat ?k) d) = take (nat ?k) d" .
          have "thread_do cfg x s = Some (move i (Sending a url sz (take (nat ?k) d)) s)"
            using Read Sending True Some data k(1,2) by (simp add: read_buf_def piece del: min_less_iff_conj)
          moreover have "threads_inv (move i (Sending a url sz (take (nat ?k) d)) s)"
            by (rule threads_inv_move [OF inv, where i = i]) (use tr d in auto)
          ultimately show ?thesis using Read Sending Some by simp
        qed
      qed
    qed (use Read inv in simp_all)
  qed
qed

interpretation threads: hazard_machine "thread_do cfg" small_file threads_inv reads_freed
  by unfold_locales (rule thread_do_cases)

lemma threads_start_inv: "threads_inv threads_start"
  using empty_refines refines_inv
  by (fastforce simp: threads_inv_def threads_start_def traced_def empty_cache_def)

section \<open>Properties\<close>

definition small_pieces :: ProxyConfig where
  "small_pieces = demo_config\<lparr>max_bytes := 2\<rparr>"

definition demo_reader :: "action list" where
  \<comment> \<open>one thread stores a response, a second looks it up and reads its length and first piece\<close>
  "demo_reader =
     [Start 200 ''u'', Lookup 0, Fetch 0 ''hello'', Store 0 demo_env, Start 200 ''u'', Lookup 1, Read 1, Read 1]"

definition demo_purge :: "action list" where
  \<comment> \<open>a third thread finds the entry expired and purges it\<close>
  "demo_purge = [Start 9999 ''u'', Lookup 2, Purge 2]"



fun answer_bytes :: "job \<Rightarrow> (string \<times> string \<times> bool) option" where
  \<comment> \<open>the request text, what was sent for it, and whether that is the whole answer\<close>
  "answer_bytes (Sending a url sz got) = Some (url, got, False)"
| "answer_bytes (Answered url d) = Some (url, d, True)"
| "answer_bytes _ = None"



end
