(* ===== verification/Reload.thy ===== *)
theory Reload
  imports Process_Props
begin

text \<open>
  The two threads that watch files: \<^verbatim>\<open>config_start_hot_reload\<close> and \<^verbatim>\<open>hot_reload_thread\<close> of \<^verbatim>\<open>config.c\<close>, and
  \<^verbatim>\<open>setup_inotify_watches\<close> and \<^verbatim>\<open>hot_reload_thread_fn\<close> of \<^verbatim>\<open>filter.c\<close>. What inotify reports and what the files
  hold at each turn is given by arguments.
\<close>

section \<open>The configuration file\<close>

definition config_start_hot_reload :: "string option \<Rightarrow> bool \<Rightarrow> int \<times> string option" where
  \<comment> \<open>the result and the path of the thread that was started\<close>
  "config_start_hot_reload config_path create_ok =
     (case config_path of
        None \<Rightarrow> (-1, None)
      | Some conf \<Rightarrow> if \<not> create_ok then (-1, None) else (0, Some conf))"

record reload_turn =
  watch_read :: "watch_event list option" \<comment> \<open>the events of one \<^verbatim>\<open>read\<close>, \<^term>\<open>None\<close> where it fails\<close>
  readd_ok :: bool
  disk :: file_system
  file_missing :: bool
  stack_junk :: ProxyConfig \<comment> \<open>what the stack held at \<^verbatim>\<open>parsed_cfg\<close>\<close>

definition reload_now ::
  "(string \<Rightarrow> string option) \<Rightarrow> (string \<Rightarrow> 'r option) \<Rightarrow> string \<Rightarrow> reload_turn \<Rightarrow> 'r process \<Rightarrow> 'r process" where
  "reload_now getenv regcomp conf t p =
     (case hot_reload_config (disk t) (file_missing t) getenv conf (stack_junk t) (p_cfg (proxy p)) of
        (g, level) \<Rightarrow>
          let p = p\<lparr>proxy := (proxy p)\<lparr>p_cfg := g\<rparr>\<rparr>
          in case level of
               None \<Rightarrow> p
             | Some l_enum \<Rightarrow>
                 let p = p\<lparr>logger := logger_set_level l_enum (logger p)\<rparr>
                 in p\<lparr>proxy := (proxy p)\<lparr>p_filter := filter_reload (disk t) regcomp (p_filter (proxy p))\<rparr>\<rparr>)"

fun reload_loop ::
  "(string \<Rightarrow> string option) \<Rightarrow> (string \<Rightarrow> 'r option) \<Rightarrow> string \<Rightarrow> reload_turn list \<Rightarrow> 'r process \<Rightarrow> 'r process" where
  \<comment> \<open>where the turns end, the thread is waiting in \<^verbatim>\<open>read\<close>\<close>
  "reload_loop getenv regcomp conf [] p = p"
| "reload_loop getenv regcomp conf (t # ts) p =
     (case watch_read t of
        None \<Rightarrow> p
      | Some evs \<Rightarrow>
          reload_loop getenv regcomp conf ts
            (if hot_reload_wanted evs (readd_ok t) then reload_now getenv regcomp conf t p else p))"

definition hot_reload_thread ::
  "(string \<Rightarrow> string option) \<Rightarrow> (string \<Rightarrow> 'r option) \<Rightarrow> bool \<Rightarrow> bool \<Rightarrow> string \<Rightarrow> reload_turn list \<Rightarrow>
   'r process \<Rightarrow> 'r process" where
  \<comment> \<open>the flags are the outcomes of \<^verbatim>\<open>inotify_init\<close> and \<^verbatim>\<open>inotify_add_watch\<close>\<close>
  "hot_reload_thread getenv regcomp init_ok watch_ok conf ts p =
     (if \<not> init_ok then p else if \<not> watch_ok then p else reload_loop getenv regcomp conf ts p)"

section \<open>The lists of the filter\<close>

record filter_watch =
  inotify_fd :: int
  inotify_wd_domain :: int
  inotify_wd_ip_allow :: int
  inotify_wd_ip_deny :: int
  inotify_wd_url :: int
  inotify_wd_ct :: int
  inotify_wd_block_page :: int

definition no_watches :: filter_watch where
  "no_watches = \<lparr>inotify_fd = -1, inotify_wd_domain = -1, inotify_wd_ip_allow = -1, inotify_wd_ip_deny = -1,
     inotify_wd_url = -1, inotify_wd_ct = -1, inotify_wd_block_page = -1\<rparr>"

definition setup_inotify_watches ::
  "int \<Rightarrow> (int \<Rightarrow> string \<Rightarrow> int) \<Rightarrow> ProxyConfig \<Rightarrow> filter_watch \<Rightarrow> int \<times> filter_watch" where
  \<comment> \<open>\<^verbatim>\<open>init\<close> is what \<^verbatim>\<open>inotify_init1\<close> returns, \<^verbatim>\<open>add_watch\<close> is \<^verbatim>\<open>inotify_add_watch\<close>; the paths are arrays, never NULL\<close>
  "setup_inotify_watches init add_watch cfg w =
     (let w = (if inotify_fd w < 0 then w\<lparr>inotify_fd := init\<rparr> else w)
      in if inotify_fd w < 0 then (-1, w)
         else
           let w = w\<lparr>inotify_wd_domain := add_watch (inotify_fd w) (blocklist_file cfg)\<rparr>;
               w = w\<lparr>inotify_wd_url := add_watch (inotify_fd w) (url_blocklist_file cfg)\<rparr>;
               w = w\<lparr>inotify_wd_ct := add_watch (inotify_fd w) (content_type_blocklist_file cfg)\<rparr>
           in (0, w))"

record filter_turn =
  running_before :: bool \<comment> \<open>\<^verbatim>\<open>hot_reload_running\<close> at the head of the loop\<close>
  bytes_read :: int
  running_after :: bool
  lists :: file_system

fun hot_reload_thread_fn :: "(string \<Rightarrow> 'r option) \<Rightarrow> filter_turn list \<Rightarrow> 'r filter_state \<Rightarrow> 'r filter_state" where
  "hot_reload_thread_fn regcomp [] st = st"
| "hot_reload_thread_fn regcomp (t # ts) st =
     (if \<not> running_before t then st
      else hot_reload_thread_fn regcomp ts
             (if bytes_read t > 0 \<and> running_after t then filter_reload (lists t) regcomp st else st))"

section \<open>The thread as a sequence of events\<close>

fun reload_events :: "string \<Rightarrow> reload_turn list \<Rightarrow> proxy_event list" where
  \<comment> \<open>the reloads that the turns lead to\<close>
  "reload_events conf [] = []"
| "reload_events conf (t # ts) =
     (case watch_read t of
        None \<Rightarrow> []
      | Some evs \<Rightarrow>
          (if hot_reload_wanted evs (readd_ok t)
           then [Config_written (disk t) (file_missing t) conf (stack_junk t)] else []) @ reload_events conf ts)"

lemma reload_now_event:
  "serve_event getenv regcomp regexec (Config_written (disk t) (file_missing t) conf (stack_junk t)) (proxy p) =
     Some (proxy (reload_now getenv regcomp conf t p))"
  by (simp add: serve_event_def config_hot_reload_def reload_now_def Let_def split: prod.split option.split)

lemma reload_loop_events:
  "run_ops (serve_event getenv regcomp regexec) (reload_events conf ts) (proxy p) =
     Some (proxy (reload_loop getenv regcomp conf ts p))"
proof (induction ts arbitrary: p)
  case (Cons t ts)
  show ?case
    by (cases "watch_read t") (simp_all add: Cons.IH reload_now_event)
qed simp


section \<open>The logger during reloads\<close>

definition level_in_sync :: "LoggerConfig \<Rightarrow> 'r process \<Rightarrow> bool" where
  \<comment> \<open>the logger has the level the configuration names, everything else is as in \<^verbatim>\<open>c\<close>\<close>
  "level_in_sync c p \<longleftrightarrow> g_logger_config (logger p) = c\<lparr>lc_level := runtime_log_level (log_level (p_cfg (proxy p)))\<rparr>"

lemma reload_now_sync:
  assumes "level_in_sync c p"
  shows "level_in_sync c (reload_now getenv regcomp conf t p) \<and> g_log_fp (logger (reload_now getenv regcomp conf t p)) = g_log_fp (logger p)"
  using assms
  by (auto simp: reload_now_def level_in_sync_def hot_reload_config_def logger_set_level_def Let_def split: prod.split if_splits)

lemma reload_loop_sync:
  "level_in_sync c p \<Longrightarrow> level_in_sync c (reload_loop getenv regcomp conf ts p) \<and>
     g_log_fp (logger (reload_loop getenv regcomp conf ts p)) = g_log_fp (logger p)"
proof (induction ts arbitrary: p)
  case (Cons t ts)
  from Cons.prems Cons.IH [of p] Cons.IH [of "reload_now getenv regcomp conf t p"] reload_now_sync [of c p getenv regcomp conf t]
  show ?case by (simp split: option.split)
qed simp

text \<open>
  C26: after every start and any reloads the logger filters by the level that the configuration of the
  moment names. That is all that reaches it: its file, format and rotation stay those of the start,
  although a reload also takes a new \<^verbatim>\<open>log_file\<close> into the configuration.
\<close>

theorem logger_follows_level:
  assumes "main_start fs enoent getenv etc_ok argv regcomp junk fopen_ok aenv henv lenv p = Some (Accepting q)"
    and "r = hot_reload_thread getenv regcomp init_ok watch_ok conf ts q"
  shows "g_logger_config (logger r) =
      (logger_settings junk (p_cfg (proxy q)))\<lparr>lc_level := runtime_log_level (log_level (p_cfg (proxy r)))\<rparr> \<and>
    g_log_fp (logger r) = g_log_fp (logger q)"
proof -
  from main_start_parts [OF assms(1)] have
    "logger q = snd (logger_init fopen_ok (Some (logger_settings junk (p_cfg (proxy q)))) (logger p))" by metis
  then have "level_in_sync (logger_settings junk (p_cfg (proxy q))) q"
    by (simp add: level_in_sync_def logger_init_def logger_settings_def open_append_def Let_def)
  from reload_loop_sync [OF this] this show ?thesis
    unfolding assms(2) hot_reload_thread_def level_in_sync_def by simp
qed

definition demo_rewrite :: reload_turn where
  "demo_rewrite = \<lparr>watch_read = Some [\<lparr>ev_modified = True, ev_ignored = False\<rparr>], readd_ok = False,
     disk = (\<lambda>_. Some (''log_level=ERROR'' @ [LF] @ ''log_file=other.log'')), file_missing = False, stack_junk = zero_config\<rparr>"

lemma demo_rewrite_config:
  "fst (hot_reload_config (disk demo_rewrite) False (\<lambda>_. None) ''c'' zero_config g) =
     hot_reload_merge g (snd (config_load_file (disk demo_rewrite) False (config_init_defaults zero_config) (Some ''c'')))"
proof -
  have "fst (config_load_file (disk demo_rewrite) False (config_init_defaults zero_config) (Some ''c'')) = 0" by code_simp
  moreover have "config_apply_env (\<lambda>_. None) (snd (config_load_file (disk demo_rewrite) False (config_init_defaults zero_config) (Some ''c''))) =
      snd (config_load_file (disk demo_rewrite) False (config_init_defaults zero_config) (Some ''c''))" by code_simp
  ultimately show ?thesis by (simp add: hot_reload_config_def Let_def case_prod_beta)
qed

lemma demo_rewrite_fields:
  "log_level (fst (hot_reload_config (disk demo_rewrite) False (\<lambda>_. None) ''c'' zero_config g)) = ''ERROR''"
  "log_file (fst (hot_reload_config (disk demo_rewrite) False (\<lambda>_. None) ''c'' zero_config g)) = ''other.log''"
proof -
  have "log_level (snd (config_load_file (disk demo_rewrite) False (config_init_defaults zero_config) (Some ''c''))) = ''ERROR''"
    "log_file (snd (config_load_file (disk demo_rewrite) False (config_init_defaults zero_config) (Some ''c''))) = ''other.log''"
    by code_simp+
  then show "log_level (fst (hot_reload_config (disk demo_rewrite) False (\<lambda>_. None) ''c'' zero_config g)) = ''ERROR''"
    "log_file (fst (hot_reload_config (disk demo_rewrite) False (\<lambda>_. None) ''c'' zero_config g)) = ''other.log''"
    unfolding demo_rewrite_config by (simp_all add: hot_reload_merge_def)
qed

theorem logger_follows_level_witness:
  "\<exists>q. main_start (\<lambda>_. None) True (\<lambda>_. None) False [''proxy'', ''9090''] Some False True (demo_admin_env True) demo_h3_start demo_listen demo_process = Some (Accepting q) \<and>
     (let r = hot_reload_thread (\<lambda>_. None) Some True True ''c'' [demo_rewrite] q
      in lc_level (g_logger_config (logger r)) = LOG_LEVEL_ERROR \<and> log_file (p_cfg (proxy r)) = ''other.log'' \<and>
         lc_log_file (g_logger_config (logger r)) = strncpy_term 512 (log_file (p_cfg (proxy q))))"
proof -
  from default_main_start obtain q where
    q: "main_start (\<lambda>_. None) True (\<lambda>_. None) False [''proxy'', ''9090''] Some False True (demo_admin_env True) demo_h3_start demo_listen demo_process = Some (Accepting q)"
    by blast
  define r where r: "r = hot_reload_thread (\<lambda>_. None) Some True True ''c'' [demo_rewrite] q"
  have "p_cfg (proxy r) = fst (hot_reload_config (disk demo_rewrite) False (\<lambda>_. None) ''c'' zero_config (p_cfg (proxy q)))"
    unfolding r by (simp add: hot_reload_thread_def reload_now_def hot_reload_wanted_def Let_def demo_rewrite_def split: prod.split option.split)
  then have "log_level (p_cfg (proxy r)) = ''ERROR''" "log_file (p_cfg (proxy r)) = ''other.log''"
    using demo_rewrite_fields by simp_all
  with logger_follows_level [OF q r] q r show ?thesis
    by (auto simp: Let_def runtime_log_level_def logger_settings_def)
qed

text \<open>
  A reload is not validated: a configuration that passed validation at the start may fail it afterwards.
\<close>

theorem reload_skips_validation:
  "config_validate (config_init_defaults zero_config) = 0 \<and>
   config_validate (fst (hot_reload_config (\<lambda>_. Some ''log_level=LOUD'') False (\<lambda>_. None) ''c'' zero_config
     (config_init_defaults zero_config))) = -1"
  by code_simp

text \<open>
  The lists of addresses and the block page are not watched, whatever the configuration names.
\<close>

theorem address_lists_unwatched:
  "case setup_inotify_watches init add_watch cfg no_watches of
     (_, w) \<Rightarrow> inotify_wd_ip_allow w = -1 \<and> inotify_wd_ip_deny w = -1 \<and> inotify_wd_block_page w = -1"
  by (simp add: setup_inotify_watches_def no_watches_def Let_def)

end
